theory Spec2Isabelle
  imports Main
begin

unbundle bit_operations_syntax

section \<open>Strings, bytes and runes\<close>

text \<open>
  A Go \<^verbatim>\<open>string\<close> and a \<^verbatim>\<open>[]byte\<close> are sequences of bytes; HOL's \<^typ>\<open>char\<close> is a byte, so
  both are \<^typ>\<open>string\<close>. A \<^verbatim>\<open>rune\<close> (int32) and a \<^verbatim>\<open>uint16\<close> are integers; the
  conversions that truncate (\<^verbatim>\<open>byte(x)\<close>, \<^verbatim>\<open>uint16(x)\<close>, \<^verbatim>\<open>uint32(x)\<close>) are written out
  as \<open>mod\<close>.
\<close>

type_synonym rune = int
type_synonym bytes = "char list"
type_synonym path = string

definition byte :: "int \<Rightarrow> char" where
  "byte x = char_of x"

definition uint16 :: "int \<Rightarrow> int" where
  "uint16 v = v mod 65536"

subsection \<open>The conversion from string to rune slice (Go runtime, utf8.go)\<close>

definition t2 :: int where "t2 = 0xC0"
definition t3 :: int where "t3 = 0xE0"
definition t4 :: int where "t4 = 0xF0"
definition t5 :: int where "t5 = 0xF8"
definition tx :: int where "tx = 0x80"
definition maskx :: int where "maskx = 0x3F"
definition mask2 :: int where "mask2 = 0x1F"
definition mask3 :: int where "mask3 = 0x0F"
definition mask4 :: int where "mask4 = 0x07"
definition locb :: int where "locb = 0x80"
definition hicb :: int where "hicb = 0xBF"
definition rune1Max :: int where "rune1Max = 0x7F"
definition rune2Max :: int where "rune2Max = 0x7FF"
definition rune3Max :: int where "rune3Max = 0xFFFF"
definition maxRune :: int where "maxRune = 0x10FFFF"
definition runeError :: int where "runeError = 0xFFFD"
definition surrogateMin :: int where "surrogateMin = 0xD800"
definition surrogateMax :: int where "surrogateMax = 0xDFFF"
definition runeSelf :: int where "runeSelf = 0x80"

text \<open>\<^verbatim>\<open>locb <= s[i] && s[i] <= hicb\<close>: the byte is a continuation byte.\<close>

definition cont :: "char \<Rightarrow> bool" where
  "cont c = (locb \<le> of_char c \<and> of_char c \<le> hicb)"

text \<open>
  \<^verbatim>\<open>decoderune\<close> reads one rune at the head of a string whose first byte is not ASCII and
  returns it with the number of bytes it takes; an ill-formed sequence is \<^verbatim>\<open>runeError\<close> and
  takes one byte.
\<close>

fun decoderune :: "string \<Rightarrow> rune \<times> nat" where
  "decoderune [] = (runeError, 1)"
| "decoderune (c0 # s) =
    (let s0 = of_char c0 :: int in
     if t2 \<le> s0 \<and> s0 < t3 then
       (case s of
          c1 # _ \<Rightarrow>
            if cont c1 then
              (let r = push_bit 6 (s0 AND mask2) OR (of_char c1 AND maskx)
               in if rune1Max < r then (r, 2) else (runeError, 1))
            else (runeError, 1)
        | _ \<Rightarrow> (runeError, 1))
     else if t3 \<le> s0 \<and> s0 < t4 then
       (case s of
          c1 # c2 # _ \<Rightarrow>
            if cont c1 \<and> cont c2 then
              (let r = push_bit 12 (s0 AND mask3) OR push_bit 6 (of_char c1 AND maskx)
                         OR (of_char c2 AND maskx)
               in if rune2Max < r \<and> \<not> (surrogateMin \<le> r \<and> r \<le> surrogateMax)
                  then (r, 3) else (runeError, 1))
            else (runeError, 1)
        | _ \<Rightarrow> (runeError, 1))
     else if t4 \<le> s0 \<and> s0 < t5 then
       (case s of
          c1 # c2 # c3 # _ \<Rightarrow>
            if cont c1 \<and> cont c2 \<and> cont c3 then
              (let r = push_bit 18 (s0 AND mask4) OR push_bit 12 (of_char c1 AND maskx)
                         OR push_bit 6 (of_char c2 AND maskx) OR (of_char c3 AND maskx)
               in if rune3Max < r \<and> r \<le> maxRune then (r, 4) else (runeError, 1))
            else (runeError, 1)
        | _ \<Rightarrow> (runeError, 1))
     else (runeError, 1))"

text \<open>
  \<^verbatim>\<open>[]rune(s)\<close>: the range loop over the string takes an ASCII byte as it is and calls
  \<^verbatim>\<open>decoderune\<close> on anything else.
\<close>

function stringtoslicerune :: "string \<Rightarrow> rune list" where
  "stringtoslicerune [] = []"
| "stringtoslicerune (c # s) =
     (if of_char c < runeSelf then of_char c # stringtoslicerune s
      else (let (r, n) = decoderune (c # s) in r # stringtoslicerune (drop n (c # s))))"
  by pat_completeness auto
termination
proof (relation "measure length")
  show "wf (measure length)" by simp
next
  fix c :: char and s :: string
  show "(s, c # s) \<in> measure length" by simp
next
  fix c :: char and s :: string and x :: "rune \<times> nat" and r :: rune and n :: nat
  assume "x = decoderune (c # s)" and "(r, n) = x"
  then have "n = snd (decoderune (c # s))" by (metis snd_conv)
  moreover have "1 \<le> snd (decoderune (c # s))"
    by (auto simp: Let_def split: list.splits)
  ultimately have "1 \<le> n" by simp
  then show "(drop n (c # s), c # s) \<in> measure length" by simp
qed

text \<open>
  \<^verbatim>\<open>encoderune\<close> and \<^verbatim>\<open>string(runes)\<close>: the inverse conversion, used here to write a sequence
  of code points as the Go string that holds it, and to turn decoded runes back into a string.
\<close>

definition encoderune :: "rune \<Rightarrow> bytes" where
  "encoderune r =
    (let i = r mod 2 ^ 32 in
     if i \<le> rune1Max then [byte r]
     else if i \<le> rune2Max then
       [byte (t2 OR of_char (byte (drop_bit 6 r))),
        byte (tx OR (of_char (byte r) AND maskx))]
     else
       (let surrogate = (i > maxRune \<or> (surrogateMin \<le> i \<and> i \<le> surrogateMax));
            r = (if surrogate then runeError else r)
        in if surrogate \<or> i \<le> rune3Max then
          [byte (t3 OR of_char (byte (drop_bit 12 r))),
           byte (tx OR (of_char (byte (drop_bit 6 r)) AND maskx)),
           byte (tx OR (of_char (byte r) AND maskx))]
        else
          [byte (t4 OR of_char (byte (drop_bit 18 r))),
           byte (tx OR (of_char (byte (drop_bit 12 r)) AND maskx)),
           byte (tx OR (of_char (byte (drop_bit 6 r)) AND maskx)),
           byte (tx OR (of_char (byte r) AND maskx))]))"

definition slicerunetostring :: "rune list \<Rightarrow> string" where
  "slicerunetostring a = concat (map encoderune a)"

subsection \<open>Package unicode/utf16\<close>

definition surr1 :: int where "surr1 = 0xd800"
definition surr2 :: int where "surr2 = 0xdc00"
definition surr3 :: int where "surr3 = 0xe000"
definition surrSelf :: int where "surrSelf = 0x10000"
definition replacementChar :: int where "replacementChar = 0xFFFD"

definition EncodeRune :: "rune \<Rightarrow> rune \<times> rune" where
  "EncodeRune r =
    (if r < surrSelf \<or> r > maxRune then (replacementChar, replacementChar)
     else (let r = r - surrSelf
           in (surr1 + (drop_bit 10 r AND 0x3ff), surr2 + (r AND 0x3ff))))"

fun utf16_Encode :: "rune list \<Rightarrow> int list" where
  "utf16_Encode [] = []"
| "utf16_Encode (v # s) =
    (if (0 \<le> v \<and> v < surr1) \<or> (surr3 \<le> v \<and> v < surrSelf) then [uint16 v]
     else if surrSelf \<le> v \<and> v \<le> maxRune then
       (let (r1, r2) = EncodeRune v in [uint16 r1, uint16 r2])
     else [uint16 replacementChar]) @ utf16_Encode s"

definition DecodeRune :: "rune \<Rightarrow> rune \<Rightarrow> rune" where
  "DecodeRune r1 r2 =
    (if surr1 \<le> r1 \<and> r1 < surr2 \<and> surr2 \<le> r2 \<and> r2 < surr3
     then (push_bit 10 (r1 - surr1) OR (r2 - surr2)) + surrSelf
     else replacementChar)"

fun utf16_Decode :: "int list \<Rightarrow> rune list" where
  "utf16_Decode [] = []"
| "utf16_Decode [r] = (if r < surr1 \<or> surr3 \<le> r then [r] else [replacementChar])"
| "utf16_Decode (r # r2 # s) =
    (if r < surr1 \<or> surr3 \<le> r then r # utf16_Decode (r2 # s)
     else if surr1 \<le> r \<and> r < surr2 \<and> surr2 \<le> r2 \<and> r2 < surr3
       then DecodeRune r r2 # utf16_Decode s
     else replacementChar # utf16_Decode (r2 # s))"

subsection \<open>EncodeUTF16 (fillpdf.go)\<close>

text \<open>\<^verbatim>\<open>binary.BigEndian.PutUint16(temp, i)\<close> on a fresh two-byte slice.\<close>

definition PutUint16 :: "int \<Rightarrow> bytes" where
  "PutUint16 v = [byte (drop_bit 8 v), byte v]"

definition EncodeUTF16 :: "string \<Rightarrow> bool \<Rightarrow> bytes" where
  "EncodeUTF16 s addBom =
    (let r = stringtoslicerune s;
         iresult = utf16_Encode r;
         bytes = (if addBom then [byte 254, byte 255] else [])
     in foldl (\<lambda>bytes i. bytes @ PutUint16 i) bytes iresult)"

subsection \<open>The encoding as the Unicode Standard words it, and a decoder\<close>

text \<open>
  A Unicode scalar value is a code point that is not a surrogate. Its UTF-16 encoding form
  is the code point itself below \<open>0x10000\<close>, and otherwise the surrogate pair made of the
  high and the low ten bits of the code point minus \<open>0x10000\<close>. A code unit in big-endian
  order is its high byte followed by its low byte.
\<close>

definition scalar :: "int \<Rightarrow> bool" where
  "scalar cp = ((0 \<le> cp \<and> cp < 0xD800) \<or> (0xE000 \<le> cp \<and> cp \<le> 0x10FFFF))"

definition utf16_units :: "int \<Rightarrow> int list" where
  "utf16_units cp =
    (if cp < 0x10000 then [cp]
     else [0xD800 + (cp - 0x10000) div 0x400, 0xDC00 + (cp - 0x10000) mod 0x400])"

definition big_endian :: "int \<Rightarrow> bytes" where
  "big_endian u = [char_of (u div 256), char_of (u mod 256)]"

text \<open>
  Well-formed UTF-8, as the table of well-formed byte sequences of the Unicode Standard
  has it: one byte below \<open>0x80\<close>; a lead byte \<open>0xC2..0xDF\<close> and one continuation byte; a
  lead byte \<open>0xE0..0xEF\<close> and two, the first at least \<open>0xA0\<close> after \<open>0xE0\<close> and at most \<open>0x9F\<close>
  after \<open>0xED\<close>; a lead byte \<open>0xF0..0xF4\<close> and three, the first at least \<open>0x90\<close> after \<open>0xF0\<close>
  and at most \<open>0x8F\<close> after \<open>0xF4\<close>. A continuation byte is in \<open>0x80..0xBF\<close>.
\<close>

definition between :: "char \<Rightarrow> int \<Rightarrow> int \<Rightarrow> bool" where
  "between c lo hi = (lo \<le> of_char c \<and> of_char c \<le> hi)"

fun well_formed :: "string \<Rightarrow> bool" where
  "well_formed [] = True"
| "well_formed (c0 # s) =
    (let b0 = of_char c0 :: int in
     if b0 < 0x80 then well_formed s
     else if 0xC2 \<le> b0 \<and> b0 \<le> 0xDF then
       (case s of
          c1 # s' \<Rightarrow> between c1 0x80 0xBF \<and> well_formed s'
        | _ \<Rightarrow> False)
     else if 0xE0 \<le> b0 \<and> b0 \<le> 0xEF then
       (case s of
          c1 # c2 # s' \<Rightarrow>
            between c1 (if b0 = 0xE0 then 0xA0 else 0x80) (if b0 = 0xED then 0x9F else 0xBF)
            \<and> between c2 0x80 0xBF \<and> well_formed s'
        | _ \<Rightarrow> False)
     else if 0xF0 \<le> b0 \<and> b0 \<le> 0xF4 then
       (case s of
          c1 # c2 # c3 # s' \<Rightarrow>
            between c1 (if b0 = 0xF0 then 0x90 else 0x80) (if b0 = 0xF4 then 0x8F else 0xBF)
            \<and> between c2 0x80 0xBF \<and> between c3 0x80 0xBF \<and> well_formed s'
        | _ \<Rightarrow> False)
     else False)"

text \<open>
  The decoder for the round trip: \<^verbatim>\<open>binary.BigEndian.Uint16\<close> on each pair of bytes after the
  marker, then \<^verbatim>\<open>utf16.Decode\<close>, then \<^verbatim>\<open>string(runes)\<close>. It refuses input without the marker
  \<open>0xFE 0xFF\<close> or with an odd number of bytes.
\<close>

fun Uint16s :: "bytes \<Rightarrow> int list" where
  "Uint16s (b0 # b1 # b) = (of_char b1 OR push_bit 8 (of_char b0)) # Uint16s b"
| "Uint16s _ = []"

definition DecodeUTF16 :: "bytes \<Rightarrow> string option" where
  "DecodeUTF16 b =
    (case b of
       m0 # m1 # units \<Rightarrow>
         if m0 = byte 254 \<and> m1 = byte 255 \<and> even (length units)
         then Some (slicerunetostring (utf16_Decode (Uint16s units)))
         else None
     | _ \<Rightarrow> None)"

section \<open>Errors, the file system and the operating system\<close>

text \<open>
  An \<^verbatim>\<open>error\<close> is a value: one that the operating system or a library reports (\<open>ErrNotExist\<close>
  for a path that is not there, the only kind \<^verbatim>\<open>os.IsNotExist\<close> accepts, and \<open>SysError\<close> with
  its text for every other), or one made by \<^verbatim>\<open>fmt.Errorf\<close>, kept as its format and its
  arguments. \<open>None\<close> of type \<open>error option\<close> is the nil error.
\<close>

datatype error =
    ErrNotExist path
  | SysError string
  | Errorf string "arg list"
and arg = ArgString string | ArgError error

definition IsNotExist :: "error \<Rightarrow> bool" where
  "IsNotExist err = (case err of ErrNotExist _ \<Rightarrow> True | _ \<Rightarrow> False)"

text \<open>
  The world an operation works on: the file system, a map from path names to files and
  directories (names are compared as strings; two names of one file are not identified), the
  processes started so far, each with its working directory, program and arguments, and the
  calls of \<^verbatim>\<open>log.Printf\<close> so far.
\<close>

datatype node = File bytes | Dir

record world =
  fs :: "path \<Rightarrow> node option"
  spawned :: "(path \<times> string \<times> string list) list"
  logged :: "(string \<times> arg list) list"

text \<open>
  A process that has run to its end: whether \<^verbatim>\<open>cmd.Run\<close> returns nil, what it wrote to its
  standard output and standard error, and the file system it leaves behind.
\<close>

record process =
  exit_ok :: bool
  stdout :: bytes
  stderr :: string
  fs_after :: "path \<Rightarrow> node option"

text \<open>
  What the code cannot decide is a parameter of the model, gathered in \<open>sys\<close>: the search
  path (\<^verbatim>\<open>exec.LookPath\<close>); the lexical functions \<^verbatim>\<open>filepath.Abs\<close>, \<^verbatim>\<open>Clean\<close> and \<^verbatim>\<open>Join\<close>
  and \<^verbatim>\<open>strings.TrimSpace\<close>; the faults of the operating system, where \<open>fault s c = Some err\<close>
  says that the call \<open>c\<close> fails with \<open>err\<close>, and a failing write to \<open>p\<close> still puts the first
  \<open>written s p\<close> bytes into the file; the name \<^verbatim>\<open>ioutil.TempDir\<close> picks; what an external
  program does when it is run in a directory with arguments on a file system; the bytes
  \<^verbatim>\<open>crypto/rand\<close> delivers; the clock; and the conversion of the iconv library (part 000).
\<close>

datatype call =
    Stat path | Open path | Create path | Read path | Write path | Sync path | Close path
  | Remove path | RemoveAll path | MkdirTemp | RandRead

record sys =
  lookPath :: "string \<Rightarrow> error + path"
  absPath :: "path \<Rightarrow> error + path"
  cleanPath :: "path \<Rightarrow> path"
  joinPath :: "path \<Rightarrow> path \<Rightarrow> path"
  trimSpace :: "string \<Rightarrow> string"
  fault :: "call \<Rightarrow> error option"
  written :: "path \<Rightarrow> nat"
  tempName :: path
  runProcess :: "path \<Rightarrow> string \<Rightarrow> string list \<Rightarrow> (path \<Rightarrow> node option) \<Rightarrow> process"
  randomBytes :: bytes
  unixTime :: int
  iconv :: "string \<Rightarrow> string option"

text \<open>
  The calls of the packages \<^verbatim>\<open>os\<close>, \<^verbatim>\<open>io\<close> and \<^verbatim>\<open>io/ioutil\<close> that the code makes. An open file
  is known by its path. \<^verbatim>\<open>os.Create\<close> truncates; \<^verbatim>\<open>Write\<close> appends to what the file holds;
  \<^verbatim>\<open>os.RemoveAll\<close> removes the path and everything below it and is content when there is
  nothing; \<^verbatim>\<open>ioutil.TempDir\<close> makes a directory that was not there before. A call fails
  when \<open>fault\<close> says so, and when the file system of the model rules it out (opening or
  removing what is not there, creating a file where a directory is); every other cause, such
  as a missing parent directory or missing rights, is a fault.
\<close>

definition os_Stat :: "sys \<Rightarrow> path \<Rightarrow> world \<Rightarrow> error option" where
  "os_Stat s name w =
    (case fault s (Stat name) of
       Some err \<Rightarrow> Some err
     | None \<Rightarrow> (case fs w name of None \<Rightarrow> Some (ErrNotExist name) | Some _ \<Rightarrow> None))"

definition os_Open :: "sys \<Rightarrow> path \<Rightarrow> world \<Rightarrow> error option" where
  "os_Open s name w =
    (case fault s (Open name) of
       Some err \<Rightarrow> Some err
     | None \<Rightarrow> (case fs w name of None \<Rightarrow> Some (ErrNotExist name) | Some _ \<Rightarrow> None))"

definition os_Create :: "sys \<Rightarrow> path \<Rightarrow> world \<Rightarrow> error option \<times> world" where
  "os_Create s name w =
    (case fault s (Create name) of
       Some err \<Rightarrow> (Some err, w)
     | None \<Rightarrow>
         (case fs w name of
            Some Dir \<Rightarrow> (Some (SysError ''is a directory''), w)
          | _ \<Rightarrow> (None, w\<lparr>fs := (fs w)(name \<mapsto> File [])\<rparr>)))"

definition file_Write :: "sys \<Rightarrow> path \<Rightarrow> bytes \<Rightarrow> world \<Rightarrow> error option \<times> world" where
  "file_Write s name b w =
    (if b = [] then (None, w)
     else case fs w name of
       Some (File old) \<Rightarrow>
         (case fault s (Write name) of
            Some err \<Rightarrow> (Some err, w\<lparr>fs := (fs w)(name \<mapsto> File (old @ take (written s name) b))\<rparr>)
          | None \<Rightarrow> (None, w\<lparr>fs := (fs w)(name \<mapsto> File (old @ b))\<rparr>))
     | _ \<Rightarrow> (Some (SysError ''bad file descriptor''), w))"

definition file_Sync :: "sys \<Rightarrow> path \<Rightarrow> error option" where
  "file_Sync s name = fault s (Sync name)"

definition file_Close :: "sys \<Rightarrow> path \<Rightarrow> error option" where
  "file_Close s name = fault s (Close name)"

definition io_Copy :: "sys \<Rightarrow> path \<Rightarrow> path \<Rightarrow> world \<Rightarrow> error option \<times> world" where
  "io_Copy s dst src w =
    (case fault s (Read src) of
       Some err \<Rightarrow> (Some err, w)
     | None \<Rightarrow>
         (case fs w src of
            Some (File b) \<Rightarrow> file_Write s dst b w
          | _ \<Rightarrow> (Some (SysError ''is a directory''), w)))"

definition os_Remove :: "sys \<Rightarrow> path \<Rightarrow> world \<Rightarrow> error option \<times> world" where
  "os_Remove s name w =
    (case fault s (Remove name) of
       Some err \<Rightarrow> (Some err, w)
     | None \<Rightarrow>
         (case fs w name of
            None \<Rightarrow> (Some (ErrNotExist name), w)
          | Some _ \<Rightarrow> (None, w\<lparr>fs := (fs w)(name := None)\<rparr>)))"

definition inside :: "path \<Rightarrow> path \<Rightarrow> bool" where
  "inside dir p = (p = dir \<or> take (Suc (length dir)) p = dir @ ''/'')"

definition os_RemoveAll :: "sys \<Rightarrow> path \<Rightarrow> world \<Rightarrow> error option \<times> world" where
  "os_RemoveAll s p w =
    (case fault s (RemoveAll p) of
       Some err \<Rightarrow> (Some err, w)
     | None \<Rightarrow> (None, w\<lparr>fs := (\<lambda>q. if inside p q then None else fs w q)\<rparr>))"

definition ioutil_TempDir :: "sys \<Rightarrow> world \<Rightarrow> (error + path) \<times> world" where
  "ioutil_TempDir s w =
    (case fault s MkdirTemp of
       Some err \<Rightarrow> (Inl err, w)
     | None \<Rightarrow>
         (case fs w (tempName s) of
            Some _ \<Rightarrow> (Inl (SysError ''file exists''), w)
          | None \<Rightarrow> (Inr (tempName s), w\<lparr>fs := (fs w)(tempName s \<mapsto> Dir)\<rparr>)))"

definition ioutil_ReadFile :: "sys \<Rightarrow> path \<Rightarrow> world \<Rightarrow> error + bytes" where
  "ioutil_ReadFile s name w =
    (case os_Open s name w of
       Some err \<Rightarrow> Inl err
     | None \<Rightarrow>
         (case fault s (Read name) of
            Some err \<Rightarrow> Inl err
          | None \<Rightarrow>
              (case fs w name of
                 Some (File b) \<Rightarrow> Inr b
               | _ \<Rightarrow> Inl (SysError ''is a directory''))))"

definition log_Printf :: "string \<Rightarrow> arg list \<Rightarrow> world \<Rightarrow> world" where
  "log_Printf format args w = w\<lparr>logged := logged w @ [(format, args)]\<rparr>"

subsection \<open>The helpers of the package (part 001)\<close>

text \<open>The result of \<^verbatim>\<open>exists\<close> is the pair the Go function returns.\<close>

definition exists :: "sys \<Rightarrow> path \<Rightarrow> world \<Rightarrow> bool \<times> error option" where
  "exists s path w =
    (case os_Stat s path w of
       None \<Rightarrow> (True, None)
     | Some err \<Rightarrow> if IsNotExist err then (False, None) else (False, Some err))"

definition getAbs :: "sys \<Rightarrow> path \<Rightarrow> world \<Rightarrow> error + path" where
  "getAbs s path w =
    (case absPath s path of
       Inl err \<Rightarrow> Inl (Errorf ''failed to get the absolute path: %v'' [ArgError err])
     | Inr absolute \<Rightarrow>
         (case exists s path w of
            (_, Some err) \<Rightarrow> Inl (Errorf ''failed to check if file exists: %v'' [ArgError err])
          | (e, None) \<Rightarrow>
              if \<not> e then Inl (Errorf (''file does not exists: '%s'' @ [CHR 0x27]) [ArgString path])
              else Inr absolute))"

text \<open>
  \<^verbatim>\<open>copyFile\<close>: the deferred \<^verbatim>\<open>in.Close()\<close> changes nothing; the deferred function closes
  \<^verbatim>\<open>out\<close> and makes its error the result when there is none yet.
\<close>

definition copyFile :: "sys \<Rightarrow> path \<Rightarrow> path \<Rightarrow> world \<Rightarrow> error option \<times> world" where
  "copyFile s src dst w =
    (case os_Open s src w of
       Some err \<Rightarrow> (Some err, w)
     | None \<Rightarrow>
         (case os_Create s dst w of
            (Some err, w) \<Rightarrow> (Some err, w)
          | (None, w) \<Rightarrow>
              (let (err, w) = io_Copy s dst src w;
                   err = (if err \<noteq> None then err else file_Sync s dst);
                   cerr = file_Close s dst
               in (if err = None then cerr else err, w))))"

text \<open>
  \<^verbatim>\<open>exec.Command\<close> looks the program up on the search path; when it is not there,
  \<^verbatim>\<open>cmd.Run\<close> fails without starting anything, with nothing on standard error. A process
  that is started runs to its end and is recorded in \<open>spawned\<close>.
\<close>

definition runCommandInPath ::
  "sys \<Rightarrow> path \<Rightarrow> string \<Rightarrow> string list \<Rightarrow> world \<Rightarrow> error option \<times> world" where
  "runCommandInPath s dir name args w =
    (case lookPath s name of
       Inl _ \<Rightarrow> (Some (Errorf (trimSpace s []) []), w)
     | Inr _ \<Rightarrow>
         (let p = runProcess s dir name args (fs w);
              w = w\<lparr>fs := fs_after p, spawned := spawned w @ [(dir, name, args)]\<rparr>
          in if \<not> exit_ok p then (Some (Errorf (trimSpace s (stderr p)) []), w)
             else (None, w)))"

definition runCommandWithOutput ::
  "sys \<Rightarrow> path \<Rightarrow> string \<Rightarrow> string list \<Rightarrow> world \<Rightarrow> (bytes option \<times> error option) \<times> world" where
  "runCommandWithOutput s dir name args w =
    (case lookPath s name of
       Inl _ \<Rightarrow> ((None, Some (Errorf (trimSpace s []) [])), w)
     | Inr _ \<Rightarrow>
         (let p = runProcess s dir name args (fs w);
              w = w\<lparr>fs := fs_after p, spawned := spawned w @ [(dir, name, args)]\<rparr>
          in if \<not> exit_ok p then ((None, Some (Errorf (trimSpace s (stderr p)) [])), w)
             else ((Some (stdout p), None), w)))"

text \<open>\<^verbatim>\<open>%x\<close> of a byte slice: two lowercase hexadecimal digits for each byte.\<close>

definition hexdigit :: "nat \<Rightarrow> char" where
  "hexdigit n = (if n < 10 then char_of (48 + n) else char_of (87 + n))"

definition hex :: "bytes \<Rightarrow> string" where
  "hex b = concat (map (\<lambda>c. [hexdigit (of_char c div 16), hexdigit (of_char c mod 16)]) b)"

definition GetID :: "sys \<Rightarrow> string \<Rightarrow> error + string" where
  "GetID s prefix =
    (case fault s RandRead of
       Some err \<Rightarrow> Inl err
     | None \<Rightarrow> Inr (prefix @ ''_'' @ hex (randomBytes s)))"


section \<open>The form-data encoder (fillpdf.go)\<close>

text \<open>
  A field value is an \<^verbatim>\<open>interface{}\<close>: a \<^verbatim>\<open>bool\<close>, a \<^verbatim>\<open>string\<close>, an integer, or a value of any
  other dynamic type, which is kept as the text \<^verbatim>\<open>fmt.Sprintf("%v", value)\<close> gives for it.
  A \<^verbatim>\<open>Form\<close> is a Go map; it is held as the list of its entries in the order in which the
  \<^verbatim>\<open>range\<close> statement of this execution visits them (Go leaves that order open, so every
  order is a possible input).
\<close>

datatype iface = VBool bool | VString string | VInt int | VOther string

type_synonym Form = "(string \<times> iface) list"

definition digit :: "int \<Rightarrow> char" where
  "digit n = char_of (48 + n)"

text \<open>The decimal digits of a number that is not negative.\<close>

function decimal :: "int \<Rightarrow> string" where
  "decimal n = (if n < 10 then [digit n] else decimal (n div 10) @ [digit (n mod 10)])"
  by pat_completeness auto
termination
  by (relation "measure nat") auto

declare decimal.simps [simp del]

definition FormatInt :: "int \<Rightarrow> string" where
  "FormatInt i = (if i < 0 then ''-'' @ decimal (- i) else decimal i)"

text \<open>\<^verbatim>\<open>fmt.Sprintf("%v", value)\<close>.\<close>

definition Sprintf_v :: "iface \<Rightarrow> string" where
  "Sprintf_v v =
    (case v of
       VBool b \<Rightarrow> (if b then ''true'' else ''false'')
     | VString t \<Rightarrow> t
     | VInt i \<Rightarrow> FormatInt i
     | VOther t \<Rightarrow> t)"

text \<open>
  A \<^verbatim>\<open>bufio.Writer\<close> on a file: the bytes written so far and not yet handed to the file.
  \<^verbatim>\<open>Flush\<close> hands them over. (The writer of the library also flushes by itself when its
  buffer is full; with a write that either takes everything or fails after a prefix, the file
  holds the same bytes.)
\<close>

type_synonym Writer = bytes

definition NewWriter :: Writer where
  "NewWriter = []"

definition WriteString :: "Writer \<Rightarrow> string \<Rightarrow> Writer" where
  "WriteString b t = b @ t"

definition Write_bytes :: "Writer \<Rightarrow> bytes \<Rightarrow> Writer" where
  "Write_bytes b p = b @ p"

definition Flush :: "sys \<Rightarrow> path \<Rightarrow> Writer \<Rightarrow> world \<Rightarrow> error option \<times> world" where
  "Flush s file b w = file_Write s file b w"

text \<open>The switch on the dynamic type of the value, in the loop of \<^verbatim>\<open>createFdfFile\<close>.\<close>

definition valStr :: "string \<Rightarrow> string \<Rightarrow> iface \<Rightarrow> string" where
  "valStr checkedString uncheckedString val =
    (case val of
       VBool v \<Rightarrow> (if v then checkedString else uncheckedString)
     | _ \<Rightarrow> Sprintf_v val)"

text \<open>The body of the loop over the form: one field.\<close>

definition writeField :: "string \<Rightarrow> string \<Rightarrow> Writer \<Rightarrow> string \<times> iface \<Rightarrow> Writer" where
  "writeField checkedString uncheckedString b entry =
    (case entry of (key, val) \<Rightarrow>
      (let valStr = valStr checkedString uncheckedString val;
           b = WriteString b ''<<\<newline>'';
           b = WriteString b ''/T ('';
           b = Write_bytes b (EncodeUTF16 key True);
           b = WriteString b '')\<newline>'';
           b = WriteString b ''/V ('';
           b = Write_bytes b (EncodeUTF16 valStr True);
           b = WriteString b '')\<newline>'';
           b = WriteString b ''>>\<newline>''
       in b))"

definition createFdfFile ::
  "sys \<Rightarrow> Form \<Rightarrow> path \<Rightarrow> string \<Rightarrow> string \<Rightarrow> world \<Rightarrow> error option \<times> world" where
  "createFdfFile s form path checkedString uncheckedString w =
    (case os_Create s path w of
       (Some err, w) \<Rightarrow> (Some err, w)
     | (None, w) \<Rightarrow>
         (let b = NewWriter;
              b = WriteString b ''%FDF-1.2\<newline>'';
              b = WriteString b [CHR 0xE2, CHR 0xE3, CHR 0xCF, CHR 0xD3, CHR 0x0A];
              b = WriteString b ''1 0 obj \<newline>'';
              b = WriteString b ''<<\<newline>'';
              b = WriteString b ''/FDF \<newline>'';
              b = WriteString b ''<<\<newline>'';
              b = WriteString b ''/Fields [\<newline>'';
              b = foldl (writeField checkedString uncheckedString) b form;
              b = WriteString b '']\<newline>'';
              b = WriteString b ''>>\<newline>'';
              b = WriteString b ''>>\<newline>'';
              b = WriteString b ''endobj \<newline>'';
              b = WriteString b ''trailer\<newline>'';
              b = WriteString b ''\<newline>'';
              b = WriteString b ''<<\<newline>'';
              b = WriteString b ''/Root 1 0 R\<newline>'';
              b = WriteString b ''>>\<newline>'';
              b = WriteString b ''%%EOF\<newline>''
          in Flush s path b w))"

section \<open>The operations\<close>

subsection \<open>Fill (fillpdf.go)\<close>

text \<open>The statements of \<^verbatim>\<open>Fill\<close> after the \<^verbatim>\<open>defer\<close> that removes the temporary directory.\<close>

definition Fill_rest ::
  "sys \<Rightarrow> Form \<Rightarrow> path \<Rightarrow> path \<Rightarrow> string \<Rightarrow> string \<Rightarrow> bool \<Rightarrow> path \<Rightarrow> world
     \<Rightarrow> error option \<times> world" where
  "Fill_rest s form formPDFFile destPDFFile checkedString uncheckedString overwrite tmpDir w =
    (let outputFile = cleanPath s (tmpDir @ ''/output.pdf'');
         fdfFile = cleanPath s (tmpDir @ ''/data.fdf'')
     in case createFdfFile s form fdfFile checkedString uncheckedString w of
          (Some err, w) \<Rightarrow> (Some err, w)
        | (None, w) \<Rightarrow>
            (let args = [formPDFFile, ''fill_form'', fdfFile, ''output'', outputFile, ''flatten'']
             in case runCommandInPath s tmpDir ''pdftk'' args w of
                  (Some err, w) \<Rightarrow> (Some (Errorf ''pdftk error: %v'' [ArgError err]), w)
                | (None, w) \<Rightarrow>
                    (case exists s destPDFFile w of
                       (_, Some err) \<Rightarrow> (Some err, w)
                     | (e, None) \<Rightarrow>
                         (case (if e then
                                  (if \<not> overwrite then
                                     (Some (Errorf (''destination PDF file already exists: '%s''
                                                      @ [CHR 0x27]) [ArgString destPDFFile]), w)
                                   else os_Remove s destPDFFile w)
                                else (None, w)) of
                            (Some err, w) \<Rightarrow> (Some err, w)
                          | (None, w) \<Rightarrow> copyFile s outputFile destPDFFile w))))"

definition Fill ::
  "sys \<Rightarrow> Form \<Rightarrow> path \<Rightarrow> path \<Rightarrow> string \<Rightarrow> string \<Rightarrow> bool \<Rightarrow> world \<Rightarrow> error option \<times> world" where
  "Fill s form formPDFFile destPDFFile checkedString uncheckedString overwrite w =
    (case lookPath s ''pdftk'' of
       Inl err \<Rightarrow> (Some err, w)
     | Inr _ \<Rightarrow>
    (case getAbs s formPDFFile w of
       Inl err \<Rightarrow> (Some err, w)
     | Inr formPDFFile \<Rightarrow>
    (case absPath s destPDFFile of
       Inl err \<Rightarrow> (Some err, w)
     | Inr destPDFFile \<Rightarrow>
    (case ioutil_TempDir s w of
       (Inl err, w) \<Rightarrow> (Some err, w)
     | (Inr tmpDir, w) \<Rightarrow>
         (let (err, w) = Fill_rest s form formPDFFile destPDFFile checkedString uncheckedString
                           overwrite tmpDir w;
              (_, w) = os_RemoveAll s tmpDir w
          in (err, w))))))"

subsection \<open>FillPDFToBytes (fillpdf.go)\<close>

definition FillPDFToBytes_rest ::
  "sys \<Rightarrow> Form \<Rightarrow> path \<Rightarrow> path \<Rightarrow> string \<Rightarrow> string \<Rightarrow> path \<Rightarrow> world
     \<Rightarrow> (bytes option \<times> error option) \<times> world" where
  "FillPDFToBytes_rest s form formAbsolutePath tmpDir checkedString uncheckedString fdfFile w =
    (case createFdfFile s form fdfFile checkedString uncheckedString w of
       (Some err, w) \<Rightarrow> ((None, Some err), w)
     | (None, w) \<Rightarrow>
         (let args = [formAbsolutePath, ''fill_form'', fdfFile, ''output'', ''-'', ''flatten'']
          in case runCommandWithOutput s tmpDir ''pdftk'' args w of
               ((_, Some err), w) \<Rightarrow> ((None, Some (Errorf ''pdftk error: %v'' [ArgError err])), w)
             | ((bytes, None), w) \<Rightarrow> ((bytes, None), w)))"

definition FillPDFToBytes ::
  "sys \<Rightarrow> Form \<Rightarrow> path \<Rightarrow> path \<Rightarrow> string \<Rightarrow> string \<Rightarrow> world
     \<Rightarrow> (bytes option \<times> error option) \<times> world" where
  "FillPDFToBytes s form formAbsolutePath tmpDir checkedString uncheckedString w =
    (case GetID s ''pdf_'' of
       Inl err \<Rightarrow> ((None, Some err), w)
     | Inr ident \<Rightarrow>
         (let fdfFile = cleanPath s (tmpDir @ ''/'' @ ident @ ''.fdf'');
              (res, w) = FillPDFToBytes_rest s form formAbsolutePath tmpDir checkedString
                           uncheckedString fdfFile w;
              (_, w) = os_Remove s fdfFile w
          in (res, w)))"

subsection \<open>Multistamp, the revision of part 002\<close>

definition Multistamp_rest ::
  "sys \<Rightarrow> path \<Rightarrow> path \<Rightarrow> path \<Rightarrow> world \<Rightarrow> (bytes option \<times> error option) \<times> world" where
  "Multistamp_rest s stampontoPDFFile stampPDFFile tmpDir w =
    (let outputFile = cleanPath s (tmpDir @ ''/output.pdf'');
         args = [stampontoPDFFile, ''multistamp'', stampPDFFile, ''output'', outputFile]
     in case runCommandInPath s tmpDir ''pdftk'' args w of
          (Some err, w) \<Rightarrow> ((None, Some (Errorf ''pdftk error: %v'' [ArgError err])), w)
        | (None, w) \<Rightarrow>
            (case ioutil_ReadFile s outputFile w of
               Inl err \<Rightarrow> ((None, Some err), w)
             | Inr fb \<Rightarrow> ((Some fb, None), w)))"

definition Multistamp ::
  "sys \<Rightarrow> path \<Rightarrow> path \<Rightarrow> world \<Rightarrow> (bytes option \<times> error option) \<times> world" where
  "Multistamp s stampontoPDFFile stampPDFFile w =
    (case lookPath s ''pdftk'' of
       Inl err \<Rightarrow> ((None, Some err), w)
     | Inr _ \<Rightarrow>
    (case getAbs s stampontoPDFFile w of
       Inl err \<Rightarrow> ((None, Some err), w)
     | Inr stampontoPDFFile \<Rightarrow>
    (case getAbs s stampPDFFile w of
       Inl err \<Rightarrow> ((None, Some err), w)
     | Inr stampPDFFile \<Rightarrow>
    (case ioutil_TempDir s w of
       (Inl err, w) \<Rightarrow> ((None, Some err), w)
     | (Inr tmpDir, w) \<Rightarrow>
         (let (res, w) = Multistamp_rest s stampontoPDFFile stampPDFFile tmpDir w;
              (_, w) = os_RemoveAll s tmpDir w
          in (res, w))))))"

subsection \<open>Multistamp, the revision of part 001\<close>

definition Multistamp_part001_rest ::
  "sys \<Rightarrow> path \<Rightarrow> path \<Rightarrow> path \<Rightarrow> world \<Rightarrow> (bytes option \<times> error option) \<times> world" where
  "Multistamp_part001_rest s stampontoPDFFile stampPDFFile tmpDir w =
    (let outputFile = cleanPath s (tmpDir @ ''/output.pdf'');
         args = [stampontoPDFFile, ''multistamp'', stampPDFFile, ''output'', outputFile]
     in case runCommandInPath s tmpDir ''pdftk'' args w of
          (Some err, w) \<Rightarrow> ((None, Some (Errorf ''pdftk error: %v'' [ArgError err])), w)
        | (None, w) \<Rightarrow>
            (case ioutil_ReadFile s outputFile w of
               Inl err \<Rightarrow> ((None, Some (Errorf ''Failed to open generated file'' [])), w)
             | Inr fb \<Rightarrow> ((Some fb, None), w)))"

definition Multistamp_part001 ::
  "sys \<Rightarrow> path \<Rightarrow> path \<Rightarrow> world \<Rightarrow> (bytes option \<times> error option) \<times> world" where
  "Multistamp_part001 s stampontoPDFFile stampPDFFile w =
    (case getAbs s stampontoPDFFile w of
       Inl err \<Rightarrow> ((None, None), w)
     | Inr stampontoPDFFile \<Rightarrow>
    (case getAbs s stampPDFFile w of
       Inl err \<Rightarrow> ((None, None), w)
     | Inr stampPDFFile \<Rightarrow>
    (case lookPath s ''pdftk'' of
       Inl err \<Rightarrow> ((None, Some (Errorf ''pdftk utility is not installed!'' [])), w)
     | Inr _ \<Rightarrow>
    (case ioutil_TempDir s w of
       (Inl err, w) \<Rightarrow>
         ((None, Some (Errorf ''failed to create temporary directory: %v'' [ArgError err])), w)
     | (Inr tmpDir, w) \<Rightarrow>
         (let (res, w) = Multistamp_part001_rest s stampontoPDFFile stampPDFFile tmpDir w;
              (errD, w) = os_RemoveAll s tmpDir w;
              w = (case errD of
                     Some e \<Rightarrow>
                       log_Printf (''fillpdf: failed to remove temporary directory '%s'' @ [CHR 0x27]
                                     @ '' again: %v'') [ArgString tmpDir, ArgError e] w
                   | None \<Rightarrow> w)
          in (res, w))))))"

subsection \<open>Merge (merge.go)\<close>

text \<open>The loop that resolves the input files and appends them to the arguments.\<close>

fun Merge_loop :: "sys \<Rightarrow> string list \<Rightarrow> path list \<Rightarrow> world \<Rightarrow> error + string list" where
  "Merge_loop s args [] w = Inr args"
| "Merge_loop s args (f # files) w =
    (case getAbs s f w of
       Inl err \<Rightarrow> Inl err
     | Inr fAbsPath \<Rightarrow> Merge_loop s (args @ [fAbsPath]) files w)"

definition Merge_rest ::
  "sys \<Rightarrow> string list \<Rightarrow> path \<Rightarrow> world \<Rightarrow> (bytes option \<times> error option) \<times> world" where
  "Merge_rest s args tmpDir w =
    (let outputFile = joinPath s tmpDir (FormatInt (unixTime s) @ ''.pdf'');
         args = args @ [''cat'', ''output'', outputFile]
     in case runCommandInPath s tmpDir ''pdftk'' args w of
          (Some err, w) \<Rightarrow> ((None, Some (Errorf ''pdftk error: %v'' [ArgError err])), w)
        | (None, w) \<Rightarrow>
            (case ioutil_ReadFile s outputFile w of
               Inl err \<Rightarrow> ((None, Some err), w)
             | Inr fb \<Rightarrow> ((Some fb, None), w)))"

definition Merge :: "sys \<Rightarrow> path list \<Rightarrow> world \<Rightarrow> (bytes option \<times> error option) \<times> world" where
  "Merge s files w =
    (case Merge_loop s [] files w of
       Inl err \<Rightarrow> ((None, Some err), w)
     | Inr args \<Rightarrow>
    (case ioutil_TempDir s w of
       (Inl err, w) \<Rightarrow> ((None, Some err), w)
     | (Inr tmpDir, w) \<Rightarrow>
         (let (res, w) = Merge_rest s args tmpDir w;
              (_, w) = os_RemoveAll s tmpDir w
          in (res, w))))"

subsection \<open>Fill and createFdfFile, the revision of part 000\<close>

text \<open>
  \<^verbatim>\<open>toUTF16\<close> converts with the iconv library, which is outside the repository: \<open>iconv s\<close> is
  its conversion from UTF-8 to UTF-16, \<open>None\<close> when the converter cannot be opened.
\<close>

definition toUTF16 :: "sys \<Rightarrow> string \<Rightarrow> string" where
  "toUTF16 s input = (case iconv s input of None \<Rightarrow> [] | Some out \<Rightarrow> out)"

definition writeField_part000 :: "sys \<Rightarrow> Writer \<Rightarrow> string \<times> iface \<Rightarrow> Writer" where
  "writeField_part000 s b entry =
    (case entry of (key, val) \<Rightarrow>
      (let valStr = (case val of
                       VBool v \<Rightarrow> (if v then ''Yes'' else ''Off'')
                     | _ \<Rightarrow> Sprintf_v val);
           b = Write_bytes b ''<<\<newline>'';
           b = Write_bytes b (''/T ('' @ toUTF16 s key @ '')\<newline>'');
           b = Write_bytes b (''/V ('' @ toUTF16 s valStr @ '')\<newline>'');
           b = Write_bytes b ''>>\<newline>''
       in b))"

definition createFdfFile_part000 :: "sys \<Rightarrow> Form \<Rightarrow> path \<Rightarrow> world \<Rightarrow> error option \<times> world" where
  "createFdfFile_part000 s form path w =
    (case os_Create s path w of
       (Some err, w) \<Rightarrow> (Some err, w)
     | (None, w) \<Rightarrow>
         (let b = NewWriter;
              b = Write_bytes b ''%FDF-1.2\<newline>'';
              b = Write_bytes b [CHR 0xE2, CHR 0xE3, CHR 0xCF, CHR 0xD3, CHR 0x0A];
              b = Write_bytes b ''1 0 obj \<newline>'';
              b = Write_bytes b ''<<\<newline>'';
              b = Write_bytes b ''/FDF \<newline>'';
              b = Write_bytes b ''<<\<newline>'';
              b = Write_bytes b ''/Fields [\<newline>'';
              b = foldl (writeField_part000 s) b form;
              b = Write_bytes b '']\<newline>'';
              b = Write_bytes b ''>>\<newline>'';
              b = Write_bytes b ''>>\<newline>'';
              b = Write_bytes b ''endobj \<newline>'';
              b = Write_bytes b ''trailer\<newline>'';
              b = Write_bytes b ''\<newline>'';
              b = Write_bytes b ''<<\<newline>'';
              b = Write_bytes b ''/Root 1 0 R\<newline>'';
              b = Write_bytes b ''>>\<newline>'';
              b = Write_bytes b ''%%EOF\<newline>''
          in Flush s path b w))"

definition Fill_part000 ::
  "sys \<Rightarrow> Form \<Rightarrow> path \<Rightarrow> path \<Rightarrow> bool \<Rightarrow> world \<Rightarrow> error option \<times> world" where
  "Fill_part000 s form formPDFFile destPDFFile overwrite w =
    (case lookPath s ''pdftk'' of
       Inl err \<Rightarrow> (Some err, w)
     | Inr _ \<Rightarrow>
    (case getAbs s formPDFFile w of
       Inl err \<Rightarrow> (Some err, w)
     | Inr formPDFFile \<Rightarrow>
    (case absPath s destPDFFile of
       Inl err \<Rightarrow> (Some err, w)
     | Inr destPDFFile \<Rightarrow>
    (case ioutil_TempDir s w of
       (Inl err, w) \<Rightarrow> (Some err, w)
     | (Inr tmpDir, w) \<Rightarrow>
         (let outputFile = cleanPath s (tmpDir @ ''/output.pdf'');
              fdfFile = cleanPath s (tmpDir @ ''/data.fdf'')
          in case createFdfFile_part000 s form fdfFile w of
               (Some err, w) \<Rightarrow> (Some err, w)
             | (None, w) \<Rightarrow>
                 (let args = [formPDFFile, ''fill_form'', fdfFile, ''output'', outputFile, ''flatten'']
                  in case runCommandInPath s tmpDir ''pdftk'' args w of
                       (Some err, w) \<Rightarrow> (Some (Errorf ''pdftk error: %v'' [ArgError err]), w)
                     | (None, w) \<Rightarrow>
                         (case exists s destPDFFile w of
                            (_, Some err) \<Rightarrow> (Some err, w)
                          | (e, None) \<Rightarrow>
                              (case (if e then
                                       (if \<not> overwrite then
                                          (Some (Errorf (''destination PDF file already exists: '%s''
                                                           @ [CHR 0x27]) [ArgString destPDFFile]), w)
                                        else os_Remove s destPDFFile w)
                                     else (None, w)) of
                                 (Some err, w) \<Rightarrow> (Some err, w)
                               | (None, w) \<Rightarrow> copyFile s outputFile destPDFFile w))))))))"


section \<open>The data file as the specification describes it\<close>

text \<open>
  The fixed header and footer, the shape of one field record, and the records of a form:
  one per entry, with the name and the value text each encoded on its own.
\<close>

definition fdf_header :: bytes where
  "fdf_header =
     ''%FDF-1.2\<newline>'' @ [CHR 0xE2, CHR 0xE3, CHR 0xCF, CHR 0xD3, CHR 0x0A]
       @ ''1 0 obj \<newline><<\<newline>/FDF \<newline><<\<newline>/Fields [\<newline>''"

definition fdf_footer :: bytes where
  "fdf_footer =
     '']\<newline>>>\<newline>>>\<newline>endobj \<newline>trailer\<newline>\<newline><<\<newline>/Root 1 0 R\<newline>>>\<newline>%%EOF\<newline>''"

definition fdf_record :: "bytes \<Rightarrow> bytes \<Rightarrow> bytes" where
  "fdf_record name val = ''<<\<newline>/T ('' @ name @ '')\<newline>/V ('' @ val @ '')\<newline>>>\<newline>''"

definition fdf_records :: "string \<Rightarrow> string \<Rightarrow> Form \<Rightarrow> bytes list" where
  "fdf_records checkedString uncheckedString form =
     map (\<lambda>(key, val). fdf_record (EncodeUTF16 key True)
                            (EncodeUTF16 (valStr checkedString uncheckedString val) True)) form"

section \<open>A concrete system for the examples\<close>

text \<open>
  A stand-in for the external tool: it fails when its first argument is not a file, and
  otherwise produces a document, in the file named after \<open>output\<close> or, for \<open>-\<close>, on its
  standard output. The system has the tool on its search path, no faults, and three files.
\<close>

fun output_arg :: "string list \<Rightarrow> string option" where
  "output_arg (k # v # rest) = (if k = ''output'' then Some v else output_arg (v # rest))"
| "output_arg _ = None"

definition demo_pdftk :: "path \<Rightarrow> string \<Rightarrow> string list \<Rightarrow> (path \<Rightarrow> node option) \<Rightarrow> process" where
  "demo_pdftk dir name args files =
    (case args of
       [] \<Rightarrow> \<lparr>exit_ok = False, stdout = [], stderr = ''no input'', fs_after = files\<rparr>
     | src # _ \<Rightarrow>
         (case (files src, output_arg args) of
            (Some (File _), Some out) \<Rightarrow>
              if out = ''-'' then \<lparr>exit_ok = True, stdout = ''%PDF-out'', stderr = [], fs_after = files\<rparr>
              else \<lparr>exit_ok = True, stdout = [], stderr = [],
                     fs_after = files(out \<mapsto> File ''%PDF-out'')\<rparr>
          | _ \<Rightarrow> \<lparr>exit_ok = False, stdout = [], stderr = ''Error: Unable to find file.'',
                   fs_after = files\<rparr>))"

definition demo_sys :: sys where
  "demo_sys =
    \<lparr>lookPath = (\<lambda>name. if name = ''pdftk'' then Inr ''/bin/pdftk'' else Inl (SysError ''not found'')),
     absPath = (\<lambda>p. Inr (case p of [] \<Rightarrow> ''/w'' | c # _ \<Rightarrow> if c = CHR ''/'' then p else ''/w/'' @ p)),
     cleanPath = (\<lambda>p. p),
     joinPath = (\<lambda>d f. d @ ''/'' @ f),
     trimSpace = (\<lambda>t. t),
     fault = (\<lambda>c. None),
     written = (\<lambda>p. 0),
     tempName = ''/tmp/fillpdf-1'',
     runProcess = demo_pdftk,
     randomBytes = [CHR 0x01, CHR 0x23, CHR 0x45, CHR 0x67, CHR 0x89, CHR 0xAB, CHR 0xCD, CHR 0xEF],
     unixTime = 1700000000,
     iconv = (\<lambda>t. Some (EncodeUTF16 t True))\<rparr>"

definition demo_fs :: "path \<Rightarrow> node option" where
  "demo_fs = [''/w/form.pdf'' \<mapsto> File ''%PDF-form'', ''/w/stamp.pdf'' \<mapsto> File ''%PDF-stamp'',
              ''/w/old.pdf'' \<mapsto> File ''old'']"

definition demo_world :: world where
  "demo_world = \<lparr>fs = demo_fs, spawned = [], logged = []\<rparr>"

definition demo_form :: Form where
  "demo_form = [(''name'', VString ''Ann''), (''subscribe'', VBool True)]"

text \<open>The same system without the tool on the search path.\<close>

definition no_tool_sys :: sys where
  "no_tool_sys = demo_sys\<lparr>lookPath := (\<lambda>name. Inl (SysError ''executable file not found in $PATH''))\<rparr>"

text \<open>
  The worlds \<open>Fill\<close> goes through on this system: after the scratch directory is made,
  after the data file is written, and after the tool has run.
\<close>

definition demo_w1 :: world where
  "demo_w1 = demo_world\<lparr>fs := demo_fs(''/tmp/fillpdf-1'' \<mapsto> Dir)\<rparr>"

definition demo_w2 :: world where
  "demo_w2 = demo_w1\<lparr>fs := (fs demo_w1)(''/tmp/fillpdf-1/data.fdf'' \<mapsto>
                 File (fdf_header @ concat (fdf_records ''Yes'' ''No'' demo_form) @ fdf_footer))\<rparr>"

definition demo_w3 :: world where
  "demo_w3 = demo_w2\<lparr>fs := (fs demo_w2)(''/tmp/fillpdf-1/output.pdf'' \<mapsto> File ''%PDF-out''),
       spawned := [(''/tmp/fillpdf-1'', ''pdftk'',
                    [''/w/form.pdf'', ''fill_form'', ''/tmp/fillpdf-1/data.fdf'', ''output'',
                     ''/tmp/fillpdf-1/output.pdf'', ''flatten''])]\<rparr>"


definition busy_sys :: sys where
  "busy_sys =
     demo_sys\<lparr>fault := (\<lambda>c. if c = RemoveAll ''/tmp/fillpdf-1''
                              then Some (SysError ''device or resource busy'') else None)\<rparr>"

text \<open>
  Two systems whose tool does not do its work: one that exits with success and writes
  nothing, and one that exits with an error.
\<close>

definition silent_tool_sys :: sys where
  "silent_tool_sys =
     demo_sys\<lparr>runProcess := (\<lambda>dir name args files.
        \<lparr>exit_ok = True, stdout = [], stderr = [], fs_after = files\<rparr>)\<rparr>"

definition failing_tool_sys :: sys where
  "failing_tool_sys =
     demo_sys\<lparr>runProcess := (\<lambda>dir name args files.
        \<lparr>exit_ok = False, stdout = [], stderr = ''Error: Failed to open form data file'', fs_after = files\<rparr>)\<rparr>"

section \<open>The text encoding: UTF-8 in, UTF-16 out\<close>

subsection \<open>Bit operations as arithmetic\<close>

lemma and_mask_mod: "(x::int) AND (2 ^ n - 1) = x mod 2 ^ n"
  by (simp add: take_bit_eq_mod [symmetric] take_bit_eq_mask mask_eq_exp_minus_1)

lemma push_and_take: "push_bit n (a::int) AND take_bit n b = 0"
  by (rule bit_eqI) (auto simp add: bit_and_iff bit_push_bit_iff bit_take_bit_iff)

lemma or_push_add:
  fixes a b :: int
  assumes "0 \<le> b" "b < 2 ^ n"
  shows "push_bit n a OR b = a * 2 ^ n + b"
proof -
  have "take_bit n b = b" using assms by (simp add: take_bit_int_eq_self)
  then have "push_bit n a AND b = 0"
    using push_and_take [of n a b] by simp
  then show ?thesis
    by (simp add: disjunctive_add_eq_or [symmetric] push_bit_eq_mult)
qed

lemma or_C0: "0 \<le> b \<Longrightarrow> b < 64 \<Longrightarrow> (0xC0::int) OR b = 0xC0 + b"
  using or_push_add [of b 6 3] by (simp add: push_bit_eq_mult)
lemma or_80: "0 \<le> b \<Longrightarrow> b < 64 \<Longrightarrow> (0x80::int) OR b = 0x80 + b"
  using or_push_add [of b 6 2] by (simp add: push_bit_eq_mult)
lemma or_E0: "0 \<le> b \<Longrightarrow> b < 16 \<Longrightarrow> (0xE0::int) OR b = 0xE0 + b"
  using or_push_add [of b 4 14] by (simp add: push_bit_eq_mult)
lemma or_F0: "0 \<le> b \<Longrightarrow> b < 8 \<Longrightarrow> (0xF0::int) OR b = 0xF0 + b"
  using or_push_add [of b 3 30] by (simp add: push_bit_eq_mult)
lemma and_3F: "(x::int) AND 0x3F = x mod 64" using and_mask_mod [of x 6] by simp
lemma and_1F: "(x::int) AND 0x1F = x mod 32" using and_mask_mod [of x 5] by simp
lemma and_0F: "(x::int) AND 0x0F = x mod 16" using and_mask_mod [of x 4] by simp
lemma and_07: "(x::int) AND 0x07 = x mod 8" using and_mask_mod [of x 3] by simp
lemma and_3FF: "(x::int) AND 0x3FF = x mod 1024" using and_mask_mod [of x 10] by simp

lemmas utf8_consts = t2_def t3_def t4_def t5_def tx_def maskx_def mask2_def mask3_def mask4_def
    locb_def hicb_def rune1Max_def rune2Max_def rune3Max_def maxRune_def runeError_def surrogateMin_def surrogateMax_def runeSelf_def

lemma of_char_byte: "of_char (byte x) = x mod 256"
  by (simp add: byte_def)

lemma of_char_byte_small: "0 \<le> x \<Longrightarrow> x < 256 \<Longrightarrow> of_char (byte x) = x"
  by (simp add: byte_def)

lemma div_range: "lo \<le> r \<Longrightarrow> r \<le> hi \<Longrightarrow> 0 < k \<Longrightarrow> lo div k \<le> r div k \<and> r div k \<le> hi div (k::int)"
  by (simp add: zdiv_mono1)

lemma split2: "(r::int) div 64 * 64 + r mod 64 = r"
  by simp

lemma split3: "(r::int) div 4096 * 4096 + (r div 64 mod 64) * 64 + r mod 64 = r"
proof -
  define q where "q = r div 64"
  have 1: "r div 4096 = q div 64"
    unfolding q_def using zdiv_zmult2_eq [of 64 r 64] by simp
  define A B where "A = q div 64" and "B = q mod 64"
  have "A * 64 + B = q" unfolding A_def B_def by simp
  then have "A * 4096 + B * 64 = q * 64" by linarith
  then have 2: "q div 64 * 4096 + q mod 64 * 64 = q * 64" unfolding A_def B_def .
  have 3: "q * 64 + r mod 64 = r" unfolding q_def by simp
  show ?thesis using 1 2 3 unfolding q_def by simp
qed

lemma split4: "(r::int) div 262144 * 262144 + (r div 4096 mod 64) * 4096 + (r div 64 mod 64) * 64 + r mod 64 = r"
proof -
  define q where "q = r div 4096"
  have 1: "r div 262144 = q div 64"
    unfolding q_def using zdiv_zmult2_eq [of 64 r 4096] by simp
  define A B where "A = q div 64" and "B = q mod 64"
  have "A * 64 + B = q" unfolding A_def B_def by simp
  then have "A * 262144 + B * 4096 = q * 4096" by linarith
  then have 2: "q div 64 * 262144 + q mod 64 * 4096 = q * 4096" unfolding A_def B_def .
  have 3: "q * 4096 + (r div 64 mod 64) * 64 + r mod 64 = r" unfolding q_def using split3 [of r] by simp
  show ?thesis using 1 2 3 unfolding q_def by simp
qed

lemma mod256_64: "(x::int) mod 256 mod 64 = x mod 64"
  by (simp add: mod_mod_cancel)

lemma mod64_le: "(x::int) mod 64 \<le> 63"
proof -
  have "x mod 64 < 64" by simp
  then show ?thesis by linarith
qed

lemma add_mod_self: "0 \<le> x \<Longrightarrow> x < m \<Longrightarrow> (k * m + x) mod m = (x::int)"
  by simp

lemma encoderune1: "0 \<le> r \<Longrightarrow> r < 0x80 \<Longrightarrow> encoderune r = [byte r]"
  by (simp add: encoderune_def utf8_consts)

lemma encoderune2:
  assumes a: "0x80 \<le> r" "r < 0x800"
  shows "encoderune r = [byte (0xC0 + r div 64), byte (0x80 + r mod 64)]"
proof -
  have m: "r mod 4294967296 = r" using a by simp
  have d: "2 \<le> r div 64 \<and> r div 64 \<le> 31" using div_range [of 128 r 2047 64] a by simp
  have 1: "(r div 64) mod 256 = r div 64" using d by simp
  have 3: "(0xC0::int) OR r div 64 = 0xC0 + r div 64" using d by (intro or_C0) auto
  have 4: "(0x80::int) OR r mod 64 = 0x80 + r mod 64" by (intro or_80) auto
  show ?thesis
    using a by (simp add: encoderune_def utf8_consts Let_def of_char_byte drop_bit_eq_div and_3F m 1 mod256_64 3 4)
qed

lemma decoderune2: 
  assumes a: "0x80 \<le> r" "r < 0x800"
  shows "decoderune (byte (0xC0 + r div 64) # byte (0x80 + r mod 64) # s) = (r, 2)"
proof -
  have d: "2 \<le> r div 64 \<and> r div 64 \<le> 31" using div_range [of 128 r 2047 64] a by simp
  have b0: "of_char (byte (0xC0 + r div 64)) = 0xC0 + r div 64" using d by (intro of_char_byte_small) auto
  have b1: "of_char (byte (0x80 + r mod 64)) = 0x80 + r mod 64"
    by (intro of_char_byte_small) auto
  have 1: "(0xC0 + r div 64) mod 32 = r div 64" using add_mod_self [of "r div 64" 32 6] d by simp
  have 2: "(0x80 + r mod 64) mod 64 = r mod 64" using add_mod_self [of "r mod 64" 64 2] by simp
  have 3: "push_bit 6 (r div 64) OR r mod 64 = r"
    by (subst or_push_add) auto
  show ?thesis using a d
    by (simp add: Let_def cont_def b0 b1 utf8_consts and_1F and_3F 1 2 3)
qed

lemma encoderune3:
  assumes a: "0x800 \<le> r" "r < 0x10000" "\<not> (0xD800 \<le> r \<and> r \<le> 0xDFFF)"
  shows "encoderune r = [byte (0xE0 + r div 4096), byte (0x80 + r div 64 mod 64), byte (0x80 + r mod 64)]"
proof -
  have m: "r mod 4294967296 = r" using a by simp
  have d: "0 \<le> r div 4096 \<and> r div 4096 \<le> 15" using div_range [of 2048 r 65535 4096] a by simp
  have 1: "(r div 4096) mod 256 = r div 4096" using d by simp
  have 3: "(0xE0::int) OR r div 4096 = 0xE0 + r div 4096" using d by (intro or_E0) auto
  have 4: "(0x80::int) OR r mod 64 = 0x80 + r mod 64" by (intro or_80) auto
  have 5: "(0x80::int) OR r div 64 mod 64 = 0x80 + r div 64 mod 64" by (intro or_80) auto
  have ns: "(55296 \<le> r \<and> r \<le> 57343) = False" using a(3) by simp
  show ?thesis
    using a(1,2) by (simp add: encoderune_def utf8_consts Let_def of_char_byte drop_bit_eq_div and_3F m 1 mod256_64 3 4 5 ns)
qed

lemma decoderune3: 
  assumes a: "0x800 \<le> r" "r < 0x10000" "\<not> (0xD800 \<le> r \<and> r \<le> 0xDFFF)"
  shows "decoderune (byte (0xE0 + r div 4096) # byte (0x80 + r div 64 mod 64) # byte (0x80 + r mod 64) # s) = (r, 3)"
proof -
  have d: "0 \<le> r div 4096 \<and> r div 4096 \<le> 15" using div_range [of 2048 r 65535 4096] a by simp
  have b0: "of_char (byte (0xE0 + r div 4096)) = 0xE0 + r div 4096" using d by (intro of_char_byte_small) auto
  have b1: "of_char (byte (0x80 + r div 64 mod 64)) = 0x80 + r div 64 mod 64"
    by (intro of_char_byte_small) auto
  have b2: "of_char (byte (0x80 + r mod 64)) = 0x80 + r mod 64"
    by (intro of_char_byte_small) auto
  have 1: "(0xE0 + r div 4096) mod 16 = r div 4096" using add_mod_self [of "r div 4096" 16 14] d by simp
  have 2: "(0x80 + r mod 64) mod 64 = r mod 64" using add_mod_self [of "r mod 64" 64 2] by simp
  have e2: "(0x80 + r div 64 mod 64) mod 64 = r div 64 mod 64" using add_mod_self [of "r div 64 mod 64" 64 2] by simp
  have 3: "push_bit 6 (r div 64 mod 64) OR r mod 64 = r div 64 mod 64 * 64 + r mod 64"
    by (subst or_push_add) auto
  have lt: "r div 64 mod 64 * 64 + r mod 64 < 4096"
  proof -
    have "r div 64 mod 64 \<le> 63" "r mod 64 \<le> 63" by simp_all
    then show ?thesis by linarith
  qed
  have ge: "0 \<le> r div 64 mod 64 * 64 + r mod 64" by simp
  have 4: "push_bit 12 (r div 4096) OR (r div 64 mod 64 * 64 + r mod 64) = r"
    using or_push_add [OF ge, of 12 "r div 4096"] lt split3 [of r] by simp
  have ns: "(55296 \<le> r \<and> r \<le> 57343) = False" using a(3) by simp
  show ?thesis using a(1,2) d
    by (simp add: Let_def cont_def b0 b1 b2 utf8_consts and_0F and_3F 1 2 e2 3 4 ns mod64_le)
qed

lemma encoderune4:
  assumes a: "0x10000 \<le> r" "r \<le> 0x10FFFF"
  shows "encoderune r = [byte (0xF0 + r div 262144), byte (0x80 + r div 4096 mod 64),
                         byte (0x80 + r div 64 mod 64), byte (0x80 + r mod 64)]"
proof -
  have m: "r mod 4294967296 = r" using a by simp
  have d: "0 \<le> r div 262144 \<and> r div 262144 \<le> 4" using div_range [of 65536 r 1114111 262144] a by simp
  have 1: "(r div 262144) mod 256 = r div 262144" using d by simp
  have 3: "(0xF0::int) OR r div 262144 = 0xF0 + r div 262144" using d by (intro or_F0) auto
  have 4: "(0x80::int) OR r mod 64 = 0x80 + r mod 64" by (intro or_80) auto
  have 5: "(0x80::int) OR r div 64 mod 64 = 0x80 + r div 64 mod 64" by (intro or_80) auto
  have 6: "(0x80::int) OR r div 4096 mod 64 = 0x80 + r div 4096 mod 64" by (intro or_80) auto
  show ?thesis
    using a by (simp add: encoderune_def utf8_consts Let_def of_char_byte drop_bit_eq_div and_3F m 1 mod256_64 3 4 5 6)
qed

lemma decoderune4: 
  assumes a: "0x10000 \<le> r" "r \<le> 0x10FFFF"
  shows "decoderune (byte (0xF0 + r div 262144) # byte (0x80 + r div 4096 mod 64) #
            byte (0x80 + r div 64 mod 64) # byte (0x80 + r mod 64) # s) = (r, 4)"
proof -
  have d: "0 \<le> r div 262144 \<and> r div 262144 \<le> 4" using div_range [of 65536 r 1114111 262144] a by simp
  have b0: "of_char (byte (0xF0 + r div 262144)) = 0xF0 + r div 262144" using d by (intro of_char_byte_small) auto
  have b1: "of_char (byte (0x80 + r div 4096 mod 64)) = 0x80 + r div 4096 mod 64"
    by (intro of_char_byte_small) auto
  have b2: "of_char (byte (0x80 + r div 64 mod 64)) = 0x80 + r div 64 mod 64"
    by (intro of_char_byte_small) auto
  have b3: "of_char (byte (0x80 + r mod 64)) = 0x80 + r mod 64"
    by (intro of_char_byte_small) auto
  have 1: "(0xF0 + r div 262144) mod 8 = r div 262144" using add_mod_self [of "r div 262144" 8 30] d by simp
  have 2: "(0x80 + r mod 64) mod 64 = r mod 64" using add_mod_self [of "r mod 64" 64 2] by simp
  have e2: "(0x80 + r div 64 mod 64) mod 64 = r div 64 mod 64" using add_mod_self [of "r div 64 mod 64" 64 2] by simp
  have e3: "(0x80 + r div 4096 mod 64) mod 64 = r div 4096 mod 64" using add_mod_self [of "r div 4096 mod 64" 64 2] by simp
  have 3: "push_bit 6 (r div 64 mod 64) OR r mod 64 = r div 64 mod 64 * 64 + r mod 64"
    by (subst or_push_add) auto
  have lt: "r div 64 mod 64 * 64 + r mod 64 < 4096"
  proof -
    have "r div 64 mod 64 \<le> 63" "r mod 64 \<le> 63" by simp_all
    then show ?thesis by linarith
  qed
  have ge: "0 \<le> r div 64 mod 64 * 64 + r mod 64" by simp
  have 4: "push_bit 12 (r div 4096 mod 64) OR (r div 64 mod 64 * 64 + r mod 64)
            = r div 4096 mod 64 * 4096 + (r div 64 mod 64 * 64 + r mod 64)"
    using or_push_add [OF ge, of 12 "r div 4096 mod 64"] lt by simp
  have lt2: "r div 4096 mod 64 * 4096 + (r div 64 mod 64 * 64 + r mod 64) < 262144"
  proof -
    have "r div 4096 mod 64 \<le> 63" by simp
    with lt show ?thesis by linarith
  qed
  have ge2: "0 \<le> r div 4096 mod 64 * 4096 + (r div 64 mod 64 * 64 + r mod 64)" by simp
  have 5: "push_bit 18 (r div 262144) OR (r div 4096 mod 64 * 4096 + (r div 64 mod 64 * 64 + r mod 64)) = r"
    using or_push_add [OF ge2, of 18 "r div 262144"] lt2 split4 [of r] by simp
  show ?thesis using a d
    by (simp add: Let_def cont_def b0 b1 b2 b3 utf8_consts and_07 and_3F 1 2 e2 e3 3 4 5 mod64_le)
qed

lemma stringtoslicerune_encoderune:
  assumes "scalar r"
  shows "stringtoslicerune (encoderune r @ s) = r # stringtoslicerune s"
proof -
  consider (one) "0 \<le> r" "r < 0x80" | (two) "0x80 \<le> r" "r < 0x800"
    | (three) "0x800 \<le> r" "r < 0x10000" "\<not> (0xD800 \<le> r \<and> r \<le> 0xDFFF)"
    | (four) "0x10000 \<le> r" "r \<le> 0x10FFFF"
    using assms unfolding scalar_def by linarith
  then show ?thesis
  proof cases
    case one
    then show ?thesis by (simp add: encoderune1 of_char_byte_small runeSelf_def)
  next
    case two
    have d: "2 \<le> r div 64 \<and> r div 64 \<le> 31" using div_range [of 128 r 2047 64] two by simp
    have b0: "of_char (byte (0xC0 + r div 64)) = 0xC0 + r div 64" using d by (intro of_char_byte_small) auto
    show ?thesis using two d by (simp add: encoderune2 decoderune2 b0 runeSelf_def del: decoderune.simps)
  next
    case three
    have d: "0 \<le> r div 4096 \<and> r div 4096 \<le> 15" using div_range [of 2048 r 65535 4096] three by simp
    have b0: "of_char (byte (0xE0 + r div 4096)) = 0xE0 + r div 4096" using d by (intro of_char_byte_small) auto
    show ?thesis using three d by (simp add: encoderune3 decoderune3 b0 runeSelf_def del: decoderune.simps)
  next
    case four
    have d: "0 \<le> r div 262144 \<and> r div 262144 \<le> 4" using div_range [of 65536 r 1114111 262144] four by simp
    have b0: "of_char (byte (0xF0 + r div 262144)) = 0xF0 + r div 262144" using d by (intro of_char_byte_small) auto
    show ?thesis using four d by (simp add: encoderune4 decoderune4 b0 runeSelf_def del: decoderune.simps)
  qed
qed

lemma stringtoslicerune_slicerunetostring:
  "\<forall>r \<in> set a. scalar r \<Longrightarrow> stringtoslicerune (slicerunetostring a) = a"
  by (induction a) (simp_all add: slicerunetostring_def stringtoslicerune_encoderune)

subsection \<open>Well-formed UTF-8 is what \<^verbatim>\<open>string(runes)\<close> makes of scalar values\<close>

lemma byte_of_char: "byte (of_char c) = c"
  by (simp add: byte_def)

lemma divmod_digits:
  fixes a b :: int
  assumes "0 \<le> b" "b < k"
  shows "(a * k + b) div k = a" "(a * k + b) mod k = b"
  using assms by simp_all

lemma seq1:
  assumes "of_char c0 < (0x80::int)"
  shows "\<exists>r. scalar r \<and> encoderune r = [c0]"
proof -
  have "0 \<le> int (of_char c0)" by simp
  then have "0 \<le> (of_char c0 :: int)" by (simp only: of_nat_of_char)
  with assms have "scalar (of_char c0)" "encoderune (of_char c0) = [c0]"
    by (simp_all add: scalar_def encoderune1 byte_of_char)
  then show ?thesis by blast
qed

lemma seq2:
  assumes "0xC2 \<le> (of_char c0 :: int)" "of_char c0 \<le> (0xDF :: int)" "between c1 0x80 0xBF"
  shows "\<exists>r. scalar r \<and> encoderune r = [c0, c1]"
proof -
  define a b :: int where "a = of_char c0 - 0xC0" and "b = of_char c1 - 0x80"
  define r where "r = a * 64 + b"
  have ab: "2 \<le> a" "a \<le> 31" "0 \<le> b" "b < 64"
    using assms by (simp_all add: a_def b_def between_def)
  have d: "r div 64 = a" "r mod 64 = b"
    using divmod_digits [of b 64 a] ab by (simp_all add: r_def)
  have rr: "0x80 \<le> r" "r < 0x800" using ab by (simp_all add: r_def)
  have "encoderune r = [byte (of_char c0), byte (of_char c1)]"
    using encoderune2 [OF rr] d by (simp add: a_def b_def)
  moreover have "scalar r" using rr by (simp add: scalar_def)
  ultimately show ?thesis by (auto simp: byte_of_char)
qed

lemma seq3:
  assumes "0xE0 \<le> (of_char c0 :: int)" "of_char c0 \<le> (0xEF :: int)"
    and "between c1 (if of_char c0 = (0xE0::int) then 0xA0 else 0x80)
                    (if of_char c0 = (0xED::int) then 0x9F else 0xBF)"
    and "between c2 0x80 0xBF"
  shows "\<exists>r. scalar r \<and> encoderune r = [c0, c1, c2]"
proof -
  define a b c :: int where "a = of_char c0 - 0xE0" and "b = of_char c1 - 0x80"
    and "c = of_char c2 - 0x80"
  define r where "r = a * 4096 + (b * 64 + c)"
  have abc: "0 \<le> a" "a \<le> 15" "0 \<le> b" "b < 64" "0 \<le> c" "c < 64"
    using assms by (auto simp: a_def b_def c_def between_def split: if_splits)
  have lead: "a = 0 \<Longrightarrow> 32 \<le> b" "a = 13 \<Longrightarrow> b < 32"
    using assms by (auto simp: a_def b_def between_def split: if_splits)
  have low: "0 \<le> b * 64 + c" "b * 64 + c < 4096" using abc by simp_all
  have d1: "r div 4096 = a" using divmod_digits(1) [OF low, of a] by (simp add: r_def)
  have d2: "r mod 4096 = b * 64 + c" using divmod_digits(2) [OF low, of a] by (simp add: r_def)
  have "r div 64 = a * 64 + b"
  proof -
    have "r = (a * 64 + b) * 64 + c" by (simp add: r_def algebra_simps)
    then show ?thesis using divmod_digits(1) [of c 64 "a * 64 + b"] abc by simp
  qed
  then have d3: "r div 64 mod 64 = b" using divmod_digits(2) [of b 64 a] abc by simp
  have d4: "r mod 64 = c"
  proof -
    have "r = (a * 64 + b) * 64 + c" by (simp add: r_def algebra_simps)
    then show ?thesis using divmod_digits(2) [of c 64 "a * 64 + b"] abc by simp
  qed
  have r1: "0x800 \<le> r"
  proof (cases "a = 0")
    case True
    with lead(1) abc show ?thesis by (simp add: r_def)
  next
    case False
    with abc have "1 \<le> a" by simp
    with abc show ?thesis by (simp add: r_def)
  qed
  have r2: "r < 0x10000" using abc by (simp add: r_def)
  have r3: "\<not> (0xD800 \<le> r \<and> r \<le> 0xDFFF)"
  proof (cases "a = 13")
    case True
    with lead(2) abc show ?thesis by (simp add: r_def)
  next
    case False
    then have "a \<le> 12 \<or> 14 \<le> a" by linarith
    with abc show ?thesis by (auto simp: r_def)
  qed
  have "encoderune r = [byte (of_char c0), byte (of_char c1), byte (of_char c2)]"
    using encoderune3 [OF r1 r2 r3] d1 d3 d4 by (simp add: a_def b_def c_def)
  moreover have "scalar r" using r1 r2 r3 by (auto simp: scalar_def)
  ultimately show ?thesis by (auto simp: byte_of_char)
qed

lemma seq4:
  assumes "0xF0 \<le> (of_char c0 :: int)" "of_char c0 \<le> (0xF4 :: int)"
    and "between c1 (if of_char c0 = (0xF0::int) then 0x90 else 0x80)
                    (if of_char c0 = (0xF4::int) then 0x8F else 0xBF)"
    and "between c2 0x80 0xBF" "between c3 0x80 0xBF"
  shows "\<exists>r. scalar r \<and> encoderune r = [c0, c1, c2, c3]"
proof -
  define a b c d :: int where "a = of_char c0 - 0xF0" and "b = of_char c1 - 0x80"
    and "c = of_char c2 - 0x80" and "d = of_char c3 - 0x80"
  define r where "r = a * 262144 + (b * 4096 + (c * 64 + d))"
  have abc: "0 \<le> a" "a \<le> 4" "0 \<le> b" "b < 64" "0 \<le> c" "c < 64" "0 \<le> d" "d < 64"
    using assms by (auto simp: a_def b_def c_def d_def between_def split: if_splits)
  have lead: "a = 0 \<Longrightarrow> 16 \<le> b" "a = 4 \<Longrightarrow> b < 16"
    using assms by (auto simp: a_def b_def between_def split: if_splits)
  have low: "0 \<le> b * 4096 + (c * 64 + d)" "b * 4096 + (c * 64 + d) < 262144" using abc by simp_all
  have d1: "r div 262144 = a" using divmod_digits(1) [OF low, of a] by (simp add: r_def)
  have e2: "r = (a * 64 + b) * 4096 + (c * 64 + d)" by (simp add: r_def algebra_simps)
  have low2: "0 \<le> c * 64 + d" "c * 64 + d < 4096" using abc by simp_all
  have "r div 4096 = a * 64 + b" using divmod_digits(1) [OF low2, of "a * 64 + b"] e2 by simp
  then have d2: "r div 4096 mod 64 = b" using divmod_digits(2) [of b 64 a] abc by simp
  have e3: "r = ((a * 64 + b) * 64 + c) * 64 + d" by (simp add: r_def algebra_simps)
  have "r div 64 = (a * 64 + b) * 64 + c"
    using divmod_digits(1) [of d 64 "(a * 64 + b) * 64 + c"] abc e3 by simp
  then have d3: "r div 64 mod 64 = c" using divmod_digits(2) [of c 64 "a * 64 + b"] abc by simp
  have d4: "r mod 64 = d" using divmod_digits(2) [of d 64 "(a * 64 + b) * 64 + c"] abc e3 by simp
  have r1: "0x10000 \<le> r"
  proof (cases "a = 0")
    case True
    with lead(1) abc show ?thesis by (simp add: r_def)
  next
    case False
    with abc have "1 \<le> a" by simp
    with abc show ?thesis by (simp add: r_def)
  qed
  have r2: "r \<le> 0x10FFFF"
  proof (cases "a = 4")
    case True
    with lead(2) abc show ?thesis by (simp add: r_def)
  next
    case False
    with abc have "a \<le> 3" by simp
    with abc show ?thesis by (simp add: r_def)
  qed
  have "encoderune r = [byte (of_char c0), byte (of_char c1), byte (of_char c2), byte (of_char c3)]"
    using encoderune4 [OF r1 r2] d1 d2 d3 d4 by (simp add: a_def b_def c_def d_def)
  moreover have "scalar r" using r1 r2 by (auto simp: scalar_def)
  ultimately show ?thesis by (auto simp: byte_of_char)
qed

lemma well_formed_scalars:
  "well_formed s \<Longrightarrow> \<exists>cps. (\<forall>cp \<in> set cps. scalar cp) \<and> s = slicerunetostring cps"
proof (induction s rule: well_formed.induct)
  case 1
  have "(\<forall>cp \<in> set []. scalar cp) \<and> [] = slicerunetostring []"
    by (simp add: slicerunetostring_def)
  then show ?case by blast
next
  case (2 c0 s)
  let ?b0 = "of_char c0 :: int"
  have step: "\<exists>cps. (\<forall>cp \<in> set cps. scalar cp) \<and> pre @ rest = slicerunetostring cps"
    if "\<exists>r. scalar r \<and> encoderune r = pre"
      and "\<exists>cps. (\<forall>cp \<in> set cps. scalar cp) \<and> rest = slicerunetostring cps" for pre rest
  proof -
    from that obtain r cps where "scalar r" "encoderune r = pre" "\<forall>cp \<in> set cps. scalar cp"
      "rest = slicerunetostring cps" by blast
    then have "(\<forall>cp \<in> set (r # cps). scalar cp) \<and> pre @ rest = slicerunetostring (r # cps)"
      by (simp add: slicerunetostring_def)
    then show ?thesis by blast
  qed
  consider (one) "?b0 < 0x80"
    | (two) "\<not> ?b0 < 0x80" "0xC2 \<le> ?b0 \<and> ?b0 \<le> 0xDF"
    | (three) "\<not> ?b0 < 0x80" "\<not> (0xC2 \<le> ?b0 \<and> ?b0 \<le> 0xDF)" "0xE0 \<le> ?b0 \<and> ?b0 \<le> 0xEF"
    | (four) "\<not> ?b0 < 0x80" "\<not> (0xC2 \<le> ?b0 \<and> ?b0 \<le> 0xDF)" "\<not> (0xE0 \<le> ?b0 \<and> ?b0 \<le> 0xEF)"
        "0xF0 \<le> ?b0 \<and> ?b0 \<le> 0xF4"
    | (none) "\<not> ?b0 < 0x80" "\<not> (0xC2 \<le> ?b0 \<and> ?b0 \<le> 0xDF)" "\<not> (0xE0 \<le> ?b0 \<and> ?b0 \<le> 0xEF)"
        "\<not> (0xF0 \<le> ?b0 \<and> ?b0 \<le> 0xF4)"
    by blast
  then show ?case
  proof cases
    case one
    with "2.prems" have wf: "well_formed s" by simp
    from step [OF seq1 [OF one] "2.IH"(1) [OF refl one wf]] show ?thesis by simp
  next
    case two
    with "2.prems" obtain c1 s' where s: "s = c1 # s'" and b: "between c1 0x80 0xBF"
      and wf: "well_formed s'"
      by (cases s) (auto simp: Let_def)
    from step [OF seq2 [OF _ _ b] "2.IH"(2) [OF refl two(1) two(2) s wf]] two s
    show ?thesis by simp
  next
    case three
    with "2.prems" obtain c1 c2 s' where s: "s = c1 # c2 # s'"
      and b1: "between c1 (if ?b0 = 0xE0 then 0xA0 else 0x80) (if ?b0 = 0xED then 0x9F else 0xBF)"
      and b2: "between c2 0x80 0xBF" and wf: "well_formed s'"
      by (cases s; cases "tl s") (auto simp: Let_def)
    from step [OF seq3 [OF _ _ b1 b2] "2.IH"(3) [OF refl three(1) three(2) three(3) s _ wf]] three s
    show ?thesis by simp
  next
    case four
    with "2.prems" obtain c1 c2 c3 s' where s: "s = c1 # c2 # c3 # s'"
      and b1: "between c1 (if ?b0 = 0xF0 then 0x90 else 0x80) (if ?b0 = 0xF4 then 0x8F else 0xBF)"
      and b2: "between c2 0x80 0xBF" and b3: "between c3 0x80 0xBF" and wf: "well_formed s'"
      by (cases s; cases "tl s"; cases "tl (tl s)") (auto simp: Let_def)
    from step [OF seq4 [OF _ _ b1 b2 b3]
        "2.IH"(4) [OF refl four(1) four(2) four(3) four(4) s _ _ wf]] four s
    show ?thesis by simp
  next
    case none
    with "2.prems" show ?thesis by (simp add: Let_def)
  qed
qed


lemma well_formed_examples:
  "well_formed [CHR 0x41, CHR 0xC3, CHR 0xA9, CHR 0xE2, CHR 0x82, CHR 0xAC, CHR 0xF0, CHR 0x9F, CHR 0x98, CHR 0x80]
   \<and> \<not> well_formed [CHR 0xFF]
   \<and> \<not> well_formed [CHR 0xC0, CHR 0x80]
   \<and> \<not> well_formed [CHR 0xED, CHR 0xA0, CHR 0x80]
   \<and> \<not> well_formed [CHR 0xF4, CHR 0x90, CHR 0x80, CHR 0x80]
   \<and> \<not> well_formed [CHR 0xE2, CHR 0x82]"
  by code_simp

lemma well_formed_encoderune:
  assumes "scalar r"
  shows "well_formed (encoderune r @ s) = well_formed s"
proof -
  consider (one) "0 \<le> r" "r < 0x80" | (two) "0x80 \<le> r" "r < 0x800"
    | (three) "0x800 \<le> r" "r < 0x10000" "\<not> (0xD800 \<le> r \<and> r \<le> 0xDFFF)"
    | (four) "0x10000 \<le> r" "r \<le> 0x10FFFF"
    using assms unfolding scalar_def by linarith
  then show ?thesis
  proof cases
    case one
    then show ?thesis by (simp add: encoderune1 of_char_byte_small)
  next
    case two
    have d: "2 \<le> r div 64 \<and> r div 64 \<le> 31" using div_range [of 128 r 2047 64] two by simp
    have m: "0 \<le> r mod 64" "r mod 64 \<le> 63" by (simp_all add: mod64_le)
    have c0: "of_char (byte (0xC0 + r div 64)) = 0xC0 + r div 64"
      using d by (intro of_char_byte_small) auto
    have c1: "of_char (byte (0x80 + r mod 64)) = 0x80 + r mod 64"
      using m by (intro of_char_byte_small) auto
    show ?thesis using d m by (simp add: encoderune2 [OF two] c0 c1 between_def)
  next
    case three
    define q where "q = r div 64"
    define a b c where "a = q div 64" and "b = q mod 64" and "c = r mod 64"
    have e: "r div 4096 = a" unfolding a_def q_def using zdiv_zmult2_eq [of 64 r 64] by simp
    have q: "q = a * 64 + b" unfolding a_def b_def by simp
    have qr: "32 \<le> q \<and> q \<le> 1023" unfolding q_def using div_range [of 2048 r 65535 64] three by simp
    have ar: "0 \<le> a \<and> a \<le> 15" unfolding a_def using div_range [of 32 q 1023 64] qr by simp
    have br: "0 \<le> b" "b \<le> 63" unfolding b_def by (simp_all add: mod64_le)
    have cr: "0 \<le> c" "c \<le> 63" unfolding c_def by (simp_all add: mod64_le)
    have lo: "a = 0 \<Longrightarrow> 32 \<le> b" using q qr by simp
    have hi: "b \<le> 31" if "a = 13"
    proof -
      have "r = q * 64 + c" unfolding q_def c_def by simp
      with q that have rr: "r = 53248 + b * 64 + c" by simp
      with br cr have "r \<le> 57343" by simp
      with three(3) have "r < 55296" by linarith
      with rr cr have "b * 64 < 2048" by simp
      then show ?thesis by simp
    qed
    have c0: "of_char (byte (0xE0 + a)) = 0xE0 + a" using ar by (intro of_char_byte_small) auto
    have c1: "of_char (byte (0x80 + b)) = 0x80 + b" using br by (intro of_char_byte_small) auto
    have c2: "of_char (byte (0x80 + c)) = 0x80 + c" using cr by (intro of_char_byte_small) auto
    have enc: "encoderune r = [byte (0xE0 + a), byte (0x80 + b), byte (0x80 + c)]"
      using encoderune3 [OF three] e by (simp add: b_def q_def c_def)
    show ?thesis using ar br cr lo hi by (auto simp: enc c0 c1 c2 between_def)
  next
    case four
    define q where "q = r div 4096"
    define a b c d where "a = q div 64" and "b = q mod 64" and "c = r div 64 mod 64" and "d = r mod 64"
    have e: "r div 262144 = a" unfolding a_def q_def using zdiv_zmult2_eq [of 4096 r 64] by simp
    have q: "q = a * 64 + b" unfolding a_def b_def by simp
    have qr: "16 \<le> q \<and> q \<le> 271" unfolding q_def using div_range [of 65536 r 1114111 4096] four by simp
    have ar: "0 \<le> a \<and> a \<le> 4" unfolding a_def using div_range [of 16 q 271 64] qr by simp
    have br: "0 \<le> b" "b \<le> 63" unfolding b_def by (simp_all add: mod64_le)
    have cr: "0 \<le> c" "c \<le> 63" unfolding c_def by (simp_all add: mod64_le)
    have dr: "0 \<le> d" "d \<le> 63" unfolding d_def by (simp_all add: mod64_le)
    have lo: "a = 0 \<Longrightarrow> 16 \<le> b" using q qr by simp
    have hi: "a = 4 \<Longrightarrow> b \<le> 15" using q qr by simp
    have c0: "of_char (byte (0xF0 + a)) = 0xF0 + a" using ar by (intro of_char_byte_small) auto
    have c1: "of_char (byte (0x80 + b)) = 0x80 + b" using br by (intro of_char_byte_small) auto
    have c2: "of_char (byte (0x80 + c)) = 0x80 + c" using cr by (intro of_char_byte_small) auto
    have c3: "of_char (byte (0x80 + d)) = 0x80 + d" using dr by (intro of_char_byte_small) auto
    have enc: "encoderune r = [byte (0xF0 + a), byte (0x80 + b), byte (0x80 + c), byte (0x80 + d)]"
      using encoderune4 [OF four] e by (simp add: b_def q_def c_def d_def)
    show ?thesis using ar br cr dr lo hi by (auto simp: enc c0 c1 c2 c3 between_def)
  qed
qed

lemma well_formed_slicerunetostring:
  "\<forall>cp \<in> set cps. scalar cp \<Longrightarrow> well_formed (slicerunetostring cps)"
  by (induction cps) (simp_all add: slicerunetostring_def well_formed_encoderune del: well_formed.simps(2))

lemma well_formed_iff:
  "well_formed s \<longleftrightarrow> (\<exists>cps. (\<forall>cp \<in> set cps. scalar cp) \<and> s = slicerunetostring cps)"
  using well_formed_scalars well_formed_slicerunetostring by blast

lemma well_formed_stringtoslicerune:
  assumes "well_formed s"
  shows "(\<forall>cp \<in> set (stringtoslicerune s). scalar cp) \<and> slicerunetostring (stringtoslicerune s) = s"
proof -
  from well_formed_scalars [OF assms] obtain cps
    where "\<forall>cp \<in> set cps. scalar cp" "s = slicerunetostring cps" by blast
  then show ?thesis by (simp add: stringtoslicerune_slicerunetostring)
qed

subsection \<open>UTF-16 code units and the round trip\<close>

lemmas utf16_consts = surr1_def surr2_def surr3_def surrSelf_def replacementChar_def maxRune_def

lemma utf16_Encode_append: "utf16_Encode (a @ b) = utf16_Encode a @ utf16_Encode b"
  by (induction a) simp_all

lemma EncodeRune_units:
  assumes a: "0x10000 \<le> r" "r \<le> 0x10FFFF"
  shows "EncodeRune r = (0xD800 + (r - 0x10000) div 0x400, 0xDC00 + (r - 0x10000) mod 0x400)"
proof -
  have d: "0 \<le> (r - 0x10000) div 1024 \<and> (r - 0x10000) div 1024 \<le> 1023"
    using div_range [of 0 "r - 0x10000" 1048575 1024] a by simp
  then have 1: "(r - 0x10000) div 1024 mod 1024 = (r - 0x10000) div 1024" by simp
  show ?thesis using a
    by (simp add: EncodeRune_def utf16_consts Let_def and_3FF drop_bit_eq_div 1)
qed

lemma utf16_Encode_scalar:
  assumes "scalar r"
  shows "utf16_Encode (r # s) = utf16_units r @ utf16_Encode s"
proof (cases "r < 0x10000")
  case True
  moreover have "0 \<le> r" using assms by (auto simp: scalar_def)
  ultimately have "r mod 65536 = r" by simp
  then show ?thesis using True assms
    by (auto simp: scalar_def utf16_units_def utf16_consts uint16_def)
next
  case False
  then have a: "0x10000 \<le> r" "r \<le> 0x10FFFF" using assms by (auto simp: scalar_def)
  have "(r - 0x10000) mod 1024 \<le> 1023" using pos_mod_bound [of 1024 "r - 0x10000"] by linarith
  moreover have "0 \<le> (r - 0x10000) div 1024 \<and> (r - 0x10000) div 1024 \<le> 1023"
    using div_range [of 0 "r - 0x10000" 1048575 1024] a by simp
  ultimately have 
    "(0xD800 + (r - 0x10000) div 0x400) mod 65536 = 0xD800 + (r - 0x10000) div 0x400"
    "(0xDC00 + (r - 0x10000) mod 0x400) mod 65536 = 0xDC00 + (r - 0x10000) mod 0x400"
    by simp_all
  then show ?thesis using a
    by (simp add: EncodeRune_units utf16_units_def utf16_consts uint16_def)
qed

lemma utf16_Encode_spec:
  "\<forall>r \<in> set a. scalar r \<Longrightarrow> utf16_Encode a = concat (map utf16_units a)"
  by (induction a) (simp_all add: utf16_Encode_scalar del: utf16_Encode.simps(2))


lemma utf16_Decode_units:
  assumes "scalar r"
  shows "utf16_Decode (utf16_units r @ us) = r # utf16_Decode us"
proof (cases "r < 0x10000")
  case True
  then have "r < surr1 \<or> surr3 \<le> r" using assms by (auto simp: scalar_def utf16_consts)
  then show ?thesis using True by (cases us) (simp_all add: utf16_units_def)
next
  case False
  then have a: "0x10000 \<le> r" "r \<le> 0x10FFFF" using assms by (auto simp: scalar_def)
  define hi lo where "hi = (r - 0x10000) div 1024" and "lo = (r - 0x10000) mod 1024"
  have lo: "0 \<le> lo" "lo < 1024" by (simp_all add: lo_def)
  have hi: "0 \<le> hi" "hi \<le> 1023"
    using div_range [of 0 "r - 0x10000" 1048575 1024] a by (simp_all add: hi_def)
  have r: "hi * 1024 + lo + 0x10000 = r" by (simp add: hi_def lo_def)
  have "push_bit 10 hi OR lo = hi * 1024 + lo"
    using or_push_add [of lo 10 hi] lo by simp
  then have "DecodeRune (0xD800 + hi) (0xDC00 + lo) = r"
    using hi lo r by (simp add: DecodeRune_def utf16_consts)
  then show ?thesis using False hi lo
    by (simp add: utf16_units_def utf16_consts hi_def [symmetric] lo_def [symmetric])
qed

lemma utf16_Decode_spec:
  "\<forall>r \<in> set a. scalar r \<Longrightarrow> utf16_Decode (concat (map utf16_units a)) = a"
  by (induction a) (simp_all add: utf16_Decode_units)

lemma utf16_units_range:
  assumes "scalar r" "u \<in> set (utf16_units r)"
  shows "0 \<le> u \<and> u < 65536"
proof (cases "r < 0x10000")
  case True
  then show ?thesis using assms by (auto simp: utf16_units_def scalar_def)
next
  case False
  then have a: "0x10000 \<le> r" "r \<le> 0x10FFFF" using assms by (auto simp: scalar_def)
  have lo: "0 \<le> (r - 0x10000) mod 1024" "(r - 0x10000) mod 1024 < 1024" by simp_all
  have hi: "0 \<le> (r - 0x10000) div 1024" "(r - 0x10000) div 1024 \<le> 1023"
    using div_range [of 0 "r - 0x10000" 1048575 1024] a by simp_all
  show ?thesis using False assms(2) hi lo by (auto simp: utf16_units_def)
qed

lemma PutUint16_big_endian: "0 \<le> u \<Longrightarrow> PutUint16 u = big_endian u"
  by (simp add: PutUint16_def big_endian_def byte_def drop_bit_eq_div)

lemma Uint16s_big_endian:
  assumes "0 \<le> u" "u < 65536"
  shows "Uint16s (big_endian u @ b) = u # Uint16s b"
proof -
  have d: "0 \<le> u div 256 \<and> u div 256 \<le> 255" using div_range [of 0 u 65535 256] assms by simp
  have lo: "0 \<le> u mod 256" "u mod 256 < 2 ^ 8" by simp_all
  have "u mod 256 OR push_bit 8 (u div 256) = u"
    using or_push_add [OF lo, of "u div 256"] by (simp add: or.commute)
  then show ?thesis using d by (simp add: big_endian_def)
qed

lemma Uint16s_concat:
  "\<forall>u \<in> set us. 0 \<le> u \<and> u < 65536 \<Longrightarrow> Uint16s (concat (map big_endian us)) = us"
  by (induction us) (simp_all add: Uint16s_big_endian del: Uint16s.simps(1))

lemma foldl_PutUint16: "foldl (\<lambda>bytes i. bytes @ PutUint16 i) b us = b @ concat (map PutUint16 us)"
  by (induction us arbitrary: b) simp_all

lemma length_big_endian: "even (length (concat (map big_endian us)))"
  by (induction us) (simp_all add: big_endian_def)

text \<open>
  A string that is not well-formed UTF-8 does not come back: its ill-formed bytes are read
  as U+FFFD.
\<close>

lemma EncodeUTF16_ill_formed:
  "EncodeUTF16 [CHR 0xFF] True = [CHR 0xFE, CHR 0xFF, CHR 0xFF, CHR 0xFD]
   \<and> DecodeUTF16 (EncodeUTF16 [CHR 0xFF] True) = Some [CHR 0xEF, CHR 0xBF, CHR 0xBD]"
  by code_simp

lemma EncodeUTF16_scalars:
  assumes "\<forall>cp \<in> set cps. scalar cp"
  shows "EncodeUTF16 (slicerunetostring cps) True
           = [CHR 0xFE, CHR 0xFF] @ concat (map big_endian (concat (map utf16_units cps)))
       \<and> DecodeUTF16 (EncodeUTF16 (slicerunetostring cps) True) = Some (slicerunetostring cps)"
proof -
  let ?us = "concat (map utf16_units cps)"
  have range: "\<forall>u \<in> set ?us. 0 \<le> u \<and> u < 65536"
    using assms utf16_units_range by auto
  then have put: "map PutUint16 ?us = map big_endian ?us"
    by (simp add: PutUint16_big_endian)
  have bom: "[byte 254, byte 255] = [CHR 0xFE, CHR 0xFF]" by code_simp
  have enc: "EncodeUTF16 (slicerunetostring cps) True = [CHR 0xFE, CHR 0xFF] @ concat (map big_endian ?us)"
    using assms
    by (simp add: EncodeUTF16_def stringtoslicerune_slicerunetostring utf16_Encode_spec
        foldl_PutUint16 put bom del: foldl_append)
  have dec: "DecodeUTF16 ([CHR 0xFE, CHR 0xFF] @ concat (map big_endian ?us)) = Some (slicerunetostring cps)"
    using assms range
    by (simp add: DecodeUTF16_def bom [symmetric] length_big_endian Uint16s_concat utf16_Decode_spec
         del: map_concat)
  show ?thesis using enc dec by simp
qed

text \<open>
  The same for a Go string given by its bytes: a string that is well-formed UTF-8 comes
  back, and its code units are those of the code points that \<^verbatim>\<open>[]rune(s)\<close> reads.
\<close>

lemma EncodeUTF16_well_formed:
  assumes "well_formed s"
  shows "EncodeUTF16 s True
           = [CHR 0xFE, CHR 0xFF] @ concat (map big_endian (concat (map utf16_units (stringtoslicerune s))))
       \<and> DecodeUTF16 (EncodeUTF16 s True) = Some s"
proof -
  from well_formed_scalars [OF assms] obtain cps
    where cps: "\<forall>cp \<in> set cps. scalar cp" and s: "s = slicerunetostring cps" by blast
  from cps have runes: "stringtoslicerune (slicerunetostring cps) = cps"
    by (rule stringtoslicerune_slicerunetostring)
  show ?thesis unfolding s runes using cps by (rule EncodeUTF16_scalars)
qed

text \<open>
  Claim C2. For every sequence \<open>cps\<close> of Unicode scalar values, in and outside the basic
  multilingual plane, held as the Go string \<open>slicerunetostring cps\<close>: \<open>EncodeUTF16\<close> with the
  marker gives the two bytes \<open>0xFE 0xFF\<close> followed by the UTF-16 code units of the code
  points, each high byte first, and decoding those bytes in the same byte order gives the
  string back. These strings are exactly the well-formed UTF-8 strings (lemma
  \<open>well_formed_iff\<close>).
\<close>

theorem EncodeUTF16_roundtrip:
  assumes "\<forall>cp \<in> set cps. scalar cp"
  shows "EncodeUTF16 (slicerunetostring cps) True
           = [CHR 0xFE, CHR 0xFF] @ concat (map big_endian (concat (map utf16_units cps)))
       \<and> DecodeUTF16 (EncodeUTF16 (slicerunetostring cps) True) = Some (slicerunetostring cps)"
  using assms by (rule EncodeUTF16_scalars)

theorem EncodeUTF16_roundtrip_witness:
  "scalar 0x41 \<and> scalar 0xE9 \<and> scalar 0x20AC \<and> scalar 0x1F600
   \<and> EncodeUTF16 [CHR 0x41, CHR 0xC3, CHR 0xA9, CHR 0xE2, CHR 0x82, CHR 0xAC, CHR 0xF0, CHR 0x9F, CHR 0x98, CHR 0x80] True
       = [CHR 0xFE, CHR 0xFF, CHR 0x00, CHR 0x41, CHR 0x00, CHR 0xE9, CHR 0x20, CHR 0xAC, CHR 0xD8, CHR 0x3D, CHR 0xDE, CHR 0x00]
   \<and> DecodeUTF16 [CHR 0xFE, CHR 0xFF, CHR 0x00, CHR 0x41, CHR 0x00, CHR 0xE9, CHR 0x20, CHR 0xAC, CHR 0xD8, CHR 0x3D, CHR 0xDE, CHR 0x00]
       = Some [CHR 0x41, CHR 0xC3, CHR 0xA9, CHR 0xE2, CHR 0x82, CHR 0xAC, CHR 0xF0, CHR 0x9F, CHR 0x98, CHR 0x80]"
proof -
  have s: "\<forall>cp \<in> set [0x41, 0xE9, 0x20AC, 0x1F600]. scalar cp" by (simp add: scalar_def)
  have str: "slicerunetostring [0x41, 0xE9, 0x20AC, 0x1F600]
      = [CHR 0x41, CHR 0xC3, CHR 0xA9, CHR 0xE2, CHR 0x82, CHR 0xAC, CHR 0xF0, CHR 0x9F, CHR 0x98, CHR 0x80]"
    by code_simp
  have units: "[CHR 0xFE, CHR 0xFF] @ concat (map big_endian (concat (map utf16_units [0x41, 0xE9, 0x20AC, 0x1F600])))
      = [CHR 0xFE, CHR 0xFF, CHR 0x00, CHR 0x41, CHR 0x00, CHR 0xE9, CHR 0x20, CHR 0xAC, CHR 0xD8, CHR 0x3D, CHR 0xDE, CHR 0x00]"
    by code_simp
  have enc: "EncodeUTF16 [CHR 0x41, CHR 0xC3, CHR 0xA9, CHR 0xE2, CHR 0x82, CHR 0xAC, CHR 0xF0, CHR 0x9F, CHR 0x98, CHR 0x80] True
       = [CHR 0xFE, CHR 0xFF, CHR 0x00, CHR 0x41, CHR 0x00, CHR 0xE9, CHR 0x20, CHR 0xAC, CHR 0xD8, CHR 0x3D, CHR 0xDE, CHR 0x00]"
    using EncodeUTF16_roundtrip [OF s, THEN conjunct1] unfolding str units .
  have "DecodeUTF16 (EncodeUTF16 [CHR 0x41, CHR 0xC3, CHR 0xA9, CHR 0xE2, CHR 0x82, CHR 0xAC, CHR 0xF0, CHR 0x9F, CHR 0x98, CHR 0x80] True)
       = Some [CHR 0x41, CHR 0xC3, CHR 0xA9, CHR 0xE2, CHR 0x82, CHR 0xAC, CHR 0xF0, CHR 0x9F, CHR 0x98, CHR 0x80]"
    using EncodeUTF16_roundtrip [OF s, THEN conjunct2] unfolding str .
  then have dec: "DecodeUTF16 [CHR 0xFE, CHR 0xFF, CHR 0x00, CHR 0x41, CHR 0x00, CHR 0xE9, CHR 0x20, CHR 0xAC, CHR 0xD8, CHR 0x3D, CHR 0xDE, CHR 0x00]
       = Some [CHR 0x41, CHR 0xC3, CHR 0xA9, CHR 0xE2, CHR 0x82, CHR 0xAC, CHR 0xF0, CHR 0x9F, CHR 0x98, CHR 0x80]"
    unfolding enc .
  show ?thesis using s enc dec by simp
qed

section \<open>The form-data encoder\<close>

lemma WriteString_append: "WriteString b t = b @ t" "Write_bytes b t = b @ t" "NewWriter = []"
  by (simp_all add: WriteString_def Write_bytes_def NewWriter_def)

lemma writeField_record:
  "writeField c u b (key, val) =
     b @ fdf_record (EncodeUTF16 key True) (EncodeUTF16 (valStr c u val) True)"
  by (simp add: writeField_def fdf_record_def WriteString_append Let_def)

lemma foldl_writeField:
  "foldl (writeField c u) b form = b @ concat (fdf_records c u form)"
proof (induction form arbitrary: b)
  case Nil
  then show ?case by (simp add: fdf_records_def)
next
  case (Cons entry form)
  obtain key val where e: "entry = (key, val)" by (cases entry)
  show ?case using Cons.IH [of "writeField c u b entry"]
    by (simp add: e writeField_record fdf_records_def)
qed

lemma createFdfFile_bytes:
  "createFdfFile s form path c u w =
     (case os_Create s path w of
        (Some err, w1) \<Rightarrow> (Some err, w1)
      | (None, w1) \<Rightarrow>
          file_Write s path (fdf_header @ concat (fdf_records c u form) @ fdf_footer) w1)"
  by (simp add: createFdfFile_def Let_def WriteString_append foldl_writeField Flush_def
        fdf_header_def fdf_footer_def split: prod.splits option.splits)

lemma EncodeUTF16_bom: "EncodeUTF16 t True = [CHR 0xFE, CHR 0xFF] @ EncodeUTF16 t False"
proof -
  have bom: "[byte 254, byte 255] = [CHR 0xFE, CHR 0xFF]" by code_simp
  show ?thesis
    by (simp add: EncodeUTF16_def Let_def foldl_PutUint16 bom del: foldl_append)
qed

lemma fdf_header_nonempty: "fdf_header @ x \<noteq> []"
  by (simp add: fdf_header_def)

lemma createFdfFile_success:
  assumes "createFdfFile s form path c u w = (None, w')"
  shows "fs w' path = Some (File (fdf_header @ concat (fdf_records c u form) @ fdf_footer))"
  using assms
  by (auto simp: createFdfFile_bytes os_Create_def file_Write_def fdf_header_nonempty
      split: option.splits node.splits if_splits prod.splits)

text \<open>
  Claim C1. For every form, path and pair of labels, \<open>createFdfFile\<close> creates the file and
  writes to it the fixed header, then one record per entry of the form, in the order of the
  entries, each of the shape \<^verbatim>\<open><<\n/T (name)\n/V (value)\n>>\n\<close> with the name and the value
  each encoded on its own by \<open>EncodeUTF16\<close> with the marker \<open>0xFE 0xFF\<close> in front, then the
  fixed footer; there are as many records as entries, none for the empty form; and when
  \<open>createFdfFile\<close> returns no error the file holds exactly these bytes.
\<close>

theorem createFdfFile_writes_records:
  "createFdfFile s form path c u w =
     (case os_Create s path w of
        (Some err, w1) \<Rightarrow> (Some err, w1)
      | (None, w1) \<Rightarrow>
          file_Write s path (fdf_header @ concat (fdf_records c u form) @ fdf_footer) w1)
   \<and> length (fdf_records c u form) = length form
   \<and> fdf_records c u [] = []
   \<and> fdf_records c u ((key, val) # form) =
       (''<<\<newline>/T ('' @ [CHR 0xFE, CHR 0xFF] @ EncodeUTF16 key False @ '')\<newline>/V (''
          @ [CHR 0xFE, CHR 0xFF] @ EncodeUTF16 (valStr c u val) False @ '')\<newline>>>\<newline>'')
       # fdf_records c u form
   \<and> (\<forall>w'. createFdfFile s form path c u w = (None, w') \<longrightarrow>
          fs w' path = Some (File (fdf_header @ concat (fdf_records c u form) @ fdf_footer)))
   \<and> (\<forall>w'. createFdfFile s [] path c u w = (None, w') \<longrightarrow>
          fs w' path = Some (File (fdf_header @ fdf_footer)))"
proof -
  have rec: "fdf_records c u ((key, val) # form) =
       (''<<\<newline>/T ('' @ [CHR 0xFE, CHR 0xFF] @ EncodeUTF16 key False @ '')\<newline>/V (''
          @ [CHR 0xFE, CHR 0xFF] @ EncodeUTF16 (valStr c u val) False @ '')\<newline>>>\<newline>'')
       # fdf_records c u form"
    by (simp add: fdf_records_def fdf_record_def EncodeUTF16_bom [of key]
          EncodeUTF16_bom [of "valStr c u val"])
  have empty: "\<forall>w'. createFdfFile s [] path c u w = (None, w') \<longrightarrow>
          fs w' path = Some (File (fdf_header @ fdf_footer))"
    using createFdfFile_success [of s "[]" path c u w] by (simp add: fdf_records_def)
  show ?thesis
    using createFdfFile_bytes [of s form path c u w] createFdfFile_success [of s form path c u w]
      rec empty
    by (simp add: fdf_records_def)
qed

theorem createFdfFile_writes_records_witness:
  "createFdfFile demo_sys demo_form ''/tmp/data.fdf'' ''Yes'' ''No'' demo_world
     = (None, snd (createFdfFile demo_sys demo_form ''/tmp/data.fdf'' ''Yes'' ''No'' demo_world))
   \<and> fs (snd (createFdfFile demo_sys demo_form ''/tmp/data.fdf'' ''Yes'' ''No'' demo_world))
        ''/tmp/data.fdf''
       = Some (File (fdf_header @ concat (fdf_records ''Yes'' ''No'' demo_form) @ fdf_footer))
   \<and> concat (fdf_records ''Yes'' ''No'' demo_form)
       = ''<<\<newline>/T ('' @ [CHR 0xFE, CHR 0xFF, CHR 0x00, CHR ''n'', CHR 0x00, CHR ''a'', CHR 0x00, CHR ''m'',
                        CHR 0x00, CHR ''e''] @ '')\<newline>/V (''
           @ [CHR 0xFE, CHR 0xFF, CHR 0x00, CHR ''A'', CHR 0x00, CHR ''n'', CHR 0x00, CHR ''n'']
           @ '')\<newline>>>\<newline><<\<newline>/T (''
           @ [CHR 0xFE, CHR 0xFF, CHR 0x00, CHR ''s'', CHR 0x00, CHR ''u'', CHR 0x00, CHR ''b'',
              CHR 0x00, CHR ''s'', CHR 0x00, CHR ''c'', CHR 0x00, CHR ''r'', CHR 0x00, CHR ''i'',
              CHR 0x00, CHR ''b'', CHR 0x00, CHR ''e''] @ '')\<newline>/V (''
           @ [CHR 0xFE, CHR 0xFF, CHR 0x00, CHR ''Y'', CHR 0x00, CHR ''e'', CHR 0x00, CHR ''s'']
           @ '')\<newline>>>\<newline>''"
proof -
  have ok: "fst (createFdfFile demo_sys demo_form ''/tmp/data.fdf'' ''Yes'' ''No'' demo_world) = None"
    by (simp add: createFdfFile_bytes os_Create_def file_Write_def demo_sys_def demo_world_def
          demo_fs_def fdf_header_def)
  then have run: "createFdfFile demo_sys demo_form ''/tmp/data.fdf'' ''Yes'' ''No'' demo_world
     = (None, snd (createFdfFile demo_sys demo_form ''/tmp/data.fdf'' ''Yes'' ''No'' demo_world))"
    by (metis prod.collapse)
  have content: "fs (snd (createFdfFile demo_sys demo_form ''/tmp/data.fdf'' ''Yes'' ''No'' demo_world))
        ''/tmp/data.fdf''
       = Some (File (fdf_header @ concat (fdf_records ''Yes'' ''No'' demo_form) @ fdf_footer))"
    using createFdfFile_writes_records [of demo_sys demo_form "''/tmp/data.fdf''" "''Yes''" "''No''"
            demo_world] run
    by blast
  have bytes: "concat (fdf_records ''Yes'' ''No'' demo_form)
       = ''<<\<newline>/T ('' @ [CHR 0xFE, CHR 0xFF, CHR 0x00, CHR ''n'', CHR 0x00, CHR ''a'', CHR 0x00, CHR ''m'',
                        CHR 0x00, CHR ''e''] @ '')\<newline>/V (''
           @ [CHR 0xFE, CHR 0xFF, CHR 0x00, CHR ''A'', CHR 0x00, CHR ''n'', CHR 0x00, CHR ''n'']
           @ '')\<newline>>>\<newline><<\<newline>/T (''
           @ [CHR 0xFE, CHR 0xFF, CHR 0x00, CHR ''s'', CHR 0x00, CHR ''u'', CHR 0x00, CHR ''b'',
              CHR 0x00, CHR ''s'', CHR 0x00, CHR ''c'', CHR 0x00, CHR ''r'', CHR 0x00, CHR ''i'',
              CHR 0x00, CHR ''b'', CHR 0x00, CHR ''e''] @ '')\<newline>/V (''
           @ [CHR 0xFE, CHR 0xFF, CHR 0x00, CHR ''Y'', CHR 0x00, CHR ''e'', CHR 0x00, CHR ''s'']
           @ '')\<newline>>>\<newline>''"
    by code_simp
  show ?thesis using run content bytes by blast
qed

text \<open>
  Claim C3. In the record the encoder writes for an entry, the value text is the checked
  label when the value is the boolean true, the unchecked label when it is the boolean
  false, and for a value that is not a boolean the text \<^verbatim>\<open>fmt.Sprintf("%v", value)\<close> gives: a
  string as it is, an integer in decimal.
\<close>

theorem writeField_value_text:
  "writeField c u b (key, VBool True) = b @ fdf_record (EncodeUTF16 key True) (EncodeUTF16 c True)
   \<and> writeField c u b (key, VBool False)
       = b @ fdf_record (EncodeUTF16 key True) (EncodeUTF16 u True)
   \<and> ((\<forall>v. val \<noteq> VBool v) \<longrightarrow>
        writeField c u b (key, val)
          = b @ fdf_record (EncodeUTF16 key True) (EncodeUTF16 (Sprintf_v val) True))
   \<and> Sprintf_v (VString t) = t
   \<and> Sprintf_v (VInt i) = FormatInt i"
  by (cases val) (auto simp: writeField_record valStr_def Sprintf_v_def)

theorem writeField_value_text_witness:
  "(\<forall>v. VInt 42 \<noteq> VBool v)
   \<and> writeField ''Yes'' ''No'' [] (''age'', VInt 42)
       = fdf_record (EncodeUTF16 ''age'' True) (EncodeUTF16 ''42'' True)
   \<and> writeField ''Yes'' ''No'' [] (''ok'', VBool True)
       = fdf_record (EncodeUTF16 ''ok'' True) (EncodeUTF16 ''Yes'' True)
   \<and> writeField ''Yes'' ''No'' [] (''ok'', VBool False)
       = fdf_record (EncodeUTF16 ''ok'' True) (EncodeUTF16 ''No'' True)"
proof -
  have d: "FormatInt 42 = ''42''" by code_simp
  have n: "\<forall>v. VInt 42 \<noteq> VBool v" by simp
  show ?thesis
    using writeField_value_text [of "''Yes''" "''No''" "[]" "''age''" "VInt 42" "[]" 42]
      writeField_value_text [of "''Yes''" "''No''" "[]" "''ok''" "VInt 42" "[]" 42] n d
    by (simp add: Sprintf_v_def)
qed

text \<open>
  Claim C10. The encoder escapes nothing: for every form, each record holds the encoded
  name and the encoded value exactly as \<open>EncodeUTF16\<close> returns them, between the bytes
  \<open>(\<close> and \<open>)\<close>. So a closing parenthesis can stand inside the parenthesised string: the
  name \<open>a)b\<close> encodes to bytes that contain \<open>)\<close> and they are written as they are, and so
  does the code point U+2900, whose first UTF-16 byte is \<open>0x29\<close>.
\<close>

theorem createFdfFile_no_escaping:
  "foldl (writeField c u) b form
     = b @ concat (map (\<lambda>(key, val). ''<<\<newline>/T ('' @ EncodeUTF16 key True @ '')\<newline>/V (''
                           @ EncodeUTF16 (valStr c u val) True @ '')\<newline>>>\<newline>'') form)
   \<and> CHR '')'' \<in> set (EncodeUTF16 ''a)b'' True)
   \<and> writeField c u [] (''a)b'', VString ''x'')
       = ''<<\<newline>/T ('' @ [CHR 0xFE, CHR 0xFF, CHR 0x00, CHR ''a'', CHR 0x00, CHR '')'', CHR 0x00, CHR ''b'']
           @ '')\<newline>/V ('' @ [CHR 0xFE, CHR 0xFF, CHR 0x00, CHR ''x''] @ '')\<newline>>>\<newline>''
   \<and> EncodeUTF16 [CHR 0xE2, CHR 0xA4, CHR 0x80] True = [CHR 0xFE, CHR 0xFF, CHR '')'', CHR 0x00]"
proof -
  have 1: "EncodeUTF16 ''a)b'' True = [CHR 0xFE, CHR 0xFF, CHR 0x00, CHR ''a'', CHR 0x00, CHR '')'', CHR 0x00, CHR ''b'']"
    by code_simp
  have 2: "EncodeUTF16 ''x'' True = [CHR 0xFE, CHR 0xFF, CHR 0x00, CHR ''x'']"
    by code_simp
  have 3: "EncodeUTF16 [CHR 0xE2, CHR 0xA4, CHR 0x80] True = [CHR 0xFE, CHR 0xFF, CHR '')'', CHR 0x00]"
    by code_simp
  have 4: "foldl (writeField c u) b form
     = b @ concat (map (\<lambda>(key, val). ''<<\<newline>/T ('' @ EncodeUTF16 key True @ '')\<newline>/V (''
                           @ EncodeUTF16 (valStr c u val) True @ '')\<newline>>>\<newline>'') form)"
    by (simp add: foldl_writeField fdf_records_def fdf_record_def)
  have 5: "writeField c u [] (''a)b'', VString ''x'')
       = ''<<\<newline>/T ('' @ [CHR 0xFE, CHR 0xFF, CHR 0x00, CHR ''a'', CHR 0x00, CHR '')'', CHR 0x00, CHR ''b'']
           @ '')\<newline>/V ('' @ [CHR 0xFE, CHR 0xFF, CHR 0x00, CHR ''x''] @ '')\<newline>>>\<newline>''"
    by (simp add: writeField_record fdf_record_def valStr_def Sprintf_v_def 1 2)
  have 6: "CHR '')'' \<in> set (EncodeUTF16 ''a)b'' True)" unfolding 1 by simp
  show ?thesis using 3 4 5 6 by blast
qed

section \<open>The operations: checks, effects and their order\<close>

subsection \<open>What each step leaves alone\<close>

lemma os_Create_frame:
  "os_Create s p w = (r, w') \<Longrightarrow>
     spawned w' = spawned w \<and> logged w' = logged w \<and> (\<forall>q. q \<noteq> p \<longrightarrow> fs w' q = fs w q)"
  by (auto simp: os_Create_def split: option.splits node.splits)

lemma file_Write_frame:
  "file_Write s p b w = (r, w') \<Longrightarrow>
     spawned w' = spawned w \<and> logged w' = logged w \<and> (\<forall>q. q \<noteq> p \<longrightarrow> fs w' q = fs w q)"
  by (auto simp: file_Write_def split: option.splits node.splits if_splits)

lemma createFdfFile_frame:
  assumes "createFdfFile s form p c u w = (r, w')"
  shows "spawned w' = spawned w \<and> logged w' = logged w \<and> (\<forall>q. q \<noteq> p \<longrightarrow> fs w' q = fs w q)"
proof (cases "os_Create s p w")
  case (Pair e w1)
  note c = os_Create_frame [OF Pair]
  show ?thesis
  proof (cases e)
    case None
    with assms Pair
    have "file_Write s p (fdf_header @ concat (fdf_records c u form) @ fdf_footer) w1 = (r, w')"
      by (simp add: createFdfFile_bytes)
    from file_Write_frame [OF this] c show ?thesis by simp
  next
    case (Some err)
    with assms Pair have "w' = w1" by (simp add: createFdfFile_bytes)
    with c show ?thesis by simp
  qed
qed

lemma io_Copy_frame:
  "io_Copy s dst src w = (r, w') \<Longrightarrow>
     spawned w' = spawned w \<and> logged w' = logged w \<and> (\<forall>q. q \<noteq> dst \<longrightarrow> fs w' q = fs w q)"
  using file_Write_frame [of s dst _ w r w']
  by (auto simp: io_Copy_def split: option.splits node.splits)

lemma copyFile_frame:
  assumes "copyFile s src dst w = (r, w')"
  shows "spawned w' = spawned w \<and> logged w' = logged w \<and> (\<forall>q. q \<noteq> dst \<longrightarrow> fs w' q = fs w q)"
proof (cases "os_Open s src w")
  case (Some err)
  with assms show ?thesis by (simp add: copyFile_def)
next
  case None
  obtain e w1 where c: "os_Create s dst w = (e, w1)" by (cases "os_Create s dst w")
  note cf = os_Create_frame [OF c]
  show ?thesis
  proof (cases e)
    case (Some err)
    with assms None c have "w' = w1" by (simp add: copyFile_def)
    with cf show ?thesis by simp
  next
    case None': None
    obtain e2 w2 where k: "io_Copy s dst src w1 = (e2, w2)" by (cases "io_Copy s dst src w1")
    with assms None None' c have "w' = w2" by (simp add: copyFile_def Let_def)
    with io_Copy_frame [OF k] cf show ?thesis by simp
  qed
qed

lemma os_Remove_frame:
  "os_Remove s p w = (r, w') \<Longrightarrow>
     spawned w' = spawned w \<and> logged w' = logged w \<and> (\<forall>q. q \<noteq> p \<longrightarrow> fs w' q = fs w q)"
  by (auto simp: os_Remove_def split: option.splits)

lemma os_RemoveAll_frame:
  "os_RemoveAll s p w = (r, w') \<Longrightarrow>
     spawned w' = spawned w \<and> logged w' = logged w \<and> (\<forall>q. \<not> inside p q \<longrightarrow> fs w' q = fs w q)"
  by (auto simp: os_RemoveAll_def split: option.splits)

lemma ioutil_TempDir_frame:
  "ioutil_TempDir s w = (r, w') \<Longrightarrow>
     spawned w' = spawned w \<and> logged w' = logged w \<and> (\<forall>q. q \<noteq> tempName s \<longrightarrow> fs w' q = fs w q)"
  by (auto simp: ioutil_TempDir_def split: option.splits)

lemma ioutil_TempDir_Inr:
  "ioutil_TempDir s w = (Inr tmpDir, w') \<Longrightarrow>
     tmpDir = tempName s \<and> fs w (tempName s) = None \<and> w' = w\<lparr>fs := (fs w)(tempName s \<mapsto> Dir)\<rparr>"
  by (auto simp: ioutil_TempDir_def split: option.splits)

lemma ioutil_TempDir_Inl: "ioutil_TempDir s w = (Inl err, w') \<Longrightarrow> w' = w"
  by (auto simp: ioutil_TempDir_def split: option.splits)

lemma runCommandInPath_cases:
  assumes "runCommandInPath s dir name args w = (r, w')"
  shows "(isl (lookPath s name) \<and> w' = w \<and> r \<noteq> None)
       \<or> (\<not> isl (lookPath s name)
           \<and> w' = w\<lparr>fs := fs_after (runProcess s dir name args (fs w)),
                    spawned := spawned w @ [(dir, name, args)]\<rparr>
           \<and> (r = None) = exit_ok (runProcess s dir name args (fs w)))"
  using assms by (auto simp: runCommandInPath_def Let_def split: sum.splits if_splits)


lemma runCommandWithOutput_cases:
  assumes "runCommandWithOutput s dir name args w = (r, w')"
  shows "(isl (lookPath s name) \<and> w' = w \<and> snd r \<noteq> None)
       \<or> (\<not> isl (lookPath s name)
           \<and> w' = w\<lparr>fs := fs_after (runProcess s dir name args (fs w)),
                    spawned := spawned w @ [(dir, name, args)]\<rparr>
           \<and> (snd r = None) = exit_ok (runProcess s dir name args (fs w)))"
  using assms by (auto simp: runCommandWithOutput_def Let_def split: sum.splits if_splits)

subsection \<open>getAbs\<close>

lemma getAbs_Inr:
  "getAbs s p w = Inr a \<Longrightarrow> absPath s p = Inr a \<and> fs w p \<noteq> None \<and> exists s p w = (True, None)"
  by (auto simp: getAbs_def exists_def os_Stat_def split: sum.splits option.splits if_splits prod.splits)

lemma getAbs_fails:
  "isl (getAbs s p w) = (isl (absPath s p) \<or> os_Stat s p w \<noteq> None)"
  by (auto simp: getAbs_def exists_def split: sum.splits option.splits if_splits prod.splits)

lemma getAbs_missing: "fs w p = None \<Longrightarrow> isl (getAbs s p w)"
  by (auto simp: getAbs_fails os_Stat_def split: option.splits)

lemma getAbs_not_exist:
  assumes "absPath s p = Inr a" "fault s (Stat p) = None" "fs w p = None"
  shows "getAbs s p w = Inl (Errorf (''file does not exists: '%s'' @ [CHR 0x27]) [ArgString p])"
  using assms by (simp add: getAbs_def exists_def os_Stat_def IsNotExist_def)

text \<open>
  Claim C9. In the revision of \<open>Multistamp\<close> of part 001, when resolving either input path
  fails (the absolute path cannot be formed, or the existence check fails or finds nothing),
  the function returns a nil reader and a nil error, and it has done nothing else.
\<close>

theorem Multistamp_part001_ignores_path_errors:
  assumes "isl (absPath s p) \<or> os_Stat s p w \<noteq> None"
    and "p = stampontoPDFFile \<or> p = stampPDFFile"
  shows "Multistamp_part001 s stampontoPDFFile stampPDFFile w = ((None, None), w)"
proof -
  from assms have "isl (getAbs s stampontoPDFFile w) \<or> isl (getAbs s stampPDFFile w)"
    by (auto simp: getAbs_fails)
  then show ?thesis
    by (auto simp: Multistamp_part001_def split: sum.splits)
qed

theorem Multistamp_part001_ignores_path_errors_witness:
  "os_Stat demo_sys ''/w/nostamp.pdf'' demo_world \<noteq> None
   \<and> Multistamp_part001 demo_sys ''/w/form.pdf'' ''/w/nostamp.pdf'' demo_world
       = ((None, None), demo_world)"
proof -
  have st: "os_Stat demo_sys ''/w/nostamp.pdf'' demo_world \<noteq> None"
    by (simp add: os_Stat_def demo_sys_def demo_world_def demo_fs_def)
  then show ?thesis
    using Multistamp_part001_ignores_path_errors
            [of demo_sys "''/w/nostamp.pdf''" demo_world "''/w/form.pdf''" "''/w/nostamp.pdf''"]
    by simp
qed

text \<open>
  Claim C6. When the tool is not on the search path, \<open>Fill\<close> returns the error of the lookup;
  when the tool is there and the source document does not exist, \<open>Fill\<close> returns the error
  \<open>file does not exists\<close> for that path. In both cases the world is as it was: no directory
  was made, no file written and no process started. Whatever else holds, a missing tool or a
  missing source makes \<open>Fill\<close> fail before any process is started.
\<close>

theorem Fill_checks_before_spawn:
  "(lookPath s ''pdftk'' = Inl err \<longrightarrow>
      Fill s form formPDFFile destPDFFile c u overwrite w = (Some err, w))
   \<and> (lookPath s ''pdftk'' = Inr exe \<and> absPath s formPDFFile = Inr a
        \<and> fault s (Stat formPDFFile) = None \<and> fs w formPDFFile = None \<longrightarrow>
      Fill s form formPDFFile destPDFFile c u overwrite w
        = (Some (Errorf (''file does not exists: '%s'' @ [CHR 0x27]) [ArgString formPDFFile]), w))
   \<and> (isl (lookPath s ''pdftk'') \<or> fs w formPDFFile = None \<longrightarrow>
      fst (Fill s form formPDFFile destPDFFile c u overwrite w) \<noteq> None
      \<and> snd (Fill s form formPDFFile destPDFFile c u overwrite w) = w
      \<and> spawned (snd (Fill s form formPDFFile destPDFFile c u overwrite w)) = spawned w)"
proof -
  have 1: "lookPath s ''pdftk'' = Inl err \<longrightarrow>
      Fill s form formPDFFile destPDFFile c u overwrite w = (Some err, w)"
    by (simp add: Fill_def)
  have 2: "lookPath s ''pdftk'' = Inr exe \<and> absPath s formPDFFile = Inr a
        \<and> fault s (Stat formPDFFile) = None \<and> fs w formPDFFile = None \<longrightarrow>
      Fill s form formPDFFile destPDFFile c u overwrite w
        = (Some (Errorf (''file does not exists: '%s'' @ [CHR 0x27]) [ArgString formPDFFile]), w)"
    using getAbs_not_exist [of s formPDFFile a w] by (auto simp: Fill_def)
  have 3: "isl (lookPath s ''pdftk'') \<or> fs w formPDFFile = None \<longrightarrow>
      fst (Fill s form formPDFFile destPDFFile c u overwrite w) \<noteq> None
      \<and> snd (Fill s form formPDFFile destPDFFile c u overwrite w) = w"
    using getAbs_missing [of w formPDFFile s]
    by (auto simp: Fill_def split: sum.splits)
  show ?thesis using 1 2 3 by simp
qed

theorem Fill_checks_before_spawn_witness:
  "lookPath no_tool_sys ''pdftk'' = Inl (SysError ''executable file not found in $PATH'')
   \<and> Fill no_tool_sys demo_form ''/w/form.pdf'' ''/w/out.pdf'' ''Yes'' ''No'' False demo_world
       = (Some (SysError ''executable file not found in $PATH''), demo_world)
   \<and> lookPath demo_sys ''pdftk'' = Inr ''/bin/pdftk''
   \<and> absPath demo_sys ''/w/missing.pdf'' = Inr ''/w/missing.pdf''
   \<and> fault demo_sys (Stat ''/w/missing.pdf'') = None
   \<and> fs demo_world ''/w/missing.pdf'' = None
   \<and> Fill demo_sys demo_form ''/w/missing.pdf'' ''/w/out.pdf'' ''Yes'' ''No'' False demo_world
       = (Some (Errorf (''file does not exists: '%s'' @ [CHR 0x27]) [ArgString ''/w/missing.pdf'']),
          demo_world)
   \<and> spawned (snd (Fill demo_sys demo_form ''/w/missing.pdf'' ''/w/out.pdf'' ''Yes'' ''No'' False
                     demo_world)) = spawned demo_world"
proof -
  have a: "lookPath no_tool_sys ''pdftk'' = Inl (SysError ''executable file not found in $PATH'')"
    by (simp add: no_tool_sys_def)
  have b: "lookPath demo_sys ''pdftk'' = Inr ''/bin/pdftk''"
    "absPath demo_sys ''/w/missing.pdf'' = Inr ''/w/missing.pdf''"
    "fault demo_sys (Stat ''/w/missing.pdf'') = None"
    "fs demo_world ''/w/missing.pdf'' = None"
    by (simp_all add: demo_sys_def demo_world_def demo_fs_def)
  show ?thesis
    using Fill_checks_before_spawn [of no_tool_sys "SysError ''executable file not found in $PATH''"
            demo_form "''/w/form.pdf''" "''/w/out.pdf''" "''Yes''" "''No''" False demo_world]
          Fill_checks_before_spawn [of demo_sys _ demo_form "''/w/missing.pdf''" "''/w/out.pdf''"
            "''Yes''" "''No''" False demo_world "''/bin/pdftk''" "''/w/missing.pdf''"]
          a b
    by simp
qed

subsection \<open>The paths through Fill\<close>

lemma Fill_rest_cases:
  fixes s form src dst c u ov tmp w1
  defines "fdf \<equiv> cleanPath s (tmp @ ''/data.fdf'')"
    and "out \<equiv> cleanPath s (tmp @ ''/output.pdf'')"
  defines "args \<equiv> [src, ''fill_form'', fdf, ''output'', out, ''flatten'']"
  obtains
    (data_fails) err w2 where
      "createFdfFile s form fdf c u w1 = (Some err, w2)"
      "Fill_rest s form src dst c u ov tmp w1 = (Some err, w2)"
  | (tool_fails) w2 err w3 where
      "createFdfFile s form fdf c u w1 = (None, w2)"
      "runCommandInPath s tmp ''pdftk'' args w2 = (Some err, w3)"
      "Fill_rest s form src dst c u ov tmp w1 = (Some (Errorf ''pdftk error: %v'' [ArgError err]), w3)"
  | (stat_fails) w2 w3 e err where
      "createFdfFile s form fdf c u w1 = (None, w2)"
      "runCommandInPath s tmp ''pdftk'' args w2 = (None, w3)"
      "exists s dst w3 = (e, Some err)"
      "Fill_rest s form src dst c u ov tmp w1 = (Some err, w3)"
  | (dest_exists) w2 w3 where
      "createFdfFile s form fdf c u w1 = (None, w2)"
      "runCommandInPath s tmp ''pdftk'' args w2 = (None, w3)"
      "exists s dst w3 = (True, None)" "\<not> ov"
      "Fill_rest s form src dst c u ov tmp w1 =
         (Some (Errorf (''destination PDF file already exists: '%s'' @ [CHR 0x27]) [ArgString dst]), w3)"
  | (remove_fails) w2 w3 err w4 where
      "createFdfFile s form fdf c u w1 = (None, w2)"
      "runCommandInPath s tmp ''pdftk'' args w2 = (None, w3)"
      "exists s dst w3 = (True, None)" "ov"
      "os_Remove s dst w3 = (Some err, w4)"
      "Fill_rest s form src dst c u ov tmp w1 = (Some err, w4)"
  | (replace) w2 w3 w4 where
      "createFdfFile s form fdf c u w1 = (None, w2)"
      "runCommandInPath s tmp ''pdftk'' args w2 = (None, w3)"
      "exists s dst w3 = (True, None)" "ov"
      "os_Remove s dst w3 = (None, w4)"
      "Fill_rest s form src dst c u ov tmp w1 = copyFile s out dst w4"
  | (fresh) w2 w3 where
      "createFdfFile s form fdf c u w1 = (None, w2)"
      "runCommandInPath s tmp ''pdftk'' args w2 = (None, w3)"
      "exists s dst w3 = (False, None)"
      "Fill_rest s form src dst c u ov tmp w1 = copyFile s out dst w3"
proof -
  obtain e1 w2 where 1: "createFdfFile s form fdf c u w1 = (e1, w2)"
    by (cases "createFdfFile s form fdf c u w1")
  show thesis
  proof (cases e1)
    case (Some err)
    with 1 show ?thesis
      by (intro data_fails [of err w2]) (simp_all add: Fill_rest_def fdf_def)
  next
    case None
    note 1 = 1 [unfolded None]
    obtain e2 w3 where 2: "runCommandInPath s tmp ''pdftk'' args w2 = (e2, w3)"
      by (cases "runCommandInPath s tmp ''pdftk'' args w2")
    show ?thesis
    proof (cases e2)
      case (Some err)
      with 1 2 show ?thesis
        by (intro tool_fails [of w2 err w3])
           (simp_all add: Fill_rest_def fdf_def out_def args_def Let_def)
    next
      case None
      note 2 = 2 [unfolded None]
      obtain e e3 where 3: "exists s dst w3 = (e, e3)" by (cases "exists s dst w3")
      show ?thesis
      proof (cases e3)
        case (Some err)
        with 1 2 3 show ?thesis
          by (intro stat_fails [of w2 w3 e err])
             (simp_all add: Fill_rest_def fdf_def out_def args_def Let_def)
      next
        case None
        note 3 = 3 [unfolded None]
        show ?thesis
        proof (cases e)
          case False
          with 1 2 3 show ?thesis
            by (intro fresh [of w2 w3])
               (simp_all add: Fill_rest_def fdf_def out_def args_def Let_def
                  split: prod.splits option.splits)
        next
          case True
          with 3 have 3: "exists s dst w3 = (True, None)" by simp
          show ?thesis
          proof (cases ov)
            case False
            with 1 2 3 show ?thesis
              by (intro dest_exists [of w2 w3])
                 (simp_all add: Fill_rest_def fdf_def out_def args_def Let_def)
          next
            case True
            obtain e4 w4 where 4: "os_Remove s dst w3 = (e4, w4)" by (cases "os_Remove s dst w3")
            show ?thesis
            proof (cases e4)
              case (Some err)
              with 1 2 3 4 True show ?thesis
                by (intro remove_fails [of w2 w3 err w4])
                   (simp_all add: Fill_rest_def fdf_def out_def args_def Let_def)
            next
              case None
              with 1 2 3 4 True show ?thesis
                by (intro replace [of w2 w3 w4])
                   (simp_all add: Fill_rest_def fdf_def out_def args_def Let_def)
            qed
          qed
        qed
      qed
    qed
  qed
qed

lemma Fill_cases:
  obtains
    (no_tool) err where
      "lookPath s ''pdftk'' = Inl err"
      "Fill s form formPDFFile destPDFFile c u ov w = (Some err, w)"
  | (no_source) exe err where
      "lookPath s ''pdftk'' = Inr exe" "getAbs s formPDFFile w = Inl err"
      "Fill s form formPDFFile destPDFFile c u ov w = (Some err, w)"
  | (no_dest) exe src err where
      "lookPath s ''pdftk'' = Inr exe" "getAbs s formPDFFile w = Inr src"
      "absPath s destPDFFile = Inl err"
      "Fill s form formPDFFile destPDFFile c u ov w = (Some err, w)"
  | (no_scratch) exe src dst err where
      "lookPath s ''pdftk'' = Inr exe" "getAbs s formPDFFile w = Inr src"
      "absPath s destPDFFile = Inr dst" "ioutil_TempDir s w = (Inl err, w)"
      "Fill s form formPDFFile destPDFFile c u ov w = (Some err, w)"
  | (scratch) exe src dst w1 r w2 e3 w3 where
      "lookPath s ''pdftk'' = Inr exe" "getAbs s formPDFFile w = Inr src"
      "absPath s destPDFFile = Inr dst"
      "ioutil_TempDir s w = (Inr (tempName s), w1)"
      "Fill_rest s form src dst c u ov (tempName s) w1 = (r, w2)"
      "os_RemoveAll s (tempName s) w2 = (e3, w3)"
      "Fill s form formPDFFile destPDFFile c u ov w = (r, w3)"
proof (cases "lookPath s ''pdftk''")
  case (Inl err)
  then show ?thesis by (intro no_tool [of err]) (simp_all add: Fill_def)
next
  case lp: (Inr exe)
  show ?thesis
  proof (cases "getAbs s formPDFFile w")
    case (Inl err)
    with lp show ?thesis by (intro no_source [of exe err]) (simp_all add: Fill_def)
  next
    case ga: (Inr src)
    show ?thesis
    proof (cases "absPath s destPDFFile")
      case (Inl err)
      with lp ga show ?thesis by (intro no_dest [of exe src err]) (simp_all add: Fill_def)
    next
      case ab: (Inr dst)
      obtain t w1 where td: "ioutil_TempDir s w = (t, w1)" by (cases "ioutil_TempDir s w")
      show ?thesis
      proof (cases t)
        case (Inl err)
        with td ioutil_TempDir_Inl [of s w err w1] have "ioutil_TempDir s w = (Inl err, w)" by simp
        with lp ga ab show ?thesis
          by (intro no_scratch [of exe src dst err]) (simp_all add: Fill_def)
      next
        case (Inr tmp)
        with td ioutil_TempDir_Inr [of s w tmp w1]
        have td': "ioutil_TempDir s w = (Inr (tempName s), w1)" by simp
        obtain r w2 where fr: "Fill_rest s form src dst c u ov (tempName s) w1 = (r, w2)"
          by (cases "Fill_rest s form src dst c u ov (tempName s) w1")
        obtain e3 w3 where ra: "os_RemoveAll s (tempName s) w2 = (e3, w3)"
          by (cases "os_RemoveAll s (tempName s) w2")
        from lp ga ab td' fr ra show ?thesis
          by (intro scratch [of exe src dst w1 r w2 e3 w3]) (simp_all add: Fill_def)
      qed
    qed
  qed
qed

subsection \<open>copyFile\<close>

lemma copyFile_ok:
  assumes "fault s (Open src) = None" "fault s (Create dst) = None" "fault s (Read src) = None"
    and "fault s (Write dst) = None" "fault s (Sync dst) = None" "fault s (Close dst) = None"
    and "fs w src = Some (File content)" "src \<noteq> dst" "fs w dst \<noteq> Some Dir"
  shows "\<exists>w'. copyFile s src dst w = (None, w') \<and> fs w' dst = Some (File content)"
proof -
  have op: "os_Open s src w = None" using assms by (simp add: os_Open_def)
  define w1 where "w1 = w\<lparr>fs := (fs w)(dst \<mapsto> File [])\<rparr>"
  have cr: "os_Create s dst w = (None, w1)"
    using assms by (auto simp: os_Create_def w1_def split: option.splits node.splits)
  have src1: "fs w1 src = Some (File content)" using assms by (simp add: w1_def)
  have dst1: "fs w1 dst = Some (File [])" by (simp add: w1_def)
  obtain w2 where cp: "io_Copy s dst src w1 = (None, w2)" and c2: "fs w2 dst = Some (File content)"
    using assms(3,4) src1 dst1 by (cases "content = []") (auto simp: io_Copy_def file_Write_def)
  have "copyFile s src dst w = (None, w2)"
    using op cr cp assms(5,6) by (simp add: copyFile_def file_Sync_def file_Close_def)
  with c2 show ?thesis by blast
qed


lemma exists_True: "exists s p w = (True, None) \<Longrightarrow> fs w p \<noteq> None"
  by (auto simp: exists_def os_Stat_def split: option.splits if_splits)

text \<open>
  Claim C5, as the code has it. \<open>Fill\<close> looks at the destination only after the tool has
  run. Take a call that gets that far: the tool is found, the source resolves, the
  destination path resolves, the scratch directory and the data file are made and the tool
  exits with success; and let the destination, outside the scratch directory, exist at that
  moment. Without the overwrite flag \<open>Fill\<close> returns the error
  \<open>destination PDF file already exists\<close> and leaves the destination as it is. With the flag,
  when the tool has left an output file and neither the removal of the destination nor a
  step of the copy (open, read, create, write, sync, close) fails, \<open>Fill\<close> succeeds and the
  destination then holds exactly the bytes of the output file, whatever it held before.
\<close>

theorem Fill_existing_destination:
  assumes "lookPath s ''pdftk'' = Inr exe"
    and "getAbs s formPDFFile w = Inr src"
    and "absPath s destPDFFile = Inr dst"
    and "ioutil_TempDir s w = (Inr tmpDir, w1)"
    and "createFdfFile s form (cleanPath s (tmpDir @ ''/data.fdf'')) c u w1 = (None, w2)"
    and "runCommandInPath s tmpDir ''pdftk''
           [src, ''fill_form'', cleanPath s (tmpDir @ ''/data.fdf''), ''output'',
            cleanPath s (tmpDir @ ''/output.pdf''), ''flatten''] w2 = (None, w3)"
    and "exists s dst w3 = (True, None)"
    and "\<not> inside tmpDir dst"
  shows "(\<not> overwrite \<longrightarrow>
            fst (Fill s form formPDFFile destPDFFile c u overwrite w)
              = Some (Errorf (''destination PDF file already exists: '%s'' @ [CHR 0x27])
                        [ArgString dst])
            \<and> fs (snd (Fill s form formPDFFile destPDFFile c u overwrite w)) dst = fs w3 dst)
       \<and> (overwrite
            \<and> fs w3 (cleanPath s (tmpDir @ ''/output.pdf'')) = Some (File content)
            \<and> cleanPath s (tmpDir @ ''/output.pdf'') \<noteq> dst
            \<and> fault s (Remove dst) = None
            \<and> fault s (Open (cleanPath s (tmpDir @ ''/output.pdf''))) = None
            \<and> fault s (Read (cleanPath s (tmpDir @ ''/output.pdf''))) = None
            \<and> fault s (Create dst) = None \<and> fault s (Write dst) = None
            \<and> fault s (Sync dst) = None \<and> fault s (Close dst) = None \<longrightarrow>
            fst (Fill s form formPDFFile destPDFFile c u overwrite w) = None
            \<and> fs (snd (Fill s form formPDFFile destPDFFile c u overwrite w)) dst
                = Some (File content))"
proof -
  let ?out = "cleanPath s (tmpDir @ ''/output.pdf'')"
  let ?fill = "Fill s form formPDFFile destPDFFile c u overwrite w"
  have fill: "?fill = (fst (Fill_rest s form src dst c u overwrite tmpDir w1),
                       snd (os_RemoveAll s tmpDir (snd (Fill_rest s form src dst c u overwrite tmpDir w1))))"
    using assms(1-4) by (simp add: Fill_def split: prod.splits)
  have keep: "fs (snd (os_RemoveAll s tmpDir w')) dst = fs w' dst" for w'
    using os_RemoveAll_frame [of s tmpDir w' "fst (os_RemoveAll s tmpDir w')" "snd (os_RemoveAll s tmpDir w')"]
      assms(8) by simp
  have no: "\<not> overwrite \<longrightarrow>
            fst ?fill = Some (Errorf (''destination PDF file already exists: '%s'' @ [CHR 0x27])
                        [ArgString dst])
            \<and> fs (snd ?fill) dst = fs w3 dst"
  proof
    assume "\<not> overwrite"
    then have "Fill_rest s form src dst c u overwrite tmpDir w1
      = (Some (Errorf (''destination PDF file already exists: '%s'' @ [CHR 0x27]) [ArgString dst]), w3)"
      using assms(5-7) by (simp add: Fill_rest_def Let_def)
    then show "fst ?fill = Some (Errorf (''destination PDF file already exists: '%s'' @ [CHR 0x27])
                        [ArgString dst])
            \<and> fs (snd ?fill) dst = fs w3 dst"
      using fill keep by simp
  qed
  have yes: "overwrite
            \<and> fs w3 ?out = Some (File content) \<and> ?out \<noteq> dst
            \<and> fault s (Remove dst) = None
            \<and> fault s (Open ?out) = None \<and> fault s (Read ?out) = None
            \<and> fault s (Create dst) = None \<and> fault s (Write dst) = None
            \<and> fault s (Sync dst) = None \<and> fault s (Close dst) = None \<longrightarrow>
            fst ?fill = None \<and> fs (snd ?fill) dst = Some (File content)"
  proof
    assume a: "overwrite
            \<and> fs w3 ?out = Some (File content) \<and> ?out \<noteq> dst
            \<and> fault s (Remove dst) = None
            \<and> fault s (Open ?out) = None \<and> fault s (Read ?out) = None
            \<and> fault s (Create dst) = None \<and> fault s (Write dst) = None
            \<and> fault s (Sync dst) = None \<and> fault s (Close dst) = None"
    define w4 where "w4 = w3\<lparr>fs := (fs w3)(dst := None)\<rparr>"
    have rm: "os_Remove s dst w3 = (None, w4)"
      using a exists_True [OF assms(7)] by (auto simp: os_Remove_def w4_def)
    have "fs w4 ?out = Some (File content)" "fs w4 dst \<noteq> Some Dir"
      using a by (simp_all add: w4_def)
    with a obtain w5 where cp: "copyFile s ?out dst w4 = (None, w5)"
      and c5: "fs w5 dst = Some (File content)"
      using copyFile_ok [of s ?out dst w4 content] by blast
    have "Fill_rest s form src dst c u overwrite tmpDir w1 = (None, w5)"
      using assms(5-7) a rm cp by (simp add: Fill_rest_def Let_def)
    then show "fst ?fill = None \<and> fs (snd ?fill) dst = Some (File content)"
      using fill keep c5 by simp
  qed
  show ?thesis using no yes by blast
qed

theorem Fill_existing_destination_witness:
  "lookPath demo_sys ''pdftk'' = Inr ''/bin/pdftk''
   \<and> getAbs demo_sys ''/w/form.pdf'' demo_world = Inr ''/w/form.pdf''
   \<and> absPath demo_sys ''/w/old.pdf'' = Inr ''/w/old.pdf''
   \<and> ioutil_TempDir demo_sys demo_world = (Inr ''/tmp/fillpdf-1'', demo_w1)
   \<and> createFdfFile demo_sys demo_form ''/tmp/fillpdf-1/data.fdf'' ''Yes'' ''No'' demo_w1
       = (None, demo_w2)
   \<and> runCommandInPath demo_sys ''/tmp/fillpdf-1'' ''pdftk''
        [''/w/form.pdf'', ''fill_form'', ''/tmp/fillpdf-1/data.fdf'', ''output'',
         ''/tmp/fillpdf-1/output.pdf'', ''flatten''] demo_w2 = (None, demo_w3)
   \<and> exists demo_sys ''/w/old.pdf'' demo_w3 = (True, None)
   \<and> fs demo_w3 ''/w/old.pdf'' = Some (File ''old'')
   \<and> fs demo_w3 ''/tmp/fillpdf-1/output.pdf'' = Some (File ''%PDF-out'')
   \<and> fst (Fill demo_sys demo_form ''/w/form.pdf'' ''/w/old.pdf'' ''Yes'' ''No'' False demo_world)
       = Some (Errorf (''destination PDF file already exists: '%s'' @ [CHR 0x27])
                 [ArgString ''/w/old.pdf''])
   \<and> fs (snd (Fill demo_sys demo_form ''/w/form.pdf'' ''/w/old.pdf'' ''Yes'' ''No'' False demo_world))
        ''/w/old.pdf'' = Some (File ''old'')
   \<and> fst (Fill demo_sys demo_form ''/w/form.pdf'' ''/w/old.pdf'' ''Yes'' ''No'' True demo_world) = None
   \<and> fs (snd (Fill demo_sys demo_form ''/w/form.pdf'' ''/w/old.pdf'' ''Yes'' ''No'' True demo_world))
        ''/w/old.pdf'' = Some (File ''%PDF-out'')"
proof -
  have clean: "cleanPath demo_sys p = p" for p by (simp add: demo_sys_def)
  have 1: "lookPath demo_sys ''pdftk'' = Inr ''/bin/pdftk''" by (simp add: demo_sys_def)
  have 2: "getAbs demo_sys ''/w/form.pdf'' demo_world = Inr ''/w/form.pdf''"
    by (simp add: getAbs_def exists_def os_Stat_def demo_sys_def demo_world_def demo_fs_def)
  have 3: "absPath demo_sys ''/w/old.pdf'' = Inr ''/w/old.pdf''" by (simp add: demo_sys_def)
  have 4: "ioutil_TempDir demo_sys demo_world = (Inr ''/tmp/fillpdf-1'', demo_w1)"
    by (simp add: ioutil_TempDir_def demo_sys_def demo_world_def demo_fs_def demo_w1_def)
  have 5: "createFdfFile demo_sys demo_form ''/tmp/fillpdf-1/data.fdf'' ''Yes'' ''No'' demo_w1
       = (None, demo_w2)"
    by (simp add: createFdfFile_bytes os_Create_def file_Write_def demo_sys_def demo_world_def
          demo_fs_def demo_w1_def demo_w2_def fdf_header_def)
  have 6: "runCommandInPath demo_sys ''/tmp/fillpdf-1'' ''pdftk''
        [''/w/form.pdf'', ''fill_form'', ''/tmp/fillpdf-1/data.fdf'', ''output'',
         ''/tmp/fillpdf-1/output.pdf'', ''flatten''] demo_w2 = (None, demo_w3)"
    by (simp add: runCommandInPath_def demo_sys_def demo_pdftk_def demo_world_def demo_fs_def
          demo_w1_def demo_w2_def demo_w3_def Let_def)
  have 7: "exists demo_sys ''/w/old.pdf'' demo_w3 = (True, None)"
    by (simp add: exists_def os_Stat_def demo_sys_def demo_world_def demo_fs_def
          demo_w1_def demo_w2_def demo_w3_def)
  have 8: "\<not> inside ''/tmp/fillpdf-1'' ''/w/old.pdf''" by (simp add: inside_def)
  have 9: "fs demo_w3 ''/w/old.pdf'' = Some (File ''old'')"
    "fs demo_w3 ''/tmp/fillpdf-1/output.pdf'' = Some (File ''%PDF-out'')"
    by (simp_all add: demo_world_def demo_fs_def demo_w1_def demo_w2_def demo_w3_def)
  have f: "fault demo_sys x = None" for x by (simp add: demo_sys_def)
  note inst = Fill_existing_destination [where s = demo_sys and exe = "''/bin/pdftk''"
      and formPDFFile = "''/w/form.pdf''" and w = demo_world and src = "''/w/form.pdf''"
      and destPDFFile = "''/w/old.pdf''" and dst = "''/w/old.pdf''"
      and tmpDir = "''/tmp/fillpdf-1''" and ?w1.0 = demo_w1 and form = demo_form
      and c = "''Yes''" and u = "''No''" and ?w2.0 = demo_w2 and ?w3.0 = demo_w3]
  have no: "fst (Fill demo_sys demo_form ''/w/form.pdf'' ''/w/old.pdf'' ''Yes'' ''No'' False demo_world)
       = Some (Errorf (''destination PDF file already exists: '%s'' @ [CHR 0x27])
                 [ArgString ''/w/old.pdf''])
   \<and> fs (snd (Fill demo_sys demo_form ''/w/form.pdf'' ''/w/old.pdf'' ''Yes'' ''No'' False demo_world))
        ''/w/old.pdf'' = Some (File ''old'')"
    using inst [where overwrite = False] 1 2 3 4 5 6 7 8 9 by (simp add: clean)
  have yes: "fst (Fill demo_sys demo_form ''/w/form.pdf'' ''/w/old.pdf'' ''Yes'' ''No'' True demo_world) = None
   \<and> fs (snd (Fill demo_sys demo_form ''/w/form.pdf'' ''/w/old.pdf'' ''Yes'' ''No'' True demo_world))
        ''/w/old.pdf'' = Some (File ''%PDF-out'')"
    using inst [where overwrite = True and content = "''%PDF-out''"] 1 2 3 4 5 6 7 8 9 f
    by (simp add: clean)
  show ?thesis
    using 1 2 3 4 5 6 7 9 no yes by simp
qed

text \<open>
  Claim C5 as it is worded, for every call with an existing destination, fails. With the
  destination \<open>/w/old.pdf\<close> present and no overwrite flag, \<open>Fill\<close> returns the error of the
  lookup when the tool is not on the search path, and \<open>pdftk error\<close> when the tool fails,
  not the error of the destination. With the flag, when the tool exits with success but
  leaves no output file, \<open>Fill\<close> removes the destination and then fails.
\<close>

theorem Fill_existing_destination_counterexample:
  "fs demo_world ''/w/old.pdf'' = Some (File ''old'')
   \<and> fst (Fill no_tool_sys demo_form ''/w/form.pdf'' ''/w/old.pdf'' ''Yes'' ''No'' False demo_world)
       = Some (SysError ''executable file not found in $PATH'')
   \<and> fst (Fill failing_tool_sys demo_form ''/w/form.pdf'' ''/w/old.pdf'' ''Yes'' ''No'' False demo_world)
       = Some (Errorf ''pdftk error: %v'' [ArgError (Errorf ''Error: Failed to open form data file'' [])])
   \<and> fst (Fill silent_tool_sys demo_form ''/w/form.pdf'' ''/w/old.pdf'' ''Yes'' ''No'' True demo_world)
       = Some (ErrNotExist ''/tmp/fillpdf-1/output.pdf'')
   \<and> fs (snd (Fill silent_tool_sys demo_form ''/w/form.pdf'' ''/w/old.pdf'' ''Yes'' ''No'' True demo_world))
        ''/w/old.pdf'' = None"
  by code_simp

subsection \<open>Processes started and lines logged\<close>

lemma runCommandInPath_effects:
  assumes "runCommandInPath s dir name args w = (r, w')"
  shows "logged w' = logged w
       \<and> (spawned w' = spawned w \<or> spawned w' = spawned w @ [(dir, name, args)])"
  using runCommandInPath_cases [OF assms] by auto

lemma Fill_rest_effects:
  assumes "Fill_rest s form src dst c u ov tmp w1 = (r, w')"
  shows "logged w' = logged w1
       \<and> (spawned w' = spawned w1
          \<or> spawned w' = spawned w1 @ [(tmp, ''pdftk'',
               [src, ''fill_form'', cleanPath s (tmp @ ''/data.fdf''), ''output'',
                cleanPath s (tmp @ ''/output.pdf''), ''flatten''])])"
proof (cases rule: Fill_rest_cases [of s form tmp c u w1 src dst ov])
  case (data_fails err w2)
  with assms createFdfFile_frame [OF data_fails(1)] show ?thesis by simp
next
  case (tool_fails w2 err w3)
  with assms createFdfFile_frame [OF tool_fails(1)] runCommandInPath_effects [OF tool_fails(2)]
  show ?thesis by auto
next
  case (stat_fails w2 w3 e err)
  with assms createFdfFile_frame [OF stat_fails(1)] runCommandInPath_effects [OF stat_fails(2)]
  show ?thesis by auto
next
  case (dest_exists w2 w3)
  with assms createFdfFile_frame [OF dest_exists(1)] runCommandInPath_effects [OF dest_exists(2)]
  show ?thesis by auto
next
  case (remove_fails w2 w3 err w4)
  with assms createFdfFile_frame [OF remove_fails(1)] runCommandInPath_effects [OF remove_fails(2)]
    os_Remove_frame [OF remove_fails(5)]
  show ?thesis by auto
next
  case (replace w2 w3 w4)
  from assms replace(6) have "copyFile s (cleanPath s (tmp @ ''/output.pdf'')) dst w4 = (r, w')"
    by simp
  from copyFile_frame [OF this] createFdfFile_frame [OF replace(1)]
    runCommandInPath_effects [OF replace(2)] os_Remove_frame [OF replace(5)]
  show ?thesis by auto
next
  case (fresh w2 w3)
  from assms fresh(4) have "copyFile s (cleanPath s (tmp @ ''/output.pdf'')) dst w3 = (r, w')"
    by simp
  from copyFile_frame [OF this] createFdfFile_frame [OF fresh(1)]
    runCommandInPath_effects [OF fresh(2)]
  show ?thesis by auto
qed

lemma Fill_effects:
  "logged (snd (Fill s form formPDFFile destPDFFile c u ov w)) = logged w
   \<and> (snd (Fill s form formPDFFile destPDFFile c u ov w) = w
      \<or> (\<exists>src. getAbs s formPDFFile w = Inr src
           \<and> (spawned (snd (Fill s form formPDFFile destPDFFile c u ov w)) = spawned w
              \<or> spawned (snd (Fill s form formPDFFile destPDFFile c u ov w))
                 = spawned w @ [(tempName s, ''pdftk'',
                     [src, ''fill_form'', cleanPath s (tempName s @ ''/data.fdf''), ''output'',
                      cleanPath s (tempName s @ ''/output.pdf''), ''flatten''])])))"
proof (cases rule: Fill_cases [of s form formPDFFile destPDFFile c u ov w])
  case (scratch exe src dst w1 r w2 e3 w3)
  from ioutil_TempDir_frame [OF scratch(4)] Fill_rest_effects [OF scratch(5)]
    os_RemoveAll_frame [OF scratch(6)] scratch(2,7)
  show ?thesis by auto
qed simp_all

subsection \<open>The paths through Multistamp and Merge\<close>

lemma Multistamp_rest_effects:
  assumes "Multistamp_rest s a b tmp w1 = (r, w')"
  shows "logged w' = logged w1
       \<and> (spawned w' = spawned w1
          \<or> spawned w' = spawned w1 @ [(tmp, ''pdftk'',
               [a, ''multistamp'', b, ''output'', cleanPath s (tmp @ ''/output.pdf'')])])"
proof -
  obtain e w2 where run: "runCommandInPath s tmp ''pdftk''
      [a, ''multistamp'', b, ''output'', cleanPath s (tmp @ ''/output.pdf'')] w1 = (e, w2)"
    by (cases "runCommandInPath s tmp ''pdftk''
      [a, ''multistamp'', b, ''output'', cleanPath s (tmp @ ''/output.pdf'')] w1")
  with assms have "w' = w2"
    by (auto simp: Multistamp_rest_def Let_def split: option.splits sum.splits)
  with runCommandInPath_effects [OF run] show ?thesis by simp
qed

lemma Multistamp_part001_rest_effects:
  assumes "Multistamp_part001_rest s a b tmp w1 = (r, w')"
  shows "logged w' = logged w1
       \<and> (spawned w' = spawned w1
          \<or> spawned w' = spawned w1 @ [(tmp, ''pdftk'',
               [a, ''multistamp'', b, ''output'', cleanPath s (tmp @ ''/output.pdf'')])])"
proof -
  obtain e w2 where run: "runCommandInPath s tmp ''pdftk''
      [a, ''multistamp'', b, ''output'', cleanPath s (tmp @ ''/output.pdf'')] w1 = (e, w2)"
    by (cases "runCommandInPath s tmp ''pdftk''
      [a, ''multistamp'', b, ''output'', cleanPath s (tmp @ ''/output.pdf'')] w1")
  with assms have "w' = w2"
    by (auto simp: Multistamp_part001_rest_def Let_def split: option.splits sum.splits)
  with runCommandInPath_effects [OF run] show ?thesis by simp
qed

lemma Merge_rest_effects:
  assumes "Merge_rest s args tmp w1 = (r, w')"
  shows "logged w' = logged w1
       \<and> (spawned w' = spawned w1
          \<or> spawned w' = spawned w1 @ [(tmp, ''pdftk'',
               args @ [''cat'', ''output'', joinPath s tmp (FormatInt (unixTime s) @ ''.pdf'')])])"
proof -
  obtain e w2 where run: "runCommandInPath s tmp ''pdftk''
      (args @ [''cat'', ''output'', joinPath s tmp (FormatInt (unixTime s) @ ''.pdf'')]) w1 = (e, w2)"
    by (cases "runCommandInPath s tmp ''pdftk''
      (args @ [''cat'', ''output'', joinPath s tmp (FormatInt (unixTime s) @ ''.pdf'')]) w1")
  with assms have "w' = w2"
    by (auto simp: Merge_rest_def Let_def split: option.splits sum.splits)
  with runCommandInPath_effects [OF run] show ?thesis by simp
qed

lemma Multistamp_cases:
  obtains
    (early) err where
      "isl (lookPath s ''pdftk'') \<or> isl (getAbs s a w) \<or> isl (getAbs s b w)
         \<or> isl (fst (ioutil_TempDir s w))"
      "Multistamp s a b w = ((None, Some err), w)"
  | (scratch) exe a' b' w1 r w2 e3 w3 where
      "lookPath s ''pdftk'' = Inr exe" "getAbs s a w = Inr a'" "getAbs s b w = Inr b'"
      "ioutil_TempDir s w = (Inr (tempName s), w1)"
      "Multistamp_rest s a' b' (tempName s) w1 = (r, w2)"
      "os_RemoveAll s (tempName s) w2 = (e3, w3)"
      "Multistamp s a b w = (r, w3)"
proof (cases "isl (lookPath s ''pdftk'') \<or> isl (getAbs s a w) \<or> isl (getAbs s b w)
         \<or> isl (fst (ioutil_TempDir s w))")
  case True
  obtain t w1 where td: "ioutil_TempDir s w = (t, w1)" by (cases "ioutil_TempDir s w")
  have "\<exists>err. Multistamp s a b w = ((None, Some err), w)"
    using True td ioutil_TempDir_Inl [of s w _ w1]
    by (auto simp: Multistamp_def split: sum.splits)
  with True early show ?thesis by blast
next
  case False
  then obtain exe a' b' tmp w1 where ok: "lookPath s ''pdftk'' = Inr exe" "getAbs s a w = Inr a'"
    "getAbs s b w = Inr b'" "ioutil_TempDir s w = (Inr tmp, w1)"
    by (cases "lookPath s ''pdftk''"; cases "getAbs s a w"; cases "getAbs s b w";
        cases "ioutil_TempDir s w"; cases "fst (ioutil_TempDir s w)") auto
  with ioutil_TempDir_Inr [of s w tmp w1] have td: "ioutil_TempDir s w = (Inr (tempName s), w1)"
    by simp
  obtain r w2 where rest: "Multistamp_rest s a' b' (tempName s) w1 = (r, w2)"
    by (cases "Multistamp_rest s a' b' (tempName s) w1")
  obtain e3 w3 where ra: "os_RemoveAll s (tempName s) w2 = (e3, w3)"
    by (cases "os_RemoveAll s (tempName s) w2")
  from ok(1-3) td rest ra have "Multistamp s a b w = (r, w3)" by (simp add: Multistamp_def)
  with ok(1-3) td rest ra scratch show ?thesis by blast
qed

lemma Multistamp_part001_cases:
  obtains
    (ignored)
      "isl (getAbs s a w) \<or> isl (getAbs s b w)"
      "Multistamp_part001 s a b w = ((None, None), w)"
  | (early) a' b' err where
      "getAbs s a w = Inr a'" "getAbs s b w = Inr b'"
      "isl (lookPath s ''pdftk'') \<or> isl (fst (ioutil_TempDir s w))"
      "Multistamp_part001 s a b w = ((None, Some err), w)"
  | (scratch) exe a' b' w1 r w2 e3 w3 where
      "lookPath s ''pdftk'' = Inr exe" "getAbs s a w = Inr a'" "getAbs s b w = Inr b'"
      "ioutil_TempDir s w = (Inr (tempName s), w1)"
      "Multistamp_part001_rest s a' b' (tempName s) w1 = (r, w2)"
      "os_RemoveAll s (tempName s) w2 = (e3, w3)"
      "Multistamp_part001 s a b w
         = (r, case e3 of
                 Some e \<Rightarrow> log_Printf (''fillpdf: failed to remove temporary directory '%s''
                                         @ [CHR 0x27] @ '' again: %v'')
                             [ArgString (tempName s), ArgError e] w3
               | None \<Rightarrow> w3)"
proof (cases "isl (getAbs s a w) \<or> isl (getAbs s b w)")
  case True
  then have "Multistamp_part001 s a b w = ((None, None), w)"
    by (auto simp: Multistamp_part001_def split: sum.splits)
  with True ignored show ?thesis by blast
next
  case False
  then obtain a' b' where ab: "getAbs s a w = Inr a'" "getAbs s b w = Inr b'"
    by (cases "getAbs s a w"; cases "getAbs s b w") auto
  show ?thesis
  proof (cases "isl (lookPath s ''pdftk'') \<or> isl (fst (ioutil_TempDir s w))")
    case True
    obtain t w1 where td: "ioutil_TempDir s w = (t, w1)" by (cases "ioutil_TempDir s w")
    have "\<exists>err. Multistamp_part001 s a b w = ((None, Some err), w)"
      using True ab td ioutil_TempDir_Inl [of s w _ w1]
      by (auto simp: Multistamp_part001_def split: sum.splits)
    with True ab early show ?thesis by blast
  next
    case False
    then obtain exe tmp w1 where ok: "lookPath s ''pdftk'' = Inr exe"
      "ioutil_TempDir s w = (Inr tmp, w1)"
      by (cases "lookPath s ''pdftk''"; cases "ioutil_TempDir s w";
          cases "fst (ioutil_TempDir s w)") auto
    with ioutil_TempDir_Inr [of s w tmp w1] have td: "ioutil_TempDir s w = (Inr (tempName s), w1)"
      by simp
    obtain r w2 where rest: "Multistamp_part001_rest s a' b' (tempName s) w1 = (r, w2)"
      by (cases "Multistamp_part001_rest s a' b' (tempName s) w1")
    obtain e3 w3 where ra: "os_RemoveAll s (tempName s) w2 = (e3, w3)"
      by (cases "os_RemoveAll s (tempName s) w2")
    from ok(1) ab td rest ra have "Multistamp_part001 s a b w
         = (r, case e3 of
                 Some e \<Rightarrow> log_Printf (''fillpdf: failed to remove temporary directory '%s''
                                         @ [CHR 0x27] @ '' again: %v'')
                             [ArgString (tempName s), ArgError e] w3
               | None \<Rightarrow> w3)"
      by (simp add: Multistamp_part001_def)
    with ok(1) ab td rest ra scratch show ?thesis by blast
  qed
qed

lemma Merge_loop_result:
  "Merge_loop s args files w = Inr args' \<Longrightarrow>
     (\<forall>f \<in> set files. \<not> isl (getAbs s f w)) \<and> args' = args @ map (\<lambda>f. projr (getAbs s f w)) files"
proof (induction files arbitrary: args)
  case Nil
  then show ?case by simp
next
  case (Cons f files)
  from Cons.prems obtain x where x: "getAbs s f w = Inr x"
    and rest: "Merge_loop s (args @ [x]) files w = Inr args'"
    by (cases "getAbs s f w") simp_all
  from Cons.IH [OF rest] x show ?case by simp
qed

lemma Merge_loop_fails:
  "\<exists>f \<in> set files. isl (getAbs s f w) \<Longrightarrow> isl (Merge_loop s args files w)"
  by (induction files arbitrary: args) (auto split: sum.splits)

lemma Merge_cases:
  obtains
    (early) err where
      "isl (Merge_loop s [] files w) \<or> isl (fst (ioutil_TempDir s w))"
      "Merge s files w = ((None, Some err), w)"
  | (scratch) args w1 r w2 e3 w3 where
      "Merge_loop s [] files w = Inr args"
      "ioutil_TempDir s w = (Inr (tempName s), w1)"
      "Merge_rest s args (tempName s) w1 = (r, w2)"
      "os_RemoveAll s (tempName s) w2 = (e3, w3)"
      "Merge s files w = (r, w3)"
proof (cases "isl (Merge_loop s [] files w) \<or> isl (fst (ioutil_TempDir s w))")
  case True
  obtain t w1 where td: "ioutil_TempDir s w = (t, w1)" by (cases "ioutil_TempDir s w")
  have "\<exists>err. Merge s files w = ((None, Some err), w)"
    using True td ioutil_TempDir_Inl [of s w _ w1]
    by (auto simp: Merge_def split: sum.splits)
  with True early show ?thesis by blast
next
  case False
  then obtain args tmp w1 where ok: "Merge_loop s [] files w = Inr args"
    "ioutil_TempDir s w = (Inr tmp, w1)"
    by (cases "Merge_loop s [] files w"; cases "ioutil_TempDir s w";
        cases "fst (ioutil_TempDir s w)") auto
  with ioutil_TempDir_Inr [of s w tmp w1] have td: "ioutil_TempDir s w = (Inr (tempName s), w1)"
    by simp
  obtain r w2 where rest: "Merge_rest s args (tempName s) w1 = (r, w2)"
    by (cases "Merge_rest s args (tempName s) w1")
  obtain e3 w3 where ra: "os_RemoveAll s (tempName s) w2 = (e3, w3)"
    by (cases "os_RemoveAll s (tempName s) w2")
  from ok(1) td rest ra have "Merge s files w = (r, w3)" by (simp add: Merge_def)
  with ok(1) td rest ra scratch show ?thesis by blast
qed

subsection \<open>Input paths and the start of the tool\<close>

lemma Fill_spawned:
  "spawned (snd (Fill s form formPDFFile destPDFFile c u ov w)) = spawned w
   \<or> (\<exists>src. getAbs s formPDFFile w = Inr src
        \<and> spawned (snd (Fill s form formPDFFile destPDFFile c u ov w))
            = spawned w @ [(tempName s, ''pdftk'',
                [src, ''fill_form'', cleanPath s (tempName s @ ''/data.fdf''), ''output'',
                 cleanPath s (tempName s @ ''/output.pdf''), ''flatten''])])"
  using Fill_effects [of s form formPDFFile destPDFFile c u ov w] by auto

lemma Fill_unresolved:
  "isl (getAbs s formPDFFile w) \<Longrightarrow>
     fst (Fill s form formPDFFile destPDFFile c u ov w) \<noteq> None
     \<and> snd (Fill s form formPDFFile destPDFFile c u ov w) = w"
  by (cases rule: Fill_cases [of s form formPDFFile destPDFFile c u ov w]) auto

lemma Multistamp_spawned:
  "spawned (snd (Multistamp s x y w)) = spawned w
   \<or> (\<exists>a b. getAbs s x w = Inr a \<and> getAbs s y w = Inr b
        \<and> spawned (snd (Multistamp s x y w))
            = spawned w @ [(tempName s, ''pdftk'',
                [a, ''multistamp'', b, ''output'', cleanPath s (tempName s @ ''/output.pdf'')])])"
proof (cases rule: Multistamp_cases [of s x w y])
  case (scratch exe a' b' w1 r w2 e3 w3)
  from ioutil_TempDir_frame [OF scratch(4)] Multistamp_rest_effects [OF scratch(5)]
    os_RemoveAll_frame [OF scratch(6)] scratch(2,3,7)
  show ?thesis by auto
qed simp

lemma Multistamp_unresolved:
  "isl (getAbs s x w) \<or> isl (getAbs s y w) \<Longrightarrow>
     snd (fst (Multistamp s x y w)) \<noteq> None \<and> snd (Multistamp s x y w) = w"
  by (cases rule: Multistamp_cases [of s x w y]) auto

lemma Multistamp_part001_spawned:
  "spawned (snd (Multistamp_part001 s x y w)) = spawned w
   \<or> (\<exists>a b. getAbs s x w = Inr a \<and> getAbs s y w = Inr b
        \<and> spawned (snd (Multistamp_part001 s x y w))
            = spawned w @ [(tempName s, ''pdftk'',
                [a, ''multistamp'', b, ''output'', cleanPath s (tempName s @ ''/output.pdf'')])])"
proof (cases rule: Multistamp_part001_cases [of s x w y])
  case (scratch exe a' b' w1 r w2 e3 w3)
  from ioutil_TempDir_frame [OF scratch(4)] Multistamp_part001_rest_effects [OF scratch(5)]
    os_RemoveAll_frame [OF scratch(6)] scratch(2,3,7)
  show ?thesis by (cases e3) (auto simp: log_Printf_def)
qed simp_all

lemma Multistamp_part001_unresolved:
  "isl (getAbs s x w) \<or> isl (getAbs s y w) \<Longrightarrow> snd (Multistamp_part001 s x y w) = w"
  by (cases rule: Multistamp_part001_cases [of s x w y]) auto

lemma Merge_spawned:
  "spawned (snd (Merge s files w)) = spawned w
   \<or> ((\<forall>f \<in> set files. \<not> isl (getAbs s f w))
        \<and> spawned (snd (Merge s files w))
            = spawned w @ [(tempName s, ''pdftk'',
                map (\<lambda>f. projr (getAbs s f w)) files
                  @ [''cat'', ''output'', joinPath s (tempName s) (FormatInt (unixTime s) @ ''.pdf'')])])"
proof (cases rule: Merge_cases [of s files w])
  case (scratch args w1 r w2 e3 w3)
  from ioutil_TempDir_frame [OF scratch(2)] Merge_rest_effects [OF scratch(3)]
    os_RemoveAll_frame [OF scratch(4)] scratch(5) Merge_loop_result [OF scratch(1)]
  show ?thesis by auto
qed simp

lemma Merge_unresolved:
  "\<exists>f \<in> set files. isl (getAbs s f w) \<Longrightarrow>
     snd (fst (Merge s files w)) \<noteq> None \<and> snd (Merge s files w) = w"
  using Merge_loop_fails [of files s w "[]"]
  by (cases rule: Merge_cases [of s files w]) auto

lemma FillPDFToBytes_spawned:
  "spawned (snd (FillPDFToBytes s form formAbsolutePath tmpDir c u w)) = spawned w
   \<or> (\<exists>fdfFile. spawned (snd (FillPDFToBytes s form formAbsolutePath tmpDir c u w))
        = spawned w @ [(tmpDir, ''pdftk'',
            [formAbsolutePath, ''fill_form'', fdfFile, ''output'', ''-'', ''flatten''])])"
proof (cases "GetID s ''pdf_''")
  case (Inl err)
  then show ?thesis by (simp add: FillPDFToBytes_def)
next
  case (Inr ident)
  let ?fdf = "cleanPath s (tmpDir @ ''/'' @ ident @ ''.fdf'')"
  let ?args = "[formAbsolutePath, ''fill_form'', ?fdf, ''output'', ''-'', ''flatten'']"
  obtain r w2 where rest: "FillPDFToBytes_rest s form formAbsolutePath tmpDir c u ?fdf w = (r, w2)"
    by (cases "FillPDFToBytes_rest s form formAbsolutePath tmpDir c u ?fdf w")
  obtain e3 w3 where rm: "os_Remove s ?fdf w2 = (e3, w3)" by (cases "os_Remove s ?fdf w2")
  from Inr rest rm have fin: "snd (FillPDFToBytes s form formAbsolutePath tmpDir c u w) = w3"
    by (simp add: FillPDFToBytes_def)
  obtain e1 w1 where cr: "createFdfFile s form ?fdf c u w = (e1, w1)"
    by (cases "createFdfFile s form ?fdf c u w")
  have "spawned w2 = spawned w \<or> spawned w2 = spawned w @ [(tmpDir, ''pdftk'', ?args)]"
  proof (cases e1)
    case (Some err)
    with cr rest createFdfFile_frame [OF cr] show ?thesis
      by (simp add: FillPDFToBytes_rest_def)
  next
    case None
    obtain ro w' where run: "runCommandWithOutput s tmpDir ''pdftk'' ?args w1 = (ro, w')"
      by (cases "runCommandWithOutput s tmpDir ''pdftk'' ?args w1")
    with None cr rest have "w2 = w'"
      by (cases ro) (auto simp: FillPDFToBytes_rest_def split: option.splits)
    with runCommandWithOutput_cases [OF run] createFdfFile_frame [OF cr] show ?thesis by auto
  qed
  with os_Remove_frame [OF rm] fin show ?thesis by auto
qed

text \<open>
  Claim C4, as the code has it. \<open>getAbs\<close> succeeds only on a path that exists, and returns
  what \<^verbatim>\<open>filepath.Abs\<close> gives for it. \<open>Fill\<close>, both revisions of \<open>Multistamp\<close> and \<open>Merge\<close> pass
  every input path through \<open>getAbs\<close> before the tool is started: when that fails for an
  input, nothing at all has been done (no process started), and \<open>Fill\<close>, \<open>Multistamp\<close> of
  part 002 and \<open>Merge\<close> return an error; and a process they start has the resolved paths as
  its input arguments. \<open>FillPDFToBytes\<close> hands the path it is given to the tool as it is.
\<close>

theorem input_paths_resolved_before_tool:
  "(getAbs s p w = Inr a \<longrightarrow> absPath s p = Inr a \<and> fs w p \<noteq> None)
   \<and> (fs w p = None \<longrightarrow> isl (getAbs s p w))
   \<and> (isl (getAbs s p w) \<longrightarrow>
        fst (Fill s form p destPDFFile c u ov w) \<noteq> None
        \<and> snd (Fill s form p destPDFFile c u ov w) = w)
   \<and> (isl (getAbs s x w) \<or> isl (getAbs s y w) \<longrightarrow>
        snd (fst (Multistamp s x y w)) \<noteq> None \<and> snd (Multistamp s x y w) = w)
   \<and> (isl (getAbs s x w) \<or> isl (getAbs s y w) \<longrightarrow> snd (Multistamp_part001 s x y w) = w)
   \<and> ((\<exists>f \<in> set files. isl (getAbs s f w)) \<longrightarrow>
        snd (fst (Merge s files w)) \<noteq> None \<and> snd (Merge s files w) = w)
   \<and> (spawned (snd (Fill s form p destPDFFile c u ov w)) = spawned w
       \<or> (\<exists>src. getAbs s p w = Inr src
            \<and> spawned (snd (Fill s form p destPDFFile c u ov w))
                = spawned w @ [(tempName s, ''pdftk'',
                    [src, ''fill_form'', cleanPath s (tempName s @ ''/data.fdf''), ''output'',
                     cleanPath s (tempName s @ ''/output.pdf''), ''flatten''])]))
   \<and> (spawned (snd (Multistamp s x y w)) = spawned w
       \<or> (\<exists>a b. getAbs s x w = Inr a \<and> getAbs s y w = Inr b
            \<and> spawned (snd (Multistamp s x y w))
                = spawned w @ [(tempName s, ''pdftk'',
                    [a, ''multistamp'', b, ''output'', cleanPath s (tempName s @ ''/output.pdf'')])]))
   \<and> (spawned (snd (Multistamp_part001 s x y w)) = spawned w
       \<or> (\<exists>a b. getAbs s x w = Inr a \<and> getAbs s y w = Inr b
            \<and> spawned (snd (Multistamp_part001 s x y w))
                = spawned w @ [(tempName s, ''pdftk'',
                    [a, ''multistamp'', b, ''output'', cleanPath s (tempName s @ ''/output.pdf'')])]))
   \<and> (spawned (snd (Merge s files w)) = spawned w
       \<or> ((\<forall>f \<in> set files. \<not> isl (getAbs s f w))
            \<and> spawned (snd (Merge s files w))
                = spawned w @ [(tempName s, ''pdftk'',
                    map (\<lambda>f. projr (getAbs s f w)) files
                      @ [''cat'', ''output'',
                         joinPath s (tempName s) (FormatInt (unixTime s) @ ''.pdf'')])]))
   \<and> (spawned (snd (FillPDFToBytes s form p tmpDir c u w)) = spawned w
       \<or> (\<exists>fdfFile. spawned (snd (FillPDFToBytes s form p tmpDir c u w))
            = spawned w @ [(tmpDir, ''pdftk'',
                [p, ''fill_form'', fdfFile, ''output'', ''-'', ''flatten''])]))"
  using getAbs_Inr [of s p w a] getAbs_missing [of w p s]
    Fill_unresolved [of s p w form destPDFFile c u ov]
    Multistamp_unresolved [of s x w y] Multistamp_part001_unresolved [of s x w y]
    Merge_unresolved [of files s w]
    Fill_spawned [of s form p destPDFFile c u ov w]
    Multistamp_spawned [of s x y w] Multistamp_part001_spawned [of s x y w]
    Merge_spawned [of s files w] FillPDFToBytes_spawned [of s form p tmpDir c u w]
  by blast

theorem input_paths_resolved_before_tool_witness:
  "fs demo_world ''/w/missing.pdf'' = None
   \<and> isl (getAbs demo_sys ''/w/missing.pdf'' demo_world)
   \<and> fst (Fill demo_sys demo_form ''/w/missing.pdf'' ''/w/out.pdf'' ''Yes'' ''No'' False demo_world)
       \<noteq> None
   \<and> snd (Fill demo_sys demo_form ''/w/missing.pdf'' ''/w/out.pdf'' ''Yes'' ''No'' False demo_world)
       = demo_world
   \<and> snd (fst (Multistamp demo_sys ''/w/form.pdf'' ''/w/missing.pdf'' demo_world)) \<noteq> None
   \<and> snd (Multistamp demo_sys ''/w/form.pdf'' ''/w/missing.pdf'' demo_world) = demo_world
   \<and> snd (Multistamp_part001 demo_sys ''/w/form.pdf'' ''/w/missing.pdf'' demo_world) = demo_world
   \<and> snd (fst (Merge demo_sys [''/w/form.pdf'', ''/w/missing.pdf''] demo_world)) \<noteq> None
   \<and> snd (Merge demo_sys [''/w/form.pdf'', ''/w/missing.pdf''] demo_world) = demo_world
   \<and> getAbs demo_sys ''/w/form.pdf'' demo_world = Inr ''/w/form.pdf''
   \<and> absPath demo_sys ''/w/form.pdf'' = Inr ''/w/form.pdf''
   \<and> fs demo_world ''/w/form.pdf'' \<noteq> None"
proof -
  have m: "fs demo_world ''/w/missing.pdf'' = None" by (simp add: demo_world_def demo_fs_def)
  have g: "getAbs demo_sys ''/w/form.pdf'' demo_world = Inr ''/w/form.pdf''"
    by (simp add: getAbs_def exists_def os_Stat_def demo_sys_def demo_world_def demo_fs_def)
  note inst = input_paths_resolved_before_tool [where s = demo_sys and w = demo_world
      and form = demo_form and destPDFFile = "''/w/out.pdf''" and c = "''Yes''" and u = "''No''"
      and ov = False and y = "''/w/missing.pdf''" and x = "''/w/form.pdf''"
      and files = "[''/w/form.pdf'', ''/w/missing.pdf'']"]
  have i: "isl (getAbs demo_sys ''/w/missing.pdf'' demo_world)"
    using inst [where p = "''/w/missing.pdf''"] m by blast
  have 1: "fst (Fill demo_sys demo_form ''/w/missing.pdf'' ''/w/out.pdf'' ''Yes'' ''No'' False demo_world)
       \<noteq> None
   \<and> snd (Fill demo_sys demo_form ''/w/missing.pdf'' ''/w/out.pdf'' ''Yes'' ''No'' False demo_world)
       = demo_world"
    using inst [where p = "''/w/missing.pdf''"] i by blast
  have 2: "snd (fst (Multistamp demo_sys ''/w/form.pdf'' ''/w/missing.pdf'' demo_world)) \<noteq> None
   \<and> snd (Multistamp demo_sys ''/w/form.pdf'' ''/w/missing.pdf'' demo_world) = demo_world
   \<and> snd (Multistamp_part001 demo_sys ''/w/form.pdf'' ''/w/missing.pdf'' demo_world) = demo_world"
    using inst [where p = "''/w/missing.pdf''"] i by blast
  have "\<exists>f \<in> set [''/w/form.pdf'', ''/w/missing.pdf'']. isl (getAbs demo_sys f demo_world)"
    using i by simp
  then have 3: "snd (fst (Merge demo_sys [''/w/form.pdf'', ''/w/missing.pdf''] demo_world)) \<noteq> None
   \<and> snd (Merge demo_sys [''/w/form.pdf'', ''/w/missing.pdf''] demo_world) = demo_world"
    using inst [where p = "''/w/missing.pdf''"] by blast
  have 4: "absPath demo_sys ''/w/form.pdf'' = Inr ''/w/form.pdf''
     \<and> fs demo_world ''/w/form.pdf'' \<noteq> None"
    using inst [where p = "''/w/form.pdf''" and a = "''/w/form.pdf''"] g by blast
  show ?thesis using m i 1 2 3 g 4 by blast
qed

text \<open>
  Claim C4 as it is worded fails for \<open>FillPDFToBytes\<close>: given a relative path of a file that
  does not exist, it starts the tool, with that path as its first argument.
\<close>

theorem FillPDFToBytes_unchecked_path_counterexample:
  "fs demo_world ''missing.pdf'' = None
   \<and> spawned demo_world = []
   \<and> spawned (snd (FillPDFToBytes demo_sys demo_form ''missing.pdf'' ''/tmp'' ''Yes'' ''No''
                     demo_world))
       = [(''/tmp'', ''pdftk'',
           [''missing.pdf'', ''fill_form'', ''/tmp/pdf__0123456789abcdef.fdf'', ''output'', ''-'',
            ''flatten''])]"
  by code_simp

subsection \<open>The destination of Fill\<close>






subsection \<open>Two systems that differ only in how RemoveAll fails\<close>

lemma fault_update_steps:
  assumes a: "\<And>call. (\<And>d. call \<noteq> RemoveAll d) \<Longrightarrow> f' call = fault s call"
  shows "os_Stat (s\<lparr>fault := f'\<rparr>) = os_Stat s"
    and "os_Open (s\<lparr>fault := f'\<rparr>) = os_Open s"
    and "os_Create (s\<lparr>fault := f'\<rparr>) = os_Create s"
    and "file_Write (s\<lparr>fault := f'\<rparr>) = file_Write s"
    and "file_Sync (s\<lparr>fault := f'\<rparr>) = file_Sync s"
    and "file_Close (s\<lparr>fault := f'\<rparr>) = file_Close s"
    and "os_Remove (s\<lparr>fault := f'\<rparr>) = os_Remove s"
    and "ioutil_TempDir (s\<lparr>fault := f'\<rparr>) = ioutil_TempDir s"
    and "runCommandInPath (s\<lparr>fault := f'\<rparr>) = runCommandInPath s"
    and "fault (s\<lparr>fault := f'\<rparr>) (Read p) = fault s (Read p)"
proof -
  have eq: "f' (Stat q) = fault s (Stat q)" "f' (Open q) = fault s (Open q)"
    "f' (Create q) = fault s (Create q)" "f' (Read q) = fault s (Read q)"
    "f' (Write q) = fault s (Write q)" "f' (Sync q) = fault s (Sync q)"
    "f' (Close q) = fault s (Close q)" "f' (Remove q) = fault s (Remove q)"
    "f' MkdirTemp = fault s MkdirTemp" for q
    by (rule a, simp)+
  show "os_Stat (s\<lparr>fault := f'\<rparr>) = os_Stat s"
    by (simp add: fun_eq_iff os_Stat_def eq split: option.splits node.splits)
  show "os_Open (s\<lparr>fault := f'\<rparr>) = os_Open s"
    by (simp add: fun_eq_iff os_Open_def eq split: option.splits node.splits)
  show "os_Create (s\<lparr>fault := f'\<rparr>) = os_Create s"
    by (simp add: fun_eq_iff os_Create_def eq split: option.splits node.splits)
  show "file_Write (s\<lparr>fault := f'\<rparr>) = file_Write s"
    by (simp add: fun_eq_iff file_Write_def eq split: option.splits node.splits)
  show "file_Sync (s\<lparr>fault := f'\<rparr>) = file_Sync s"
    by (simp add: fun_eq_iff file_Sync_def eq)
  show "file_Close (s\<lparr>fault := f'\<rparr>) = file_Close s"
    by (simp add: fun_eq_iff file_Close_def eq)
  show "os_Remove (s\<lparr>fault := f'\<rparr>) = os_Remove s"
    by (simp add: fun_eq_iff os_Remove_def eq split: option.splits node.splits)
  show "ioutil_TempDir (s\<lparr>fault := f'\<rparr>) = ioutil_TempDir s"
    by (simp add: fun_eq_iff ioutil_TempDir_def eq split: option.splits node.splits)
  show "runCommandInPath (s\<lparr>fault := f'\<rparr>) = runCommandInPath s"
    by (simp add: fun_eq_iff runCommandInPath_def Let_def split: sum.splits)
  show "fault (s\<lparr>fault := f'\<rparr>) (Read p) = fault s (Read p)"
    by (simp add: eq)
qed

lemma fault_update_helpers:
  assumes a: "\<And>call. (\<And>d. call \<noteq> RemoveAll d) \<Longrightarrow> f' call = fault s call"
  shows "io_Copy (s\<lparr>fault := f'\<rparr>) = io_Copy s"
    and "ioutil_ReadFile (s\<lparr>fault := f'\<rparr>) = ioutil_ReadFile s"
    and "exists (s\<lparr>fault := f'\<rparr>) = exists s"
    and "createFdfFile (s\<lparr>fault := f'\<rparr>) = createFdfFile s"
  using fault_update_steps [OF a]
  by (simp_all add: fun_eq_iff io_Copy_def ioutil_ReadFile_def exists_def createFdfFile_def Flush_def
        Let_def split: option.splits node.splits prod.splits)

lemma fault_update_getAbs:
  assumes a: "\<And>call. (\<And>d. call \<noteq> RemoveAll d) \<Longrightarrow> f' call = fault s call"
  shows "getAbs (s\<lparr>fault := f'\<rparr>) = getAbs s"
    and "copyFile (s\<lparr>fault := f'\<rparr>) = copyFile s"
  using fault_update_steps [OF a] fault_update_helpers [OF a]
  by (simp_all add: fun_eq_iff getAbs_def copyFile_def Let_def split: option.splits sum.splits prod.splits)

lemma fault_update_rest:
  assumes a: "\<And>call. (\<And>d. call \<noteq> RemoveAll d) \<Longrightarrow> f' call = fault s call"
  shows "Fill_rest (s\<lparr>fault := f'\<rparr>) = Fill_rest s"
    and "Multistamp_rest (s\<lparr>fault := f'\<rparr>) = Multistamp_rest s"
    and "Multistamp_part001_rest (s\<lparr>fault := f'\<rparr>) = Multistamp_part001_rest s"
    and "Merge_rest (s\<lparr>fault := f'\<rparr>) = Merge_rest s"
  using fault_update_steps [OF a] fault_update_helpers [OF a] fault_update_getAbs [OF a]
  by (simp_all add: fun_eq_iff Fill_rest_def Multistamp_rest_def Multistamp_part001_rest_def
        Merge_rest_def Let_def split: option.splits sum.splits prod.splits)

lemma fault_update_Merge_loop:
  assumes a: "\<And>call. (\<And>d. call \<noteq> RemoveAll d) \<Longrightarrow> f' call = fault s call"
  shows "Merge_loop (s\<lparr>fault := f'\<rparr>) args files w = Merge_loop s args files w"
  by (induction files arbitrary: args) (simp_all add: fault_update_getAbs [OF a] split: sum.splits)

lemma fault_update_results:
  assumes a: "\<And>call. (\<And>d. call \<noteq> RemoveAll d) \<Longrightarrow> f' call = fault s call"
  shows "fst (Fill (s\<lparr>fault := f'\<rparr>) form p d c u ov w) = fst (Fill s form p d c u ov w)"
    and "fst (Multistamp (s\<lparr>fault := f'\<rparr>) x y w) = fst (Multistamp s x y w)"
    and "fst (Multistamp_part001 (s\<lparr>fault := f'\<rparr>) x y w) = fst (Multistamp_part001 s x y w)"
    and "fst (Merge (s\<lparr>fault := f'\<rparr>) files w) = fst (Merge s files w)"
  using fault_update_steps [OF a] fault_update_getAbs [OF a] fault_update_rest [OF a]
    fault_update_Merge_loop [OF a]
  by (simp_all add: Fill_def Multistamp_def Multistamp_part001_def Merge_def
        split: sum.splits prod.splits)

subsection \<open>The scratch directory after the operation\<close>

lemma os_RemoveAll_removes:
  "os_RemoveAll s p w = (e, w') \<Longrightarrow> fault s (RemoveAll p) = None \<Longrightarrow> inside p q \<Longrightarrow>
     fs w' q = None"
  by (auto simp: os_RemoveAll_def)

lemma os_RemoveAll_error:
  "os_RemoveAll s p w = (e, w') \<Longrightarrow> e = fault s (RemoveAll p)"
  by (auto simp: os_RemoveAll_def split: option.splits)

lemma Fill_scratch_removed:
  assumes "fault s (RemoveAll (tempName s)) = None"
  shows "snd (Fill s form p d c u ov w) = w
       \<or> (\<forall>q. inside (tempName s) q \<longrightarrow> fs (snd (Fill s form p d c u ov w)) q = None)"
proof (cases rule: Fill_cases [of s form p d c u ov w])
  case (scratch exe src dst w1 r w2 e3 w3)
  with os_RemoveAll_removes [OF scratch(6) assms] show ?thesis by simp
qed simp_all

lemma Multistamp_scratch_removed:
  assumes "fault s (RemoveAll (tempName s)) = None"
  shows "snd (Multistamp s x y w) = w
       \<or> (\<forall>q. inside (tempName s) q \<longrightarrow> fs (snd (Multistamp s x y w)) q = None)"
proof (cases rule: Multistamp_cases [of s x w y])
  case (scratch exe a' b' w1 r w2 e3 w3)
  with os_RemoveAll_removes [OF scratch(6) assms] show ?thesis by simp
qed simp

lemma Multistamp_part001_scratch_removed:
  assumes "fault s (RemoveAll (tempName s)) = None"
  shows "snd (Multistamp_part001 s x y w) = w
       \<or> (\<forall>q. inside (tempName s) q \<longrightarrow> fs (snd (Multistamp_part001 s x y w)) q = None)"
proof (cases rule: Multistamp_part001_cases [of s x w y])
  case (scratch exe a' b' w1 r w2 e3 w3)
  from os_RemoveAll_error [OF scratch(6)] assms have "e3 = None" by simp
  with scratch(7) os_RemoveAll_removes [OF scratch(6) assms] show ?thesis by simp
qed simp_all

lemma Merge_scratch_removed:
  assumes "fault s (RemoveAll (tempName s)) = None"
  shows "snd (Merge s files w) = w
       \<or> (\<forall>q. inside (tempName s) q \<longrightarrow> fs (snd (Merge s files w)) q = None)"
proof (cases rule: Merge_cases [of s files w])
  case (scratch args w1 r w2 e3 w3)
  with os_RemoveAll_removes [OF scratch(4) assms] show ?thesis by simp
qed simp

lemma Multistamp_logged: "logged (snd (Multistamp s x y w)) = logged w"
proof (cases rule: Multistamp_cases [of s x w y])
  case (scratch exe a' b' w1 r w2 e3 w3)
  from ioutil_TempDir_frame [OF scratch(4)] Multistamp_rest_effects [OF scratch(5)]
    os_RemoveAll_frame [OF scratch(6)] scratch(7)
  show ?thesis by simp
qed simp

lemma Merge_logged: "logged (snd (Merge s files w)) = logged w"
proof (cases rule: Merge_cases [of s files w])
  case (scratch args w1 r w2 e3 w3)
  from ioutil_TempDir_frame [OF scratch(2)] Merge_rest_effects [OF scratch(3)]
    os_RemoveAll_frame [OF scratch(4)] scratch(5)
  show ?thesis by simp
qed simp

lemma Multistamp_part001_logged:
  "(fault s (RemoveAll (tempName s)) = None \<or> snd (Multistamp_part001 s x y w) = w)
     \<and> logged (snd (Multistamp_part001 s x y w)) = logged w
   \<or> (\<exists>e. fault s (RemoveAll (tempName s)) = Some e
         \<and> logged (snd (Multistamp_part001 s x y w))
             = logged w @ [(''fillpdf: failed to remove temporary directory '%s'' @ [CHR 0x27]
                              @ '' again: %v'', [ArgString (tempName s), ArgError e])])"
proof (cases rule: Multistamp_part001_cases [of s x w y])
  case (scratch exe a' b' w1 r w2 e3 w3)
  from ioutil_TempDir_frame [OF scratch(4)] Multistamp_part001_rest_effects [OF scratch(5)]
    os_RemoveAll_frame [OF scratch(6)]
  have l: "logged w3 = logged w" by simp
  from os_RemoveAll_error [OF scratch(6)] have e: "e3 = fault s (RemoveAll (tempName s))" .
  show ?thesis using scratch(7) l e by (cases e3) (auto simp: log_Printf_def)
qed simp_all

text \<open>
  Claim C8, as the code has it, for \<open>Fill\<close> (fillpdf.go), \<open>Merge\<close> and both revisions of
  \<open>Multistamp\<close>. Two systems that differ only in whether and how \<^verbatim>\<open>os.RemoveAll\<close> fails give
  the same returned result: a failed cleanup changes neither an error nor a success. When
  the removal does not fail, the operation either stopped before it made the scratch
  directory, with the world as it was, or it leaves nothing at or below the scratch
  directory. \<open>Fill\<close>, \<open>Multistamp\<close> of part 002 and \<open>Merge\<close> never log; \<open>Multistamp\<close> of
  part 001 logs exactly the failure of the removal.
\<close>

theorem scratch_directory_cleanup:
  assumes "\<forall>call. (\<forall>d. call \<noteq> RemoveAll d) \<longrightarrow> f' call = fault s call"
  shows "fst (Fill (s\<lparr>fault := f'\<rparr>) form p d c u ov w) = fst (Fill s form p d c u ov w)
   \<and> fst (Multistamp (s\<lparr>fault := f'\<rparr>) x y w) = fst (Multistamp s x y w)
   \<and> fst (Multistamp_part001 (s\<lparr>fault := f'\<rparr>) x y w) = fst (Multistamp_part001 s x y w)
   \<and> fst (Merge (s\<lparr>fault := f'\<rparr>) files w) = fst (Merge s files w)
   \<and> (fault s (RemoveAll (tempName s)) = None \<longrightarrow>
        (snd (Fill s form p d c u ov w) = w
          \<or> (\<forall>q. inside (tempName s) q \<longrightarrow> fs (snd (Fill s form p d c u ov w)) q = None))
        \<and> (snd (Multistamp s x y w) = w
          \<or> (\<forall>q. inside (tempName s) q \<longrightarrow> fs (snd (Multistamp s x y w)) q = None))
        \<and> (snd (Multistamp_part001 s x y w) = w
          \<or> (\<forall>q. inside (tempName s) q \<longrightarrow> fs (snd (Multistamp_part001 s x y w)) q = None))
        \<and> (snd (Merge s files w) = w
          \<or> (\<forall>q. inside (tempName s) q \<longrightarrow> fs (snd (Merge s files w)) q = None)))
   \<and> logged (snd (Fill s form p d c u ov w)) = logged w
   \<and> logged (snd (Multistamp s x y w)) = logged w
   \<and> logged (snd (Merge s files w)) = logged w
   \<and> ((fault s (RemoveAll (tempName s)) = None \<or> snd (Multistamp_part001 s x y w) = w)
        \<and> logged (snd (Multistamp_part001 s x y w)) = logged w
      \<or> (\<exists>e. fault s (RemoveAll (tempName s)) = Some e
            \<and> logged (snd (Multistamp_part001 s x y w))
                = logged w @ [(''fillpdf: failed to remove temporary directory '%s'' @ [CHR 0x27]
                                 @ '' again: %v'', [ArgString (tempName s), ArgError e])]))"
proof -
  from assms have a: "\<And>call. (\<And>d. call \<noteq> RemoveAll d) \<Longrightarrow> f' call = fault s call" by blast
  note r = fault_update_results [OF a]
  show ?thesis
    apply (intro conjI impI)
    subgoal by (rule r(1))
    subgoal by (rule r(2))
    subgoal by (rule r(3))
    subgoal by (rule r(4))
    subgoal by (erule Fill_scratch_removed)
    subgoal by (erule Multistamp_scratch_removed)
    subgoal by (erule Multistamp_part001_scratch_removed)
    subgoal by (erule Merge_scratch_removed)
    subgoal by (rule Fill_effects [THEN conjunct1])
    subgoal by (rule Multistamp_logged)
    subgoal by (rule Merge_logged)
    subgoal by (rule Multistamp_part001_logged)
    done
qed

theorem scratch_directory_cleanup_witness:
  "busy_sys = demo_sys\<lparr>fault := fault busy_sys\<rparr>
   \<and> fault busy_sys (RemoveAll ''/tmp/fillpdf-1'') = Some (SysError ''device or resource busy'')
   \<and> fault demo_sys (RemoveAll (tempName demo_sys)) = None
   \<and> fst (Fill busy_sys demo_form ''/w/form.pdf'' ''/w/out.pdf'' ''Yes'' ''No'' False demo_world)
       = fst (Fill demo_sys demo_form ''/w/form.pdf'' ''/w/out.pdf'' ''Yes'' ''No'' False demo_world)
   \<and> fst (Merge busy_sys [''/w/form.pdf'', ''/w/stamp.pdf''] demo_world)
       = fst (Merge demo_sys [''/w/form.pdf'', ''/w/stamp.pdf''] demo_world)
   \<and> fst (Multistamp busy_sys ''/w/form.pdf'' ''/w/stamp.pdf'' demo_world)
       = fst (Multistamp demo_sys ''/w/form.pdf'' ''/w/stamp.pdf'' demo_world)
   \<and> fst (Multistamp_part001 busy_sys ''/w/form.pdf'' ''/w/stamp.pdf'' demo_world)
       = fst (Multistamp_part001 demo_sys ''/w/form.pdf'' ''/w/stamp.pdf'' demo_world)
   \<and> snd (Fill demo_sys demo_form ''/w/form.pdf'' ''/w/out.pdf'' ''Yes'' ''No'' False demo_world)
       \<noteq> demo_world
   \<and> fs (snd (Fill demo_sys demo_form ''/w/form.pdf'' ''/w/out.pdf'' ''Yes'' ''No'' False demo_world))
        ''/tmp/fillpdf-1/output.pdf'' = None"
proof -
  have b: "busy_sys = demo_sys\<lparr>fault := fault busy_sys\<rparr>" by (simp add: busy_sys_def)
  have h: "\<forall>call. (\<forall>d. call \<noteq> RemoveAll d) \<longrightarrow> fault busy_sys call = fault demo_sys call"
    by (auto simp: busy_sys_def demo_sys_def)
  have f: "fault busy_sys (RemoveAll ''/tmp/fillpdf-1'') = Some (SysError ''device or resource busy'')"
    "fault demo_sys (RemoveAll (tempName demo_sys)) = None"
    by (simp_all add: busy_sys_def demo_sys_def)
  have changed: "snd (Fill demo_sys demo_form ''/w/form.pdf'' ''/w/out.pdf'' ''Yes'' ''No'' False demo_world)
       \<noteq> demo_world"
  proof
    assume "snd (Fill demo_sys demo_form ''/w/form.pdf'' ''/w/out.pdf'' ''Yes'' ''No'' False demo_world)
       = demo_world"
    then have "spawned (snd (Fill demo_sys demo_form ''/w/form.pdf'' ''/w/out.pdf'' ''Yes'' ''No''
                  False demo_world)) = spawned demo_world" by simp
    moreover have "spawned (snd (Fill demo_sys demo_form ''/w/form.pdf'' ''/w/out.pdf'' ''Yes'' ''No''
                  False demo_world)) \<noteq> spawned demo_world" by code_simp
    ultimately show False by simp
  qed
  have i: "inside (tempName demo_sys) ''/tmp/fillpdf-1/output.pdf''"
    by (simp add: inside_def demo_sys_def)
  note inst = scratch_directory_cleanup [OF h, folded b, where form = demo_form
      and p = "''/w/form.pdf''" and d = "''/w/out.pdf''" and c = "''Yes''" and u = "''No''"
      and ov = False and w = demo_world and x = "''/w/form.pdf''" and y = "''/w/stamp.pdf''"
      and files = "[''/w/form.pdf'', ''/w/stamp.pdf'']"]
  show ?thesis using b f changed i inst by blast
qed

text \<open>
  Claim C8 as it is worded fails for \<open>Fill\<close>: when the removal of the scratch directory
  fails, \<open>Fill\<close> returns success, the directory is still there, and nothing has been logged.
\<close>

theorem Fill_cleanup_not_logged_counterexample:
  "fault busy_sys (RemoveAll ''/tmp/fillpdf-1'') = Some (SysError ''device or resource busy'')
   \<and> fst (Fill busy_sys demo_form ''/w/form.pdf'' ''/w/out.pdf'' ''Yes'' ''No'' False demo_world)
       = None
   \<and> fs (snd (Fill busy_sys demo_form ''/w/form.pdf'' ''/w/out.pdf'' ''Yes'' ''No'' False
                 demo_world)) ''/tmp/fillpdf-1'' = Some Dir
   \<and> logged (snd (Fill busy_sys demo_form ''/w/form.pdf'' ''/w/out.pdf'' ''Yes'' ''No'' False
                     demo_world)) = []"
  by code_simp

text \<open>
  The revision of \<open>Fill\<close> in part 000 has its cleanup commented out: also without any fault
  the scratch directory and the files in it are there when it returns.
\<close>

lemma Fill_part000_keeps_scratch_directory:
  "fst (Fill_part000 demo_sys demo_form ''/w/form.pdf'' ''/w/out.pdf'' False demo_world) = None
   \<and> fs (snd (Fill_part000 demo_sys demo_form ''/w/form.pdf'' ''/w/out.pdf'' False demo_world))
        ''/tmp/fillpdf-1'' = Some Dir
   \<and> fs (snd (Fill_part000 demo_sys demo_form ''/w/form.pdf'' ''/w/out.pdf'' False demo_world))
        ''/tmp/fillpdf-1/output.pdf'' = Some (File ''%PDF-out'')"
  by code_simp

end
